(* ===== verification/Prelude.thy ===== *)
theory Prelude
  imports Main "HOL-Library.Multiset"
begin

text \<open>
  Shared vocabulary of the development.  A Go function that returns \<open>(T, error)\<close> is a function
  into \<open>'e + 'a\<close>: \<open>Inl\<close> carries the error, \<open>Inr\<close> the value.  A Go \<open>string\<close> is a byte sequence,
  and so is HOL's \<open>string\<close> (its \<open>char\<close> is an 8-bit value), so \<open>length\<close> is Go's \<open>len\<close>.
  A Go pointer that may be \<open>nil\<close> is an \<open>option\<close>; a Go slice is a list (nil and the empty
  slice are both the empty list: no code in the repository tells them apart but the JSON encoder).
\<close>

type_synonym ('e, 'a) result = "'e + 'a"

definition is_ok :: "('e, 'a) result \<Rightarrow> bool" where
  "is_ok r \<longleftrightarrow> (case r of Inl _ \<Rightarrow> False | Inr _ \<Rightarrow> True)"

lemma is_ok_simps [simp]: "is_ok (Inr x)" "\<not> is_ok (Inl e)"
  by (simp_all add: is_ok_def)

lemma ok_pair: "fst p = Inr x \<Longrightarrow> p = (Inr x, snd p)"
  by (cases p) simp

subsection \<open>Lists keyed by a column\<close>

lemma distinct_map_filter: "distinct (map f xs) \<Longrightarrow> distinct (map f (filter P xs))"
  by (induction xs) auto

lemma distinct_key_eq:
  "distinct (map f xs) \<Longrightarrow> x \<in> set xs \<Longrightarrow> y \<in> set xs \<Longrightarrow> f x = f y \<Longrightarrow> x = y"
  by (metis distinct_map inj_onD)

lemma map_key_update:
  assumes "\<And>x. f (g x) = f x"
  shows "map f (map (\<lambda>x. if P x then g x else x) xs) = map f xs"
  by (induction xs) (auto simp: assms)

lemma set_map_if: "set (map (\<lambda>x. if P x then g x else x) xs) =
    g ` {x \<in> set xs. P x} \<union> {x \<in> set xs. \<not> P x}"
  by (induction xs) auto

lemma image_without:
  "y \<in> f ` S \<Longrightarrow> y \<notin> f ` {x \<in> S. P x} \<Longrightarrow> y \<in> f ` {x \<in> S. \<not> P x}"
  by blast

lemma find_Some_distinct:
  assumes "distinct (map f xs)" and "x \<in> set xs"
  shows "find (\<lambda>y. f y = f x) xs = Some x"
  using assms
proof (induction xs)
  case (Cons a xs)
  then show ?case by (cases "x = a") (auto simp: image_iff)
qed simp

lemma find_set: "find P xs = Some x \<Longrightarrow> x \<in> set xs \<and> P x"
  by (metis find_Some_iff nth_mem)

lemma find_None: "find P xs = None \<longleftrightarrow> (\<forall>x \<in> set xs. \<not> P x)"
  by (auto simp: find_None_iff)

lemma length_filter_eq_card:
  "distinct xs \<Longrightarrow> length (filter P xs) = card {x \<in> set xs. P x}"
  by (metis distinct_card distinct_filter set_filter)

end
