(* ===== verification/Model.thy ===== *)
theory Model
  imports Complex_Main Prelude
begin

text \<open>
  The data of \<open>internal/model/model.go\<close>, one record per Go struct; the fields carry the struct's
  initials as a prefix.  An instant (\<open>time.Time\<close>) is an integer number of nanoseconds since the
  Unix epoch, a Go \<open>int\<close> is an \<open>int\<close> (the places where 64-bit wrap-around or float rounding
  matters are written out in the functions), a \<open>float64\<close> is the rational number it denotes.
  A Go map that a handler ranges over is the list of its entries in the order of that run.
\<close>

type_synonym instant = int

subsection \<open>Stored entities\<close>

record Project =
  prj_id :: int
  prj_name :: string
  prj_retention_days :: int
  prj_created_at :: instant

record ProjectToken =
  tok_id :: int
  tok_project_id :: int
  tok_token :: string
  tok_label :: string
  tok_active :: bool
  tok_allowed_origins :: "string list"
  tok_created_at :: instant
  tok_disabled_at :: "instant option"

record ConsoleUser =
  cu_id :: int
  cu_username :: string
  cu_email :: "string option"
  cu_password_hash :: string
  cu_role :: string
  cu_totp_secret :: "string option"
  cu_totp_enabled :: bool
  cu_created_at :: instant

record AppUser =
  au_id :: int
  au_project_id :: int
  au_anonymous_id :: string
  au_created_at :: instant

record Device =
  dev_id :: string
  dev_project_id :: int
  dev_user_id :: "int option"
  dev_platform :: string
  dev_os_version :: string
  dev_app_version :: string
  dev_locale :: string
  dev_first_seen_at :: instant
  dev_last_seen_at :: instant

record Event =
  ev_id :: string
  ev_project_id :: int
  ev_device_id :: string
  ev_user_id :: "int option"
  ev_name :: string
  ev_timestamp :: string
  ev_ip_address :: string
  ev_country :: string
  ev_city :: string
  ev_created_at :: instant

record EventProperty =
  ep_id :: int
  ep_event_id :: string
  ep_key :: string
  ep_value_type :: string
  ep_value_string :: "string option"
  ep_value_int :: "int option"
  ep_value_float :: "rat option"
  ep_value_bool :: "bool option"
  ep_value_datetime :: "instant option"

subsection \<open>Requests of the tracking API\<close>

text \<open>What \<open>encoding/json\<close> puts into an \<open>interface{}\<close>.\<close>

datatype json_value =
    JNull
  | JBool bool
  | JNumber rat
  | JString string
  | JArray "json_value list"
  | JObject "(string \<times> json_value) list"

record TrackPropertyValue =
  tpv_type :: string
  tpv_value :: json_value

record TrackEventRequest =
  ter_id :: string
  ter_name :: string
  ter_timestamp :: string
  ter_properties :: "(string \<times> TrackPropertyValue) list"

record TrackRequest =
  tr_device_id :: string
  tr_user_id :: "int option"
  tr_events :: "TrackEventRequest list"

record DeviceRequest =
  dr_device_id :: string
  dr_platform :: string
  dr_os_version :: string
  dr_app_version :: string
  dr_locale :: string

record IdentifyRequest =
  ir_device_id :: string
  ir_anonymous_id :: string

subsection \<open>Analytics answers\<close>

record EventCount =
  ec_name :: string
  ec_count :: nat

record CountryCount =
  cc_country :: string
  cc_count :: nat

record AnalyticsOverview =
  ao_active_devices :: nat
  ao_total_events :: nat
  ao_top_events :: "EventCount list"
  ao_top_countries :: "CountryCount list"

record TimeSeriesPoint =
  tsp_timestamp :: string
  tsp_count :: nat

record EventsAnalytics =
  ea_events :: "EventCount list"
  ea_time_series :: "TimeSeriesPoint list"

text \<open>What \<open>database/sql\<close> puts into an \<open>interface{}\<close> it scans a column into.\<close>

datatype sql_value =
    SqlNull
  | SqlText string
  | SqlInt int
  | SqlReal rat
  | SqlBool bool
  | SqlTime instant

record PropertyValue =
  pv_value :: sql_value
  pv_count :: nat

record PropertyBreakdown =
  pb_key :: string
  pb_type :: string
  pb_values :: "PropertyValue list"

record PropertyAnalytics =
  pa_properties :: "PropertyBreakdown list"

record PlatformCount =
  pc_platform :: string
  pc_count :: nat

record DevicesAnalytics =
  da_platforms :: "PlatformCount list"

record CityCount =
  cty_city :: string
  cty_country :: string
  cty_count :: nat

record GeoAnalytics =
  ga_countries :: "CountryCount list"
  ga_cities :: "CityCount list"

record UsersAnalytics =
  ua_time_series :: "TimeSeriesPoint list"
  ua_total :: nat

record RetentionCohort =
  rc_period :: string
  rc_users :: nat
  rc_retention :: "rat list"

record RetentionAnalytics =
  ra_cohorts :: "RetentionCohort list"

subsection \<open>Requests and answers of the console API\<close>

record LoginRequest =
  lr_login :: string
  lr_password :: string
  lr_totp_code :: string

record LoginResponse =
  lo_token :: string
  lo_user :: "ConsoleUser option"
  lo_totp_required :: bool

record PasswordChangeRequest =
  pcr_current_password :: string
  pcr_new_password :: string

record TOTPSetupResponse =
  tsr_secret :: string
  tsr_uri :: string

record TOTPEnableRequest =
  toe_code :: string
  toe_password :: string

record TOTPDisableRequest =
  tod_password :: string

record CreateProjectRequest =
  cpr_name :: string

record UpdateProjectRequest =
  upr_name :: "string option"
  upr_retention_days :: "int option"

record CreateTokenRequest =
  ctr_label :: string
  ctr_allowed_origins :: "string list"

record UpdateTokenRequest =
  utr_label :: "string option"
  utr_allowed_origins :: "string list option"

record CreateUserRequest =
  cur_username :: string
  cur_email :: "string option"
  cur_password :: string
  cur_role :: string

record UpdateUserRequest =
  uur_username :: "string option"
  uur_email :: "string option"
  uur_role :: "string option"

record HealthResponse =
  hr_status :: string
  hr_database :: string
  hr_geoip :: string
  hr_version :: string

end
