(* ===== verification/Go_Strings.thy ===== *)
theory Go_Strings
  imports Prelude
begin

text \<open>
  The functions of Go's \<open>strings\<close> and \<open>strconv\<close> packages that the repository calls, on byte
  strings: \<open>HasPrefix\<close>, \<open>HasSuffix\<close>, \<open>TrimPrefix\<close>, \<open>Index\<close>, \<open>LastIndex\<close>, \<open>Contains\<close>,
  \<open>Split\<close>, \<open>SplitN\<close>, \<open>Join\<close>, \<open>Replace\<close>, \<open>TrimSpace\<close>, \<open>ToLower\<close>, \<open>Atoi\<close>.  An index result
  of -1 is \<open>None\<close>.  \<open>TrimSpace\<close> knows the UTF-8 encodings of every rune for which
  \<open>unicode.IsSpace\<close> holds.
\<close>

subsection \<open>Prefixes, suffixes, search\<close>

definition has_prefix :: "string \<Rightarrow> string \<Rightarrow> bool" where
  "has_prefix s p \<longleftrightarrow> take (length p) s = p"

definition has_suffix :: "string \<Rightarrow> string \<Rightarrow> bool" where
  "has_suffix s p \<longleftrightarrow> has_prefix (rev s) (rev p)"

definition trim_prefix :: "string \<Rightarrow> string \<Rightarrow> string" where
  "trim_prefix s p = (if has_prefix s p then drop (length p) s else s)"

fun str_index :: "string \<Rightarrow> string \<Rightarrow> nat option" where
  "str_index [] sub = (if sub = [] then Some 0 else None)"
| "str_index (c # cs) sub =
     (if has_prefix (c # cs) sub then Some 0 else map_option Suc (str_index cs sub))"

definition contains :: "string \<Rightarrow> string \<Rightarrow> bool" where
  "contains s sub \<longleftrightarrow> str_index s sub \<noteq> None"

text \<open>\<open>LastIndex\<close> for a one-byte separator.\<close>

fun last_index_byte :: "string \<Rightarrow> char \<Rightarrow> nat option" where
  "last_index_byte [] c = None"
| "last_index_byte (x # xs) c =
     (case last_index_byte xs c of
        Some i \<Rightarrow> Some (Suc i)
      | None \<Rightarrow> (if x = c then Some 0 else None))"

text \<open>\<open>Replace(s, old, new, 1)\<close>.\<close>

definition replace_first :: "string \<Rightarrow> string \<Rightarrow> string \<Rightarrow> string" where
  "replace_first s old new =
     (case str_index s old of
        None \<Rightarrow> s
      | Some i \<Rightarrow> take i s @ new @ drop (i + length old) s)"

lemma has_prefix_append [simp]: "has_prefix (p @ s) p"
  by (simp add: has_prefix_def)

lemma has_prefix_iff: "has_prefix s p \<longleftrightarrow> (\<exists>r. s = p @ r)"
  by (metis append_eq_conv_conj append_take_drop_id has_prefix_def)

lemma has_prefix_Nil [simp]: "has_prefix s []"
  by (simp add: has_prefix_def)

lemma has_prefix_Cons [simp]:
  "has_prefix (c # s) (d # p) \<longleftrightarrow> c = d \<and> has_prefix s p"
  "has_prefix [] (d # p) \<longleftrightarrow> False"
  by (auto simp: has_prefix_def)

lemma has_suffix_iff: "has_suffix s p \<longleftrightarrow> (\<exists>r. s = r @ p)"
proof
  assume "has_suffix s p"
  then obtain r where "rev s = rev p @ r"
    by (auto simp: has_suffix_def has_prefix_iff)
  then have "s = rev r @ p" by (metis rev_append rev_rev_ident)
  then show "\<exists>r. s = r @ p" ..
qed (auto simp: has_suffix_def)

lemma trim_prefix_append [simp]: "trim_prefix (p @ s) p = s"
  by (simp add: trim_prefix_def)

lemma str_index_Some:
  "str_index s sub = Some i \<Longrightarrow> i \<le> length s \<and> has_prefix (drop i s) sub"
  by (induction s sub arbitrary: i rule: str_index.induct) (auto split: if_splits)

lemma str_index_split:
  assumes "str_index s sub = Some i"
  shows "s = take i s @ sub @ drop (i + length sub) s"
proof -
  from str_index_Some [OF assms] obtain r where r: "drop i s = sub @ r"
    by (auto simp: has_prefix_iff)
  then have "drop (i + length sub) s = r"
    by (metis add.commute append_eq_conv_conj drop_drop)
  with r show ?thesis by (metis append_take_drop_id)
qed

lemma str_index_None: "str_index s sub = None \<longleftrightarrow> (\<forall>a b. s \<noteq> a @ sub @ b)"
proof (induction s sub rule: str_index.induct)
  case (2 c cs sub)
  show ?case
  proof (cases "has_prefix (c # cs) sub")
    case True
    then obtain r where "c # cs = [] @ sub @ r" by (auto simp: has_prefix_iff)
    with True show ?thesis by (metis option.distinct(1) str_index.simps(2))
  next
    case False
    have "(\<exists>a b. c # cs = a @ sub @ b) \<longleftrightarrow> (\<exists>a b. cs = a @ sub @ b)"
    proof
      assume "\<exists>a b. c # cs = a @ sub @ b"
      then obtain a b where ab: "c # cs = a @ sub @ b" by blast
      with False have "a \<noteq> []" by (auto simp: has_prefix_iff)
      with ab show "\<exists>a b. cs = a @ sub @ b" by (cases a) auto
    qed (metis append_Cons)
    with False 2 show ?thesis by auto
  qed
qed simp

lemma replace_first_subset: "set (replace_first s old new) \<subseteq> set s \<union> set new"
  by (auto simp: replace_first_def split: option.splits dest: in_set_takeD in_set_dropD)

lemma contains_iff: "contains s sub \<longleftrightarrow> (\<exists>a b. s = a @ sub @ b)"
  by (simp add: contains_def str_index_None)

lemma last_index_byte_None: "last_index_byte s c = None \<longleftrightarrow> c \<notin> set s"
  by (induction s) (auto split: option.splits)

lemma last_index_byte_Some:
  "last_index_byte s c = Some i \<Longrightarrow> s = take i s @ c # drop (Suc i) s \<and> c \<notin> set (drop (Suc i) s)"
proof (induction s arbitrary: i)
  case (Cons x xs)
  show ?case
  proof (cases "last_index_byte xs c")
    case None
    with Cons.prems show ?thesis by (auto simp: last_index_byte_None split: if_splits)
  next
    case (Some j)
    with Cons.prems Cons.IH [OF Some] show ?thesis by auto
  qed
qed simp

lemma last_index_byte_bound: "last_index_byte s c = Some i \<Longrightarrow> i < length s"
  by (induction s arbitrary: i) (auto split: option.splits if_splits)

subsection \<open>Splitting and joining on one byte\<close>

fun split_on :: "char \<Rightarrow> string \<Rightarrow> string list" where
  "split_on c [] = [[]]"
| "split_on c (x # xs) =
     (if x = c then [] # split_on c xs
      else (case split_on c xs of [] \<Rightarrow> [[x]] | y # ys \<Rightarrow> (x # y) # ys))"

fun join_with :: "char \<Rightarrow> string list \<Rightarrow> string" where
  "join_with c [] = []"
| "join_with c [s] = s"
| "join_with c (s # ss) = s @ c # join_with c ss"

text \<open>\<open>SplitN(s, sep, 2)\<close> for a one-byte separator.\<close>

definition splitn2 :: "char \<Rightarrow> string \<Rightarrow> string list" where
  "splitn2 c s =
     (case str_index s [c] of None \<Rightarrow> [s] | Some i \<Rightarrow> [take i s, drop (Suc i) s])"

lemma split_on_nonempty [simp]: "split_on c s \<noteq> []"
  by (induction s) (auto split: list.splits)

lemma split_on_id: "c \<notin> set s \<Longrightarrow> split_on c s = [s]"
  by (induction s) auto

lemma split_on_append: "c \<notin> set s \<Longrightarrow> split_on c (s @ c # t) = s # split_on c t"
  by (induction s) auto

lemma split_on_join:
  "ss \<noteq> [] \<Longrightarrow> \<forall>s \<in> set ss. c \<notin> set s \<Longrightarrow> split_on c (join_with c ss) = ss"
proof (induction c ss rule: join_with.induct)
  case (3 c s v va)
  then show ?case using split_on_append [of c s] by simp
qed (auto simp: split_on_id)

lemma join_split_on: "join_with c (split_on c s) = s"
proof (induction s)
  case (Cons x xs)
  then show ?case
    by (cases "split_on c xs"; cases "tl (split_on c xs)") auto
qed simp

lemma split_on_no_sep: "t \<in> set (split_on c s) \<Longrightarrow> c \<notin> set t"
  by (induction s arbitrary: t) (auto split: if_splits list.splits)

lemma join_with_eq_Nil: "join_with c ss = [] \<longleftrightarrow> ss = [] \<or> ss = [[]]"
  by (cases "(c, ss)" rule: join_with.cases) auto

subsection \<open>TrimSpace\<close>

text \<open>The UTF-8 encodings of the runes with \<open>unicode.IsSpace\<close>.\<close>

definition space_seqs :: "string list" where
  "space_seqs =
     [[CHR 0x09], [CHR 0x0A], [CHR 0x0B], [CHR 0x0C], [CHR 0x0D], [CHR 0x20],
      [CHR 0xC2, CHR 0x85], [CHR 0xC2, CHR 0xA0], [CHR 0xE1, CHR 0x9A, CHR 0x80],
      [CHR 0xE2, CHR 0x80, CHR 0x80], [CHR 0xE2, CHR 0x80, CHR 0x81],
      [CHR 0xE2, CHR 0x80, CHR 0x82], [CHR 0xE2, CHR 0x80, CHR 0x83],
      [CHR 0xE2, CHR 0x80, CHR 0x84], [CHR 0xE2, CHR 0x80, CHR 0x85],
      [CHR 0xE2, CHR 0x80, CHR 0x86], [CHR 0xE2, CHR 0x80, CHR 0x87],
      [CHR 0xE2, CHR 0x80, CHR 0x88], [CHR 0xE2, CHR 0x80, CHR 0x89],
      [CHR 0xE2, CHR 0x80, CHR 0x8A], [CHR 0xE2, CHR 0x80, CHR 0xA8],
      [CHR 0xE2, CHR 0x80, CHR 0xA9], [CHR 0xE2, CHR 0x80, CHR 0xAF],
      [CHR 0xE2, CHR 0x81, CHR 0x9F], [CHR 0xE3, CHR 0x80, CHR 0x80]]"

text \<open>Drop, as long as possible, any of the given byte sequences from the front.\<close>

function strip_seqs :: "string list \<Rightarrow> string \<Rightarrow> string" where
  "strip_seqs ps s =
     (case find (\<lambda>p. p \<noteq> [] \<and> has_prefix s p) ps of
        None \<Rightarrow> s
      | Some p \<Rightarrow> strip_seqs ps (drop (length p) s))"
  by pat_completeness auto
termination
proof (relation "measure (\<lambda>(ps, s). length s)")
  fix ps :: "string list" and s p :: string
  assume "find (\<lambda>p. p \<noteq> [] \<and> has_prefix s p) ps = Some p"
  then have "p \<noteq> []" and "has_prefix s p" by (auto dest: find_set)
  then show "((ps, drop (length p) s), ps, s) \<in> measure (\<lambda>(ps, s). length s)"
    by (auto simp: has_prefix_iff)
qed simp

declare strip_seqs.simps [simp del]

definition trim_left :: "string \<Rightarrow> string" where
  "trim_left s = strip_seqs space_seqs s"

definition trim_right :: "string \<Rightarrow> string" where
  "trim_right s = rev (strip_seqs (map rev space_seqs) (rev s))"

definition trim_space :: "string \<Rightarrow> string" where
  "trim_space s = trim_right (trim_left s)"

lemma strip_seqs_suffix: "\<exists>a. s = a @ strip_seqs ps s"
proof (induction ps s rule: strip_seqs.induct)
  case (1 ps s)
  show ?case
  proof (cases "find (\<lambda>p. p \<noteq> [] \<and> has_prefix s p) ps")
    case None
    then show ?thesis by (subst strip_seqs.simps) simp
  next
    case (Some p)
    with 1 obtain a where a: "drop (length p) s = a @ strip_seqs ps (drop (length p) s)" by blast
    have "s = (take (length p) s @ a) @ strip_seqs ps s"
      using a Some by (subst strip_seqs.simps) (metis append.assoc append_take_drop_id option.simps(5))
    then show ?thesis by blast
  qed
qed

lemma strip_seqs_stripped:
  "p \<in> set ps \<Longrightarrow> p \<noteq> [] \<Longrightarrow> \<not> has_prefix (strip_seqs ps s) p"
proof (induction ps s rule: strip_seqs.induct)
  case (1 ps s)
  show ?case
  proof (cases "find (\<lambda>p. p \<noteq> [] \<and> has_prefix s p) ps")
    case None
    then have "strip_seqs ps s = s" by (subst strip_seqs.simps) simp
    with None 1 show ?thesis by (auto simp: find_None)
  next
    case (Some q)
    with 1 show ?thesis by (subst strip_seqs.simps) simp
  qed
qed

lemma strip_seqs_id:
  "(\<And>p. p \<in> set ps \<Longrightarrow> p \<noteq> [] \<Longrightarrow> \<not> has_prefix s p) \<Longrightarrow> strip_seqs ps s = s"
  by (subst strip_seqs.simps) (auto simp: find_None split: option.splits dest!: find_set)

lemma trim_right_prefix: "\<exists>b. s = trim_right s @ b"
  using strip_seqs_suffix [of "rev s" "map rev space_seqs"]
  unfolding trim_right_def by (metis rev_append rev_rev_ident)

lemma trim_right_idem [simp]: "trim_right (trim_right s) = trim_right s"
  unfolding trim_right_def
  by (subst strip_seqs_id) (simp_all add: strip_seqs_stripped)

lemma trim_left_trim_space [simp]: "trim_left (trim_space s) = trim_space s"
  unfolding trim_left_def
proof (rule strip_seqs_id)
  fix p assume p: "p \<in> set space_seqs" "p \<noteq> []"
  from trim_right_prefix obtain b where b: "trim_left s = trim_space s @ b"
    unfolding trim_space_def by blast
  show "\<not> has_prefix (trim_space s) p"
  proof
    assume "has_prefix (trim_space s) p"
    with b have "has_prefix (trim_left s) p" by (auto simp: has_prefix_iff)
    with strip_seqs_stripped [OF p] show False by (simp add: trim_left_def)
  qed
qed

lemma trim_space_idem [simp]: "trim_space (trim_space s) = trim_space s"
proof -
  have "trim_right (trim_space s) = trim_space s" by (simp add: trim_space_def)
  then show ?thesis by (metis trim_left_trim_space trim_space_def)
qed

lemma trim_space_infix: "\<exists>a b. s = a @ trim_space s @ b"
proof -
  obtain a where a: "s = a @ trim_left s"
    using strip_seqs_suffix [of s space_seqs] by (auto simp: trim_left_def)
  obtain b where "trim_left s = trim_space s @ b"
    using trim_right_prefix [of "trim_left s"] by (auto simp: trim_space_def)
  with a show ?thesis by metis
qed

lemma trim_space_subset: "set (trim_space s) \<subseteq> set s"
  by (metis Un_iff set_append subsetI trim_space_infix)

text \<open>A byte is plain when no space sequence starts or ends with it: printable ASCII.\<close>

definition plain_byte :: "char \<Rightarrow> bool" where
  "plain_byte c \<longleftrightarrow> 0x21 \<le> (of_char c :: nat) \<and> (of_char c :: nat) < 0x7F"

lemma space_seqs_not_plain:
  "\<forall>p \<in> set space_seqs. p \<noteq> [] \<and> \<not> plain_byte (hd p) \<and> \<not> plain_byte (last p)"
  by (simp add: space_seqs_def plain_byte_def)

lemma trim_space_plain:
  assumes "s \<noteq> [] \<Longrightarrow> plain_byte (hd s) \<and> plain_byte (last s)"
  shows "trim_space s = s"
proof -
  have "trim_left s = s"
    unfolding trim_left_def
  proof (rule strip_seqs_id)
    fix p assume "p \<in> set space_seqs" "p \<noteq> []"
    with assms space_seqs_not_plain show "\<not> has_prefix s p"
      by (cases p; cases s) auto
  qed
  moreover have "trim_right s = s"
  proof -
    have "strip_seqs (map rev space_seqs) (rev s) = rev s"
    proof (rule strip_seqs_id)
      fix p assume p: "p \<in> set (map rev space_seqs)" "p \<noteq> []"
      then obtain q where q: "q \<in> set space_seqs" "p = rev q" by auto
      show "\<not> has_prefix (rev s) p"
      proof
        assume "has_prefix (rev s) p"
        with q p have "s \<noteq> []" and "last s = last q"
          by (cases q rule: rev_cases; cases s rule: rev_cases; simp)+
        with assms space_seqs_not_plain q show False by auto
      qed
    qed
    then show ?thesis by (simp add: trim_right_def)
  qed
  ultimately show ?thesis by (simp add: trim_space_def)
qed

subsection \<open>ToLower and Atoi\<close>

definition byte :: "char \<Rightarrow> nat" where
  "byte c = of_char c"

definition ascii_lower :: "char \<Rightarrow> char" where
  "ascii_lower c = (if 65 \<le> byte c \<and> byte c \<le> 90 then char_of (byte c + 32) else c)"

text \<open>
  \<open>strings.ToLower\<close>: bytewise on ASCII strings; any other string goes through the Unicode tables
  of the runtime, the parameter \<open>utf8_lower\<close>.
\<close>

definition to_lower :: "(string \<Rightarrow> string) \<Rightarrow> string \<Rightarrow> string" where
  "to_lower utf8_lower s =
     (if list_all (\<lambda>c. byte c < 128) s then map ascii_lower s else utf8_lower s)"

definition is_digit :: "char \<Rightarrow> bool" where
  "is_digit c \<longleftrightarrow> 48 \<le> byte c \<and> byte c \<le> 57"

definition dec_value :: "string \<Rightarrow> int" where
  "dec_value ds = foldl (\<lambda>n c. n * 10 + (int (byte c) - 48)) 0 ds"

text \<open>\<open>strconv.Atoi\<close> on a 64-bit platform: an optional sign, digits, and the range of \<open>int64\<close>.\<close>

definition atoi :: "string \<Rightarrow> int option" where
  "atoi s =
     (let neg = has_prefix s ''-'';
          ds = (if has_prefix s ''-'' \<or> has_prefix s ''+'' then tl s else s);
          v = (if neg then - dec_value ds else dec_value ds)
      in if ds = [] \<or> \<not> list_all is_digit ds then None
         else if v < - (2 ^ 63) \<or> 2 ^ 63 \<le> v then None
         else Some v)"

lemma atoi_range: "atoi s = Some n \<Longrightarrow> - (2 ^ 63) \<le> n \<and> n < 2 ^ 63"
  by (simp add: atoi_def Let_def split: if_splits)

lemma atoi_empty [simp]: "atoi [] = None"
  by (simp add: atoi_def)

text \<open>What \<open>strconv.Atoi\<close> returns beside an error: zero for bad syntax, the nearest bound when out of range.\<close>

definition atoi_value :: "string \<Rightarrow> int" where
  "atoi_value s =
     (case atoi s of
        Some v \<Rightarrow> v
      | None \<Rightarrow>
          (let ds = (if has_prefix s ''-'' \<or> has_prefix s ''+'' then tl s else s)
           in if ds = [] \<or> \<not> list_all is_digit ds then 0
              else if has_prefix s ''-'' then - (2 ^ 63) else 2 ^ 63 - 1))"

end
