(* ===== verification/Float64.thy ===== *)
theory Float64
  imports Complex_Main "HOL-Library.Log_Nat" Prelude
begin

text \<open>
  Go's \<open>float64\<close> as the rational numbers it holds: an operation computes the exact rational result
  and rounds it to the nearest multiple of the unit in the last place, ties to the even multiple
  (53 bits of precision, least exponent -1074).  The lemmas give monotonicity and the error bound that
  the rate limiter and the JSON numbers need.
\<close>

subsection \<open>The binary exponent of a positive rational\<close>

definition ilog2 :: "rat \<Rightarrow> int" where
  "ilog2 x = (case quotient_of x of (n, d) \<Rightarrow>
     let k = bitlen n - bitlen d in if 2 powi k \<le> x then k else k - 1)"

lemma bitlen_powi: "0 < n \<Longrightarrow> (2 :: rat) powi (bitlen n - 1) \<le> of_int n \<and> of_int n < (2 :: rat) powi (bitlen n)"
proof -
  assume n: "0 < n"
  have b: "1 \<le> bitlen n" using n bitlen_nonneg [of n] bitlen_eq_zero_iff [of n] by linarith
  have "2 ^ nat (bitlen n - 1) \<le> n" "n < 2 ^ nat (bitlen n)" using bitlen_bounds [OF n] by simp_all
  then have "(of_int (2 ^ nat (bitlen n - 1)) :: rat) \<le> of_int n" "(of_int n :: rat) < of_int (2 ^ nat (bitlen n))"
    by (simp_all only: of_int_le_iff of_int_less_iff)
  then show ?thesis using b by (simp add: power_int_def)
qed

lemma ilog2_bounds:
  assumes "0 < x"
  shows "2 powi (ilog2 x) \<le> x" and "x < 2 powi (ilog2 x + 1)"
proof -
  obtain n d where q: "quotient_of x = (n, d)" by (cases "quotient_of x")
  have d: "0 < d" using quotient_of_denom_pos [OF q] .
  have x: "x = of_int n / of_int d" using quotient_of_div [OF q] .
  have n: "0 < n" using assms d by (simp add: x zero_less_divide_iff)
  let ?k = "bitlen n - bitlen d"
  have up: "x < 2 powi (?k + 1)"
  proof -
    have "(of_int n :: rat) < 2 powi (bitlen n)" "(2 :: rat) powi (bitlen d - 1) \<le> of_int d"
      using bitlen_powi n d by blast+
    then have "x < 2 powi (bitlen n) / 2 powi (bitlen d - 1)"
      unfolding x by (intro frac_less) (use n in auto)
    also have "\<dots> = 2 powi (?k + 1)" by (simp add: power_int_diff [symmetric] algebra_simps)
    finally show ?thesis .
  qed
  have lo: "2 powi (?k - 1) \<le> x"
  proof -
    have a: "(2 :: rat) powi (bitlen n - 1) \<le> of_int n" "(of_int d :: rat) < 2 powi (bitlen d)"
      using bitlen_powi n d by blast+
    have "(2 :: rat) powi (?k - 1) = 2 powi (bitlen n - 1) / 2 powi (bitlen d)"
      by (simp add: power_int_diff [symmetric] algebra_simps)
    also have "\<dots> \<le> x" unfolding x using a d n by (intro frac_le) auto
    finally show ?thesis .
  qed
  show "2 powi (ilog2 x) \<le> x" "x < 2 powi (ilog2 x + 1)"
    using up lo by (auto simp: ilog2_def q Let_def)
qed

subsection \<open>Rounding\<close>

definition round_even :: "rat \<Rightarrow> int" where
  "round_even x = (let f = \<lfloor>x\<rfloor>; r = x - of_int f in
     if r < 1 / 2 then f else if 1 / 2 < r then f + 1 else if even f then f else f + 1)"

lemma round_even_cases: "round_even x = \<lfloor>x\<rfloor> \<or> round_even x = \<lfloor>x\<rfloor> + 1"
  by (simp add: round_even_def Let_def)

lemma round_even_of_int [simp]: "round_even (of_int n) = n"
  by (simp add: round_even_def)

lemma round_even_error: "\<bar>of_int (round_even x) - x\<bar> \<le> 1 / 2"
proof -
  have "of_int \<lfloor>x\<rfloor> \<le> x" "x < of_int \<lfloor>x\<rfloor> + 1" by linarith+
  then show ?thesis by (auto simp: round_even_def Let_def)
qed

lemma round_even_mono:
  assumes "x \<le> y"
  shows "round_even x \<le> round_even y"
proof (cases "\<lfloor>x\<rfloor> = \<lfloor>y\<rfloor>")
  case True
  with assms show ?thesis by (auto simp: round_even_def Let_def)
next
  case False
  then have "\<lfloor>x\<rfloor> + 1 \<le> \<lfloor>y\<rfloor>" using floor_mono [OF assms] by linarith
  then show ?thesis using round_even_cases [of x] round_even_cases [of y] by linarith
qed

text \<open>The exponent of the unit in the last place, and the nearest double (disregarding overflow).\<close>

definition ulp_exp :: "rat \<Rightarrow> int" where
  "ulp_exp x = max (ilog2 x - 52) (- 1074)"

definition round64_pos :: "rat \<Rightarrow> rat" where
  "round64_pos x = of_int (round_even (x / 2 powi (ulp_exp x))) * 2 powi (ulp_exp x)"

definition round64 :: "rat \<Rightarrow> rat" where
  "round64 x = (if x = 0 then 0 else if 0 < x then round64_pos x else - round64_pos (- x))"

lemma round64_0 [simp]: "round64 0 = 0"
  by (simp add: round64_def)

lemma round64_pos_error:
  "\<bar>round64_pos x - x\<bar> \<le> 2 powi (ulp_exp x) / 2"
proof -
  have "round64_pos x - x = (of_int (round_even (x / 2 powi (ulp_exp x))) - x / 2 powi (ulp_exp x)) * 2 powi (ulp_exp x)"
    by (simp add: round64_pos_def field_simps)
  then have "\<bar>round64_pos x - x\<bar> =
      \<bar>of_int (round_even (x / 2 powi (ulp_exp x))) - x / 2 powi (ulp_exp x)\<bar> * 2 powi (ulp_exp x)"
    by (simp add: abs_mult)
  also have "\<dots> \<le> 1 / 2 * 2 powi (ulp_exp x)"
    by (rule mult_right_mono [OF round_even_error]) simp
  finally show ?thesis by simp
qed

lemma round64_pos_nonneg: "0 < x \<Longrightarrow> 0 \<le> round64_pos x"
proof -
  assume "0 < x"
  then have "round_even (of_int 0) \<le> round_even (x / 2 powi (ulp_exp x))" by (intro round_even_mono) simp
  then have "0 \<le> round_even (x / 2 powi (ulp_exp x))" by (simp only: round_even_of_int)
  then show ?thesis by (simp add: round64_pos_def)
qed

lemma round64_nonneg: "0 \<le> x \<Longrightarrow> 0 \<le> round64 x"
  by (simp add: round64_def round64_pos_nonneg)

text \<open>Relative error of half a unit of the 53-bit significand, above the subnormal range.\<close>

lemma round64_error:
  assumes "2 powi (- 1022) \<le> x"
  shows "\<bar>round64 x - x\<bar> \<le> x / 2 ^ 53"
proof -
  have pos: "0 < x" using assms by (rule less_le_trans [rotated]) simp
  have "(2 :: rat) powi (- 1022) < 2 powi (ilog2 x + 1)" using assms ilog2_bounds(2) [OF pos] by (rule le_less_trans)
  then have "- 1022 < ilog2 x + 1"
    by (metis linorder_not_less power_int_increasing one_le_numeral)
  then have u: "ulp_exp x = ilog2 x - 52" by (simp add: ulp_exp_def)
  have "(2 :: rat) powi (ulp_exp x) / 2 = 2 powi (ilog2 x) / 2 ^ 53"
    by (simp add: u power_int_diff field_simps)
  also have "\<dots> \<le> x / 2 ^ 53" by (rule divide_right_mono [OF ilog2_bounds(1) [OF pos]]) simp
  finally show ?thesis using round64_pos_error [of x] pos by (simp add: round64_def)
qed

subsection \<open>Monotonicity\<close>

lemma ilog2_mono:
  assumes "0 < x" "x \<le> y"
  shows "ilog2 x \<le> ilog2 y"
proof -
  have "(2 :: rat) powi (ilog2 x) < 2 powi (ilog2 y + 1)"
    using ilog2_bounds [OF assms(1)] ilog2_bounds [of y] assms by linarith
  then have "ilog2 x < ilog2 y + 1"
    by (metis linorder_not_less power_int_increasing one_le_numeral)
  then show ?thesis by simp
qed

text \<open>Powers of two at or above the unit of the last place are not crossed by rounding.\<close>

lemma round64_pos_le_power:
  assumes "0 < x" "x \<le> 2 powi e" "ulp_exp x \<le> e"
  shows "round64_pos x \<le> 2 powi e"
proof -
  let ?u = "ulp_exp x"
  have p: "(2 :: rat) powi (e - ?u) = of_int (2 ^ nat (e - ?u))" using assms(3) by (simp add: power_int_def)
  have "x / 2 powi ?u \<le> 2 powi (e - ?u)" using assms(2) by (simp add: power_int_diff divide_right_mono)
  then have "round_even (x / 2 powi ?u) \<le> round_even (of_int (2 ^ nat (e - ?u)))"
    unfolding p by (rule round_even_mono)
  then have "(of_int (round_even (x / 2 powi ?u)) :: rat) \<le> of_int (2 ^ nat (e - ?u))"
    by (simp only: round_even_of_int of_int_le_iff)
  then have "round64_pos x \<le> of_int (2 ^ nat (e - ?u)) * 2 powi ?u"
    unfolding round64_pos_def by (rule mult_right_mono) simp
  also have "\<dots> = 2 powi (e - ?u) * 2 powi ?u" by (simp only: p)
  also have "\<dots> = 2 powi e" by (simp add: power_int_diff)
  finally show ?thesis .
qed

lemma round64_pos_ge_power:
  assumes "0 < x" "2 powi e \<le> x" "ulp_exp x \<le> e"
  shows "2 powi e \<le> round64_pos x"
proof -
  let ?u = "ulp_exp x"
  have p: "(2 :: rat) powi (e - ?u) = of_int (2 ^ nat (e - ?u))" using assms(3) by (simp add: power_int_def)
  have "2 powi (e - ?u) \<le> x / 2 powi ?u" using assms(2) by (simp add: power_int_diff divide_right_mono)
  then have "round_even (of_int (2 ^ nat (e - ?u))) \<le> round_even (x / 2 powi ?u)"
    unfolding p by (rule round_even_mono)
  then have "(of_int (2 ^ nat (e - ?u)) :: rat) \<le> of_int (round_even (x / 2 powi ?u))"
    by (simp only: round_even_of_int of_int_le_iff)
  then have "of_int (2 ^ nat (e - ?u)) * 2 powi ?u \<le> round64_pos x"
    unfolding round64_pos_def by (rule mult_right_mono) simp
  moreover have "of_int (2 ^ nat (e - ?u)) * 2 powi ?u = (2 :: rat) powi (e - ?u) * 2 powi ?u" by (simp only: p)
  moreover have "\<dots> = 2 powi e" by (simp add: power_int_diff)
  ultimately show ?thesis by simp
qed

lemma round64_pos_mono:
  assumes "0 < x" "x \<le> y"
  shows "round64_pos x \<le> round64_pos y"
proof (cases "ulp_exp x = ulp_exp y")
  case True
  have "round_even (x / 2 powi (ulp_exp y)) \<le> round_even (y / 2 powi (ulp_exp y))"
    using assms by (intro round_even_mono divide_right_mono) simp_all
  then show ?thesis unfolding round64_pos_def True by (intro mult_right_mono) simp_all
next
  case False
  then have lt: "ilog2 x < ilog2 y" and e: "- 1074 < ilog2 y - 52"
    using ilog2_mono [OF assms] by (auto simp: ulp_exp_def max_def split: if_splits)
  have y: "0 < y" using assms by simp
  have "x \<le> 2 powi (ilog2 y)"
  proof -
    have "x < 2 powi (ilog2 x + 1)" using ilog2_bounds(2) [OF assms(1)] .
    also have "\<dots> \<le> 2 powi (ilog2 y)" using lt by (intro power_int_increasing) simp_all
    finally show ?thesis by simp
  qed
  then have "round64_pos x \<le> 2 powi (ilog2 y)"
    using lt e by (intro round64_pos_le_power assms) (simp_all add: ulp_exp_def)
  also have "\<dots> \<le> round64_pos y"
    using e by (intro round64_pos_ge_power y ilog2_bounds(1)) (simp_all add: ulp_exp_def)
  finally show ?thesis .
qed

lemma round64_mono: "0 \<le> x \<Longrightarrow> x \<le> y \<Longrightarrow> round64 x \<le> round64 y"
  using round64_pos_mono [of x y] round64_nonneg [of y] by (auto simp: round64_def)

subsection \<open>Constants and conversions\<close>

lemma round64_1 [simp]: "round64 1 = 1"
  by code_simp

text \<open>Go's conversion of a \<open>float64\<close> to an integer type drops the fraction.\<close>

definition trunc64 :: "rat \<Rightarrow> int" where
  "trunc64 x = (if 0 \<le> x then \<lfloor>x\<rfloor> else \<lceil>x\<rceil>)"

end
