(* ===== verification/Json.thy ===== *)
theory Json
  imports Model Go_Strings Float64
begin

text \<open>
  What \<open>json.NewDecoder(r.Body).Decode(&req)\<close> (\<open>decodeJSON\<close> of \<open>internal/handler/handler.go\<close>) does
  with the first JSON value of a body: the rules by which \<open>encoding/json\<close> stores a value into the
  request structs of \<open>model.go\<close>.  The lexical level, from bytes to the tree, is the parameter
  \<open>rt_json\<close> of \<open>Http\<close>; numbers keep their literal, because an \<open>int\<close> field and an \<open>interface{}\<close>
  read it differently.  An error of the decoder is \<open>None\<close>: the handlers reject the request whatever
  fields were filled before.
\<close>

datatype json_tree =
    TNull
  | TBool bool
  | TNumber string
  | TString string
  | TArray "json_tree list"
  | TObject "(string \<times> json_tree) list"

subsection \<open>Numbers\<close>

text \<open>
  The exact value of a JSON number literal, and the \<open>float64\<close> it is stored as; from \<open>2 ^ 1024\<close> on the
  literal is out of range.
\<close>

definition number_value :: "string \<Rightarrow> rat" where
  "number_value lit =
     (let neg = has_prefix lit ''-'';
          s = trim_prefix lit ''-'';
          ip = takeWhile is_digit s;
          r1 = dropWhile is_digit s;
          fp = (if has_prefix r1 ''.'' then takeWhile is_digit (tl r1) else '''');
          r2 = (if has_prefix r1 ''.'' then dropWhile is_digit (tl r1) else r1);
          e = (if r2 = '''' then 0 else
                 let t = tl r2; ds = (if has_prefix t ''-'' \<or> has_prefix t ''+'' then tl t else t)
                 in if has_prefix t ''-'' then - dec_value ds else dec_value ds);
          v = of_int (dec_value (ip @ fp)) * 10 powi (e - int (length fp))
      in if neg then - v else v)"

definition parse_float :: "string \<Rightarrow> rat option" where
  "parse_float lit =
     (let v = round64 (number_value lit) in if v \<noteq> 0 \<and> 1024 \<le> ilog2 \<bar>v\<bar> then None else Some v)"

subsection \<open>Storing a value\<close>

fun put_entry :: "string \<Rightarrow> 'v \<Rightarrow> (string \<times> 'v) list \<Rightarrow> (string \<times> 'v) list" where
  "put_entry k v [] = [(k, v)]"
| "put_entry k v ((k', v') # m) = (if k' = k then (k, v) # m else (k', v') # put_entry k v m)"

fun put_entries :: "(string \<times> 'v) list \<Rightarrow> (string \<times> 'v) list \<Rightarrow> (string \<times> 'v) list" where
  "put_entries m [] = m"
| "put_entries m ((k, v) # kvs) = put_entries (put_entry k v m) kvs"

fun traverse :: "('a \<Rightarrow> 'b option) \<Rightarrow> 'a list \<Rightarrow> 'b list option" where
  "traverse f [] = Some []"
| "traverse f (x # xs) =
     (case f x of None \<Rightarrow> None | Some y \<Rightarrow> map_option (Cons y) (traverse f xs))"

lemma traverse_cong [fundef_cong]:
  "xs = ys \<Longrightarrow> (\<And>x. x \<in> set ys \<Longrightarrow> f x = g x) \<Longrightarrow> traverse f xs = traverse g ys"
  by (induction ys arbitrary: xs) (auto split: option.split)

text \<open>Into an \<open>interface{}\<close>.\<close>

function into_any :: "json_tree \<Rightarrow> json_value option" where
  "into_any TNull = Some JNull"
| "into_any (TBool b) = Some (JBool b)"
| "into_any (TNumber lit) = map_option JNumber (parse_float lit)"
| "into_any (TString s) = Some (JString s)"
| "into_any (TArray ts) = map_option JArray (traverse into_any ts)"
| "into_any (TObject kvs) = map_option (\<lambda>vs. JObject (put_entries [] (zip (map fst kvs) vs)))
     (traverse (\<lambda>kv. into_any (snd kv)) kvs)"
  by pat_completeness auto

termination
proof (relation "measure size")
  fix kvs :: "(string \<times> json_tree) list" and x
  assume x: "x \<in> set kvs"
  have "size (snd x) \<le> size_prod (\<lambda>_. 0) size x" by (cases x) simp
  also have "\<dots> \<le> size_list (size_prod (\<lambda>_. 0) size) kvs"
    using x by (induction kvs) auto
  finally show "(snd x, TObject kvs) \<in> measure size" by simp
next
  fix ts :: "json_tree list" and x
  assume "x \<in> set ts"
  then have "size x \<le> size_list size ts" by (induction ts) auto
  then show "(x, TArray ts) \<in> measure size" by simp
qed simp

text \<open>Into a \<open>string\<close>, a \<open>*int\<close>, a slice, a \<open>map[string]T\<close>: null leaves a string as it is.\<close>

definition into_string :: "string \<Rightarrow> json_tree \<Rightarrow> string option" where
  "into_string old t = (case t of TNull \<Rightarrow> Some old | TString s \<Rightarrow> Some s | _ \<Rightarrow> None)"

definition into_int_ptr :: "json_tree \<Rightarrow> int option option" where
  "into_int_ptr t = (case t of TNull \<Rightarrow> Some None | TNumber lit \<Rightarrow> map_option Some (atoi lit) | _ \<Rightarrow> None)"

definition into_slice :: "(json_tree \<Rightarrow> 'a option) \<Rightarrow> json_tree \<Rightarrow> 'a list option" where
  "into_slice elem t = (case t of TNull \<Rightarrow> Some [] | TArray ts \<Rightarrow> traverse elem ts | _ \<Rightarrow> None)"

definition into_map ::
  "(json_tree \<Rightarrow> 'v option) \<Rightarrow> (string \<times> 'v) list \<Rightarrow> json_tree \<Rightarrow> (string \<times> 'v) list option" where
  "into_map elem old t =
     (case t of
        TNull \<Rightarrow> Some []
      | TObject kvs \<Rightarrow> map_option (\<lambda>vs. put_entries old (zip (map fst kvs) vs))
          (traverse (\<lambda>kv. elem (snd kv)) kvs)
      | _ \<Rightarrow> None)"

text \<open>
  Into a struct: each key of the object, in order, goes to the field whose name it folds to; other
  keys are skipped.  Folding lowers ASCII letters and identifies the long s and the Kelvin sign with
  s and k.
\<close>

fun fold_name :: "string \<Rightarrow> string" where
  "fold_name [] = []"
| "fold_name (c # s) =
     (if byte c = 0xC5 \<and> map byte (take 1 s) = [0xBF] then CHR ''s'' # fold_name (drop 1 s)
      else if byte c = 0xE2 \<and> map byte (take 2 s) = [0x84, 0xAA] then CHR ''k'' # fold_name (drop 2 s)
      else ascii_lower c # fold_name s)"

type_synonym 'r fields = "(string \<times> ('r \<Rightarrow> json_tree \<Rightarrow> 'r option)) list"

fun decode_fields :: "'r fields \<Rightarrow> 'r \<Rightarrow> (string \<times> json_tree) list \<Rightarrow> 'r option" where
  "decode_fields fs r [] = Some r"
| "decode_fields fs r ((k, t) # kvs) =
     (case map_of fs (fold_name k) of
        None \<Rightarrow> decode_fields fs r kvs
      | Some store \<Rightarrow> (case store r t of None \<Rightarrow> None | Some r' \<Rightarrow> decode_fields fs r' kvs))"

definition into_struct :: "'r fields \<Rightarrow> 'r \<Rightarrow> json_tree \<Rightarrow> 'r option" where
  "into_struct fs r t =
     (case t of TNull \<Rightarrow> Some r | TObject kvs \<Rightarrow> decode_fields fs r kvs | _ \<Rightarrow> None)"

subsection \<open>The requests of the tracking API\<close>

definition property_fields :: "TrackPropertyValue fields" where
  "property_fields =
     [(''type'', \<lambda>r t. map_option (\<lambda>v. r\<lparr>tpv_type := v\<rparr>) (into_string (tpv_type r) t)),
      (''value'', \<lambda>r t. map_option (\<lambda>v. r\<lparr>tpv_value := v\<rparr>) (into_any t))]"

definition event_fields :: "TrackEventRequest fields" where
  "event_fields =
     [(''id'', \<lambda>r t. map_option (\<lambda>v. r\<lparr>ter_id := v\<rparr>) (into_string (ter_id r) t)),
      (''name'', \<lambda>r t. map_option (\<lambda>v. r\<lparr>ter_name := v\<rparr>) (into_string (ter_name r) t)),
      (''timestamp'', \<lambda>r t. map_option (\<lambda>v. r\<lparr>ter_timestamp := v\<rparr>) (into_string (ter_timestamp r) t)),
      (''properties'', \<lambda>r t. map_option (\<lambda>v. r\<lparr>ter_properties := v\<rparr>)
         (into_map (into_struct property_fields \<lparr>tpv_type = '''', tpv_value = JNull\<rparr>) (ter_properties r) t))]"

definition track_fields :: "TrackRequest fields" where
  "track_fields =
     [(''device_id'', \<lambda>r t. map_option (\<lambda>v. r\<lparr>tr_device_id := v\<rparr>) (into_string (tr_device_id r) t)),
      (''user_id'', \<lambda>r t. map_option (\<lambda>v. r\<lparr>tr_user_id := v\<rparr>) (into_int_ptr t)),
      (''events'', \<lambda>r t. map_option (\<lambda>v. r\<lparr>tr_events := v\<rparr>)
         (into_slice (into_struct event_fields
            \<lparr>ter_id = '''', ter_name = '''', ter_timestamp = '''', ter_properties = []\<rparr>) t))]"

definition decode_track :: "json_tree \<Rightarrow> TrackRequest option" where
  "decode_track = into_struct track_fields \<lparr>tr_device_id = '''', tr_user_id = None, tr_events = []\<rparr>"

definition device_fields :: "DeviceRequest fields" where
  "device_fields =
     [(''device_id'', \<lambda>r t. map_option (\<lambda>v. r\<lparr>dr_device_id := v\<rparr>) (into_string (dr_device_id r) t)),
      (''platform'', \<lambda>r t. map_option (\<lambda>v. r\<lparr>dr_platform := v\<rparr>) (into_string (dr_platform r) t)),
      (''os_version'', \<lambda>r t. map_option (\<lambda>v. r\<lparr>dr_os_version := v\<rparr>) (into_string (dr_os_version r) t)),
      (''app_version'', \<lambda>r t. map_option (\<lambda>v. r\<lparr>dr_app_version := v\<rparr>) (into_string (dr_app_version r) t)),
      (''locale'', \<lambda>r t. map_option (\<lambda>v. r\<lparr>dr_locale := v\<rparr>) (into_string (dr_locale r) t))]"

definition decode_device :: "json_tree \<Rightarrow> DeviceRequest option" where
  "decode_device = into_struct device_fields
     \<lparr>dr_device_id = '''', dr_platform = '''', dr_os_version = '''', dr_app_version = '''', dr_locale = ''''\<rparr>"

definition identify_fields :: "IdentifyRequest fields" where
  "identify_fields =
     [(''device_id'', \<lambda>r t. map_option (\<lambda>v. r\<lparr>ir_device_id := v\<rparr>) (into_string (ir_device_id r) t)),
      (''anonymous_id'', \<lambda>r t. map_option (\<lambda>v. r\<lparr>ir_anonymous_id := v\<rparr>) (into_string (ir_anonymous_id r) t))]"

definition decode_identify :: "json_tree \<Rightarrow> IdentifyRequest option" where
  "decode_identify = into_struct identify_fields \<lparr>ir_device_id = '''', ir_anonymous_id = ''''\<rparr>"

subsection \<open>The requests of the console API\<close>

text \<open>Into a \<open>*string\<close>, a \<open>*[]string\<close> and a \<open>[]string\<close>; a field \<open>upd\<close> of the struct.\<close>

definition into_string_ptr :: "json_tree \<Rightarrow> string option option" where
  "into_string_ptr t = (case t of TNull \<Rightarrow> Some None | TString s \<Rightarrow> Some (Some s) | _ \<Rightarrow> None)"

definition into_strings :: "json_tree \<Rightarrow> string list option" where
  "into_strings = into_slice (into_string '''')"

definition into_strings_ptr :: "json_tree \<Rightarrow> string list option option" where
  "into_strings_ptr t = (case t of TNull \<Rightarrow> Some None | _ \<Rightarrow> map_option Some (into_strings t))"

definition string_field :: "string \<Rightarrow> ('r \<Rightarrow> string) \<Rightarrow> (string \<Rightarrow> 'r \<Rightarrow> 'r) \<Rightarrow>
    string \<times> ('r \<Rightarrow> json_tree \<Rightarrow> 'r option)" where
  "string_field name sel upd = (name, \<lambda>r t. map_option (\<lambda>v. upd v r) (into_string (sel r) t))"

definition value_field :: "string \<Rightarrow> (json_tree \<Rightarrow> 'v option) \<Rightarrow> ('v \<Rightarrow> 'r \<Rightarrow> 'r) \<Rightarrow>
    string \<times> ('r \<Rightarrow> json_tree \<Rightarrow> 'r option)" where
  "value_field name into upd = (name, \<lambda>r t. map_option (\<lambda>v. upd v r) (into t))"

definition decode_login :: "json_tree \<Rightarrow> LoginRequest option" where
  "decode_login = into_struct
     [string_field ''login'' lr_login (\<lambda>v r. r\<lparr>lr_login := v\<rparr>),
      string_field ''password'' lr_password (\<lambda>v r. r\<lparr>lr_password := v\<rparr>),
      string_field ''totp_code'' lr_totp_code (\<lambda>v r. r\<lparr>lr_totp_code := v\<rparr>)]
     \<lparr>lr_login = '''', lr_password = '''', lr_totp_code = ''''\<rparr>"

definition decode_password_change :: "json_tree \<Rightarrow> PasswordChangeRequest option" where
  "decode_password_change = into_struct
     [string_field ''current_password'' pcr_current_password (\<lambda>v r. r\<lparr>pcr_current_password := v\<rparr>),
      string_field ''new_password'' pcr_new_password (\<lambda>v r. r\<lparr>pcr_new_password := v\<rparr>)]
     \<lparr>pcr_current_password = '''', pcr_new_password = ''''\<rparr>"

definition decode_totp_enable :: "json_tree \<Rightarrow> TOTPEnableRequest option" where
  "decode_totp_enable = into_struct
     [string_field ''code'' toe_code (\<lambda>v r. r\<lparr>toe_code := v\<rparr>),
      string_field ''password'' toe_password (\<lambda>v r. r\<lparr>toe_password := v\<rparr>)]
     \<lparr>toe_code = '''', toe_password = ''''\<rparr>"

definition decode_totp_disable :: "json_tree \<Rightarrow> TOTPDisableRequest option" where
  "decode_totp_disable = into_struct
     [string_field ''password'' tod_password (\<lambda>v r. r\<lparr>tod_password := v\<rparr>)] \<lparr>tod_password = ''''\<rparr>"

definition decode_create_project :: "json_tree \<Rightarrow> CreateProjectRequest option" where
  "decode_create_project = into_struct
     [string_field ''name'' cpr_name (\<lambda>v r. r\<lparr>cpr_name := v\<rparr>)] \<lparr>cpr_name = ''''\<rparr>"

definition decode_update_project :: "json_tree \<Rightarrow> UpdateProjectRequest option" where
  "decode_update_project = into_struct
     [value_field ''name'' into_string_ptr (\<lambda>v r. r\<lparr>upr_name := v\<rparr>),
      value_field ''retention_days'' into_int_ptr (\<lambda>v r. r\<lparr>upr_retention_days := v\<rparr>)]
     \<lparr>upr_name = None, upr_retention_days = None\<rparr>"

definition decode_create_token :: "json_tree \<Rightarrow> CreateTokenRequest option" where
  "decode_create_token = into_struct
     [string_field ''label'' ctr_label (\<lambda>v r. r\<lparr>ctr_label := v\<rparr>),
      value_field ''allowed_origins'' into_strings (\<lambda>v r. r\<lparr>ctr_allowed_origins := v\<rparr>)]
     \<lparr>ctr_label = '''', ctr_allowed_origins = []\<rparr>"

definition decode_update_token :: "json_tree \<Rightarrow> UpdateTokenRequest option" where
  "decode_update_token = into_struct
     [value_field ''label'' into_string_ptr (\<lambda>v r. r\<lparr>utr_label := v\<rparr>),
      value_field ''allowed_origins'' into_strings_ptr (\<lambda>v r. r\<lparr>utr_allowed_origins := v\<rparr>)]
     \<lparr>utr_label = None, utr_allowed_origins = None\<rparr>"

definition decode_create_user :: "json_tree \<Rightarrow> CreateUserRequest option" where
  "decode_create_user = into_struct
     [string_field ''username'' cur_username (\<lambda>v r. r\<lparr>cur_username := v\<rparr>),
      value_field ''email'' into_string_ptr (\<lambda>v r. r\<lparr>cur_email := v\<rparr>),
      string_field ''password'' cur_password (\<lambda>v r. r\<lparr>cur_password := v\<rparr>),
      string_field ''role'' cur_role (\<lambda>v r. r\<lparr>cur_role := v\<rparr>)]
     \<lparr>cur_username = '''', cur_email = None, cur_password = '''', cur_role = ''''\<rparr>"

definition decode_update_user :: "json_tree \<Rightarrow> UpdateUserRequest option" where
  "decode_update_user = into_struct
     [value_field ''username'' into_string_ptr (\<lambda>v r. r\<lparr>uur_username := v\<rparr>),
      value_field ''email'' into_string_ptr (\<lambda>v r. r\<lparr>uur_email := v\<rparr>),
      value_field ''role'' into_string_ptr (\<lambda>v r. r\<lparr>uur_role := v\<rparr>)]
     \<lparr>uur_username = None, uur_email = None, uur_role = None\<rparr>"

end
