(* ===== verification/Geoip.thy ===== *)
theory Geoip
  imports Json
begin

text \<open>
  \<open>internal/geoip/resolver.go\<close>.  The MaxMind reader is third-party code: its lookup is the parameter
  \<open>db\<close>, from an address to an error or the data record found (\<open>None\<close>: no record); the way the reader
  fills a struct by its field tags is modelled, because the tags are the repository's.  \<open>parse_ip\<close> is
  \<open>net.ParseIP\<close>.
\<close>

datatype mm_value =
    MM_String string
  | MM_Map "(string \<times> mm_value) list"
  | MM_Other

record Location =
  loc_country :: string
  loc_city :: string

record geoRecord =
  gr_country_names :: "(string \<times> string) list"
  gr_city_names :: "(string \<times> string) list"

text \<open>A map of strings; a value of another type is the reader's type error.\<close>

definition mm_string_map :: "mm_value \<Rightarrow> (string \<times> string) list option" where
  "mm_string_map v =
     (case v of
        MM_Map kvs \<Rightarrow> map_option (zip (map fst kvs))
          (traverse (\<lambda>kv. case snd kv of MM_String s \<Rightarrow> Some s | _ \<Rightarrow> None) kvs)
      | _ \<Rightarrow> None)"

text \<open>The field \<open>inner\<close> of the struct field \<open>outer\<close>: what the record does not have stays empty.\<close>

definition mm_names :: "string \<Rightarrow> string \<Rightarrow> (string \<times> mm_value) list \<Rightarrow> (string \<times> string) list option" where
  "mm_names outer inner kvs =
     (case map_of kvs outer of
        None \<Rightarrow> Some []
      | Some (MM_Map fs) \<Rightarrow> (case map_of fs inner of None \<Rightarrow> Some [] | Some v \<Rightarrow> mm_string_map v)
      | Some _ \<Rightarrow> None)"

definition decode_geo :: "mm_value \<Rightarrow> geoRecord option" where
  "decode_geo v =
     (case v of
        MM_Map kvs \<Rightarrow>
          (case (mm_names ''country'' ''names'' kvs, mm_names ''city'' ''city'' kvs) of
             (Some c, Some t) \<Rightarrow> Some \<lparr>gr_country_names = c, gr_city_names = t\<rparr>
           | _ \<Rightarrow> None)
      | _ \<Rightarrow> None)"

definition map_get :: "(string \<times> string) list \<Rightarrow> string \<Rightarrow> string" where
  "map_get m k = (case map_of m k of None \<Rightarrow> '''' | Some v \<Rightarrow> v)"

definition geo_lookup ::
  "(string \<Rightarrow> 'ip option) \<Rightarrow> ('ip \<Rightarrow> unit + mm_value option) \<Rightarrow> string \<Rightarrow> Location" where
  "geo_lookup parse_ip db ipStr =
     (case parse_ip ipStr of
        None \<Rightarrow> \<lparr>loc_country = '''', loc_city = ''''\<rparr>
      | Some ip \<Rightarrow>
          (case db ip of
             Inl _ \<Rightarrow> \<lparr>loc_country = '''', loc_city = ''''\<rparr>
           | Inr None \<Rightarrow> \<lparr>loc_country = '''', loc_city = ''''\<rparr>
           | Inr (Some v) \<Rightarrow>
               (case decode_geo v of
                  None \<Rightarrow> \<lparr>loc_country = '''', loc_city = ''''\<rparr>
                | Some r \<Rightarrow> \<lparr>loc_country = map_get (gr_country_names r) ''en'',
                              loc_city = map_get (gr_city_names r) ''en''\<rparr>)))"

text \<open>A record as the City databases hold it: names by language under country and city.\<close>

definition city_record :: "(string \<times> string) list \<Rightarrow> (string \<times> string) list \<Rightarrow> mm_value" where
  "city_record country city =
     MM_Map [(''city'', MM_Map [(''geoname_id'', MM_Other), (''names'', MM_Map (map (map_prod id MM_String) city))]),
             (''country'', MM_Map [(''iso_code'', MM_Other), (''names'', MM_Map (map (map_prod id MM_String) country))])]"

lemma mm_string_map_strings: "mm_string_map (MM_Map (map (map_prod id MM_String) m)) = Some m"
proof -
  have "traverse (\<lambda>kv. case snd kv of MM_String s \<Rightarrow> Some s | _ \<Rightarrow> None) (map (map_prod id MM_String) m)
      = Some (map snd m)"
    by (induction m) auto
  then show ?thesis by (simp add: mm_string_map_def comp_def zip_map_fst_snd)
qed



end
