(* ===== verification/Database.thy ===== *)
theory Database
  imports Model "HOL-Library.List_Lexorder" "HOL-Library.Char_ord"
begin

text \<open>
  The relational state behind the stores: the tables of
  \<open>internal/storage/migrations/sqlite/001_initial.sql\<close> as lists of rows, with the constraints the
  schema declares as the invariant \<open>db_ok\<close>.  Where a column and the Go field differ (nullable text,
  the encoded origins) the table has a row record of its own.

  What the program does not decide about the engine is part of the state, indexed by the number of
  statements executed so far (\<open>db_tick\<close>): whether a statement fails in the driver (\<open>db_fault\<close>), the
  clock, and the order in which a scan delivers rows (\<open>db_plan\<close>, any permutation).  Theorems therefore
  hold for every choice of failing statements and every row order SQL allows.  Timestamps are
  compared as instants; the text format a driver binds them in is not modelled.
\<close>

subsection \<open>Row orders\<close>

typedef scan_plan = "{p :: nat \<Rightarrow> nat list. \<forall>n. mset (p n) = mset [0..<n]}"
  by (rule exI [of _ "\<lambda>n. [0..<n]"]) simp

setup_lifting type_definition_scan_plan

lift_definition reorder :: "scan_plan \<Rightarrow> 'a list \<Rightarrow> 'a list" is
  "\<lambda>p xs. map (nth xs) (p (length xs))" .

lift_definition rowid_plan :: scan_plan is "\<lambda>n. [0..<n]" by simp

lift_definition reverse_plan :: scan_plan is "\<lambda>n. rev [0..<n]" by simp

lemma reorder_rowid [simp]: "reorder rowid_plan xs = xs"
  by transfer (rule map_nth)

lemma reorder_reverse [simp]: "reorder reverse_plan xs = rev xs"
  by transfer (metis map_nth rev_map)

lemma mset_reorder [simp]: "mset (reorder p xs) = mset xs"
proof (transfer fixing: xs)
  fix p :: "nat \<Rightarrow> nat list"
  assume "\<forall>n. mset (p n) = mset [0..<n]"
  then have "image_mset (nth xs) (mset (p (length xs))) = image_mset (nth xs) (mset [0..<length xs])"
    by simp
  then show "mset (map (nth xs) (p (length xs))) = mset xs"
    by (metis map_nth mset_map)
qed

lemma set_reorder [simp]: "set (reorder p xs) = set xs"
  by (metis mset_reorder set_mset_mset)

lemma length_reorder [simp]: "length (reorder p xs) = length xs"
  by (metis mset_reorder size_mset)

lemma reorder_Nil [simp]: "reorder p [] = []"
  by (metis length_0_conv length_reorder)

lemma reorder_eq_Nil [simp]: "reorder p xs = [] \<longleftrightarrow> xs = []"
  by (metis length_0_conv length_reorder)

lemma reorder_single [simp]: "reorder p [x] = [x]"
  by (metis length_reorder mset_reorder mset_single_iff_right mset.simps)

subsection \<open>Tables\<close>

record TokenRow =
  tk_id :: int
  tk_project_id :: int
  tk_token :: string
  tk_label :: string
  tk_active :: bool
  tk_allowed_origins :: string
  tk_created_at :: instant
  tk_disabled_at :: "instant option"

record DeviceRow =
  d_id :: string
  d_project_id :: int
  d_user_id :: "int option"
  d_platform :: string
  d_os_version :: "string option"
  d_app_version :: "string option"
  d_locale :: "string option"
  d_first_seen_at :: instant
  d_last_seen_at :: instant

record EventRow =
  e_id :: string
  e_project_id :: int
  e_device_id :: string
  e_user_id :: "int option"
  e_name :: string
  e_timestamp :: string
  e_ip_address :: "string option"
  e_country :: "string option"
  e_city :: "string option"
  e_created_at :: instant

record db =
  db_tick :: nat
  db_fault :: "nat \<Rightarrow> bool"
  db_clock :: "nat \<Rightarrow> instant"
  db_plan :: "nat \<Rightarrow> scan_plan"
  db_strftime :: "string \<Rightarrow> instant \<Rightarrow> string"
  projects :: "Project list"
  project_tokens :: "TokenRow list"
  console_users :: "ConsoleUser list"
  app_users :: "AppUser list"
  devices :: "DeviceRow list"
  events :: "EventRow list"
  event_properties :: "EventProperty list"

datatype store_error = ErrNoRows | ErrConstraint | ErrDriver

type_synonym ('a, 's) op = "'s \<Rightarrow> (store_error, 'a) result \<times> 's"

subsection \<open>Statements\<close>

text \<open>
  A statement either fails in the driver without effect or runs; either way the next statement sees
  the next tick.  A statement that violates a constraint has no effect.
\<close>

definition tick_db :: "db \<Rightarrow> db" where
  "tick_db d = d\<lparr>db_tick := Suc (db_tick d)\<rparr>"

definition run_stmt :: "('a, db) op \<Rightarrow> ('a, db) op" where
  "run_stmt f d =
     (if db_fault d (db_tick d) then (Inl ErrDriver, tick_db d)
      else (case f d of (r, d') \<Rightarrow> (r, tick_db d')))"

definition query :: "(db \<Rightarrow> (store_error, 'a) result) \<Rightarrow> ('a, db) op" where
  "query q = run_stmt (\<lambda>d. (q d, d))"

definition scan :: "db \<Rightarrow> 'a list \<Rightarrow> 'a list" where
  "scan d rows = reorder (db_plan d (db_tick d)) rows"

text \<open>\<open>CURRENT_TIMESTAMP\<close> of SQLite has a resolution of one second.\<close>

definition sqlite_now :: "db \<Rightarrow> instant" where
  "sqlite_now d = (db_clock d (db_tick d) div 1000000000) * 1000000000"

text \<open>\<open>QueryRowContext(...).Scan(...)\<close>: the first row of the result, or \<open>sql.ErrNoRows\<close>.\<close>

definition query_row :: "'a list \<Rightarrow> (store_error, 'a) result" where
  "query_row rows = (case rows of [] \<Rightarrow> Inl ErrNoRows | r # _ \<Rightarrow> Inr r)"

text \<open>The id SQLite gives a new row of a table with an \<open>INTEGER PRIMARY KEY\<close>: one past the largest.\<close>

definition next_id :: "int list \<Rightarrow> int" where
  "next_id ids = foldr max ids 0 + 1"

lemma scan_simps [simp]:
  "mset (scan d xs) = mset xs" "set (scan d xs) = set xs" "length (scan d xs) = length xs"
  "scan d [] = []" "scan d xs = [] \<longleftrightarrow> xs = []" "scan d [x] = [x]"
  by (simp_all add: scan_def)

lemma query_row_simps [simp]: "query_row [] = Inl ErrNoRows" "query_row (x # xs) = Inr x"
  by (simp_all add: query_row_def)

lemma query_row_Inr: "query_row rows = Inr r \<Longrightarrow> r \<in> set rows"
  by (auto simp: query_row_def split: list.splits)

lemma query_row_NoRows: "query_row rows = Inl e \<longleftrightarrow> rows = [] \<and> e = ErrNoRows"
  by (auto simp: query_row_def split: list.splits)

lemma foldr_max_ge: "x \<in> set xs \<Longrightarrow> (x :: int) \<le> foldr max xs 0"
  by (induction xs) auto

lemma foldr_max_nonneg: "(0 :: int) \<le> foldr max xs 0"
  by (induction xs) auto

lemma next_id_fresh: "x \<in> set ids \<Longrightarrow> x < next_id ids"
  using foldr_max_ge [of x ids] by (simp add: next_id_def)

lemma next_id_notin [simp]: "next_id ids \<notin> set ids"
  using next_id_fresh by blast

lemma next_id_pos [simp]: "0 < next_id ids"
  using foldr_max_nonneg [of ids] by (simp add: next_id_def)

lemma tick_db_simps [simp]:
  "db_tick (tick_db d) = Suc (db_tick d)" "db_fault (tick_db d) = db_fault d"
  "db_clock (tick_db d) = db_clock d" "db_plan (tick_db d) = db_plan d"
  "db_strftime (tick_db d) = db_strftime d"
  "projects (tick_db d) = projects d" "project_tokens (tick_db d) = project_tokens d"
  "console_users (tick_db d) = console_users d" "app_users (tick_db d) = app_users d"
  "devices (tick_db d) = devices d" "events (tick_db d) = events d"
  "event_properties (tick_db d) = event_properties d"
  by (simp_all add: tick_db_def)

text \<open>Invariant rule for statements: what the body keeps, the statement keeps.\<close>

lemma run_stmt_inv:
  assumes "run_stmt f d = (r, d')" and "P d" and "\<And>d. P d \<Longrightarrow> P (tick_db d)"
    and "\<And>r' d''. f d = (r', d'') \<Longrightarrow> P d''"
  shows "P d'"
  using assms by (auto simp: run_stmt_def split: if_splits prod.splits)

lemma run_stmt_Inr:
  "run_stmt f d = (Inr x, d') \<longleftrightarrow>
    \<not> db_fault d (db_tick d) \<and> (\<exists>d''. f d = (Inr x, d'') \<and> d' = tick_db d'')"
  by (auto simp: run_stmt_def split: prod.splits)

lemma query_state: "snd (query q d) = tick_db d"
  by (simp add: query_def run_stmt_def)

lemma query_run: "query q d = (if db_fault d (db_tick d) then Inl ErrDriver else q d, tick_db d)"
  by (simp add: query_def run_stmt_def)

lemma query_Inr: "query q d = (Inr x, d') \<longleftrightarrow> \<not> db_fault d (db_tick d) \<and> q d = Inr x \<and> d' = tick_db d"
  by (auto simp: query_def run_stmt_Inr)

lemma query_Pair: "query q d = (r, d') \<Longrightarrow> d' = tick_db d"
  by (metis query_state snd_conv)

subsection \<open>The declared constraints\<close>

definition roles :: "string list" where
  "roles = [''admin'', ''manager'', ''viewer'']"

definition value_types :: "string list" where
  "value_types = [''string'', ''int'', ''float'', ''bool'', ''datetime'']"

definition emails :: "ConsoleUser list \<Rightarrow> string list" where
  "emails us = List.map_filter cu_email us"

definition user_ref_ok :: "db \<Rightarrow> int option \<Rightarrow> bool" where
  "user_ref_ok d u \<longleftrightarrow> (case u of None \<Rightarrow> True | Some i \<Rightarrow> i \<in> au_id ` set (app_users d))"

definition keys_ok :: "db \<Rightarrow> bool" where
  "keys_ok d \<longleftrightarrow>
     distinct (map prj_id (projects d)) \<and>
     distinct (map tk_id (project_tokens d)) \<and> distinct (map tk_token (project_tokens d)) \<and>
     distinct (map cu_id (console_users d)) \<and> distinct (map cu_username (console_users d)) \<and>
     distinct (emails (console_users d)) \<and>
     distinct (map au_id (app_users d)) \<and>
     distinct (map (\<lambda>u. (au_project_id u, au_anonymous_id u)) (app_users d)) \<and>
     distinct (map d_id (devices d)) \<and> distinct (map e_id (events d)) \<and>
     distinct (map ep_id (event_properties d))"

definition refs_ok :: "db \<Rightarrow> bool" where
  "refs_ok d \<longleftrightarrow>
     tk_project_id ` set (project_tokens d) \<subseteq> prj_id ` set (projects d) \<and>
     au_project_id ` set (app_users d) \<subseteq> prj_id ` set (projects d) \<and>
     d_project_id ` set (devices d) \<subseteq> prj_id ` set (projects d) \<and>
     (\<forall>x \<in> set (devices d). user_ref_ok d (d_user_id x)) \<and>
     e_project_id ` set (events d) \<subseteq> prj_id ` set (projects d) \<and>
     e_device_id ` set (events d) \<subseteq> d_id ` set (devices d) \<and>
     (\<forall>x \<in> set (events d). user_ref_ok d (e_user_id x)) \<and>
     ep_event_id ` set (event_properties d) \<subseteq> e_id ` set (events d)"

definition checks_ok :: "db \<Rightarrow> bool" where
  "checks_ok d \<longleftrightarrow>
     (\<forall>u \<in> set (console_users d). cu_role u \<in> set roles) \<and>
     (\<forall>p \<in> set (event_properties d). ep_value_type p \<in> set value_types)"

definition db_ok :: "db \<Rightarrow> bool" where
  "db_ok d \<longleftrightarrow> keys_ok d \<and> refs_ok d \<and> checks_ok d"

lemma user_ref_ok_tick [simp]: "user_ref_ok (tick_db d) u = user_ref_ok d u"
  by (simp add: user_ref_ok_def split: option.split)

lemma db_ok_tick [simp]: "db_ok (tick_db d) \<longleftrightarrow> db_ok d"
  by (simp add: db_ok_def keys_ok_def refs_ok_def checks_ok_def)

lemma run_stmt_ok:
  assumes "run_stmt f d = (r, d')" and "db_ok d" and "\<And>r' d''. f d = (r', d'') \<Longrightarrow> db_ok d''"
  shows "db_ok d'"
  by (rule run_stmt_inv [where P = db_ok, OF assms(1,2)]) (simp_all add: assms(3))

lemma query_ok: "query q d = (r, d') \<Longrightarrow> db_ok d \<Longrightarrow> db_ok d'"
  by (auto dest: query_Pair)

end
