(* ===== verification/Http.thy ===== *)
theory Http
  imports Json Database
begin

text \<open>
  What the program uses of \<open>net/http\<close>: requests, the response writer, handlers.  A handler is a
  function of the request, the writer and the server's state.  A response body is the Go value passed
  to \<open>json.Encoder.Encode\<close>.  The values the code keeps in the request context (\<open>ProjectIDKey\<close>,
  \<open>ClaimsKey\<close>) are optional fields of the request.
\<close>

subsection \<open>What the run provides\<close>

text \<open>
  The lexical JSON reader, \<open>time.Parse(time.RFC3339, _)\<close>, Go's implementation-defined \<open>int64(f)\<close> of
  an \<open>f\<close> out of range, the order in which a \<open>range\<close> visits a map, the offset of the local time zone
  from UTC at an instant, the reader of IP literals in URLs, and the quoting of \<open>fmt\<close>'s verb \<open>q\<close>.
\<close>

record runtime =
  rt_json :: "string \<Rightarrow> json_tree option"
  rt_rfc3339 :: "string \<Rightarrow> instant option"
  rt_int64 :: "rat \<Rightarrow> int"
  rt_map_order :: scan_plan
  rt_zone :: "instant \<Rightarrow> int"
  rt_ip_literal :: "string \<Rightarrow> string option"
  rt_quote :: "string \<Rightarrow> string"

text \<open>A runtime for the examples, whose reader delivers a given tree.\<close>

definition sample_runtime :: "json_tree \<Rightarrow> runtime" where
  "sample_runtime t = \<lparr>rt_json = (\<lambda>_. Some t), rt_rfc3339 = (\<lambda>_. None), rt_int64 = (\<lambda>_. - (2 ^ 63)),
     rt_map_order = rowid_plan, rt_zone = (\<lambda>_. 0), rt_ip_literal = (\<lambda>_. None), rt_quote = (\<lambda>s. s)\<rparr>"

subsection \<open>Requests\<close>

record Claims =
  cl_user_id :: int
  cl_username :: string
  cl_role :: string

text \<open>
  Header names are in canonical form; \<open>rq_clock\<close> gives the successive readings of the clock.  The path
  values are those the router's pattern binds, the query is the parsed query string.  The router looks at
  the segments of the escaped path, each unescaped (a trailing slash gives an empty last segment), and at
  whether \<open>path.Clean\<close> leaves that path as it is.
\<close>

record request =
  rq_method :: string
  rq_path :: string
  rq_segments :: "string list"
  rq_canonical :: bool
  rq_remote_addr :: string
  rq_header :: "(string \<times> string) list"
  rq_body :: string
  rq_max_body :: "nat option"
  rq_clock :: "nat \<Rightarrow> instant"
  rq_path_values :: "(string \<times> string) list"
  rq_query :: "(string \<times> string) list"
  rq_project_id :: "int option"
  rq_claims :: "Claims option"

definition header_get :: "request \<Rightarrow> string \<Rightarrow> string" where
  "header_get r k = (case map_of (rq_header r) k of None \<Rightarrow> '''' | Some v \<Rightarrow> v)"

definition path_value :: "request \<Rightarrow> string \<Rightarrow> string" where
  "path_value r name = (case map_of (rq_path_values r) name of None \<Rightarrow> '''' | Some v \<Rightarrow> v)"

definition query_get :: "request \<Rightarrow> string \<Rightarrow> string" where
  "query_get r name = (case map_of (rq_query r) name of None \<Rightarrow> '''' | Some v \<Rightarrow> v)"

definition pathInt :: "request \<Rightarrow> string \<Rightarrow> int option" where
  "pathInt r name = atoi (path_value r name)"

text \<open>The part of the body that \<open>http.MaxBytesReader\<close> lets through.\<close>

definition body_text :: "request \<Rightarrow> string" where
  "body_text r = (case rq_max_body r of None \<Rightarrow> rq_body r | Some n \<Rightarrow> take n (rq_body r))"

definition decodeJSON :: "runtime \<Rightarrow> (json_tree \<Rightarrow> 'a option) \<Rightarrow> request \<Rightarrow> 'a option" where
  "decodeJSON rt dec r = (case rt_json rt (body_text r) of None \<Rightarrow> None | Some t \<Rightarrow> dec t)"

subsection \<open>Responses\<close>

datatype reply =
    ErrorResponse string string
  | TrackResponse nat
  | IdentifyResponse int
  | LoginReply LoginResponse
  | UserReply ConsoleUser
  | UsersReply "ConsoleUser list"
  | TOTPSetupReply TOTPSetupResponse
  | ProjectReply Project
  | ProjectsReply "Project list"
  | TokenReply ProjectToken
  | TokensReply "ProjectToken list"
  | OverviewReply AnalyticsOverview
  | EventsReply EventsAnalytics
  | PropertiesReply PropertyAnalytics
  | DevicesReply DevicesAnalytics
  | GeoReply GeoAnalytics
  | UsersAnalyticsReply UsersAnalytics
  | RetentionReply RetentionAnalytics
  | HealthReply HealthResponse
  | TextReply string

text \<open>
  \<open>w_sent\<close> is the status and the headers of the first \<open>WriteHeader\<close>; later calls and later header
  changes do not reach the client.  \<open>w_logged\<close> is the status field of the logging middleware's wrapper,
  which every explicit \<open>WriteHeader\<close> overwrites.  \<open>w_aborted\<close>: the handler panicked (a nil pointer was
  dereferenced) and the server cut the connection.
\<close>

record writer =
  w_header :: "(string \<times> string) list"
  w_sent :: "(int \<times> (string \<times> string) list) option"
  w_body :: "reply list"
  w_logged :: int
  w_aborted :: bool

definition new_writer :: writer where
  "new_writer = \<lparr>w_header = [], w_sent = None, w_body = [], w_logged = 200, w_aborted = False\<rparr>"

definition set_header :: "string \<Rightarrow> string \<Rightarrow> writer \<Rightarrow> writer" where
  "set_header k v w = w\<lparr>w_header := put_entry k v (w_header w)\<rparr>"

definition panic :: "writer \<Rightarrow> writer" where
  "panic w = w\<lparr>w_aborted := True\<rparr>"

definition send_status :: "int \<Rightarrow> writer \<Rightarrow> writer" where
  "send_status n w = (case w_sent w of None \<Rightarrow> w\<lparr>w_sent := Some (n, w_header w)\<rparr> | Some _ \<Rightarrow> w)"

definition write_header :: "int \<Rightarrow> writer \<Rightarrow> writer" where
  "write_header n w = (send_status n w)\<lparr>w_logged := n\<rparr>"

definition encode_reply :: "reply \<Rightarrow> writer \<Rightarrow> writer" where
  "encode_reply v w = (let w' = send_status 200 w in w'\<lparr>w_body := w_body w' @ [v]\<rparr>)"

text \<open>The status the client sees: 200 when the handler wrote none.\<close>

definition status :: "writer \<Rightarrow> int" where
  "status w = (case w_sent w of None \<Rightarrow> 200 | Some (n, _) \<Rightarrow> n)"

definition writeJSON :: "int \<Rightarrow> reply \<Rightarrow> writer \<Rightarrow> writer" where
  "writeJSON n v w = encode_reply v (write_header n (set_header ''Content-Type'' ''application/json'' w))"

definition writeError :: "int \<Rightarrow> string \<Rightarrow> string \<Rightarrow> writer \<Rightarrow> writer" where
  "writeError n code msg = writeJSON n (ErrorResponse code msg)"

type_synonym 's handler = "request \<Rightarrow> writer \<Rightarrow> 's \<Rightarrow> writer \<times> 's"

lemma set_header_sent [simp]: "w_sent (set_header k v w) = w_sent w" "w_body (set_header k v w) = w_body w"
  by (simp_all add: set_header_def)

lemma write_header_fresh:
  "w_sent w = None \<Longrightarrow> w_sent (write_header n w) = Some (n, w_header w)"
  by (simp add: write_header_def send_status_def)

lemma write_header_body [simp]: "w_body (write_header n w) = w_body w"
  by (simp add: write_header_def send_status_def split: option.split)

lemma status_write_header: "w_sent w = None \<Longrightarrow> status (write_header n w) = n"
  by (simp add: status_def write_header_fresh)

text \<open>The writer a request starts with, as far as the handlers care.\<close>

definition fresh :: "writer \<Rightarrow> bool" where
  "fresh w \<longleftrightarrow> w_sent w = None \<and> \<not> w_aborted w"

lemma fresh_panic: "fresh w \<Longrightarrow> w_aborted (panic w)" "status (panic w) = status w"
  by (simp_all add: panic_def status_def)

lemma freshD: "fresh w \<Longrightarrow> w_sent w = None" "fresh w \<Longrightarrow> \<not> w_aborted w"
  by (simp_all add: fresh_def)

lemma fresh_new_writer [simp]: "fresh new_writer" "w_body new_writer = []"
  by (simp_all add: fresh_def new_writer_def)

text \<open>A handler that answers 200 and does not panic.\<close>

definition succeeded :: "writer \<Rightarrow> bool" where
  "succeeded w \<longleftrightarrow> status w \<in> {200, 201} \<and> \<not> w_aborted w"

lemma writeJSON_fresh:
  assumes "w_sent w = None"
  shows "status (writeJSON n v w) = n" "w_body (writeJSON n v w) = w_body w @ [v]"
  using assms
  by (simp_all add: writeJSON_def encode_reply_def Let_def write_header_def send_status_def status_def)

lemma writer_aborted [simp]:
  "w_aborted (set_header k v w) = w_aborted w" "w_aborted (write_header n w) = w_aborted w"
  "w_aborted (writeJSON n x w) = w_aborted w" "w_aborted (writeError n c m w) = w_aborted w"
  by (simp_all add: set_header_def write_header_def send_status_def writeJSON_def writeError_def
      encode_reply_def Let_def split: option.split)

lemma writeError_fresh:
  assumes "w_sent w = None"
  shows "status (writeError n c m w) = n" "w_body (writeError n c m w) = w_body w @ [ErrorResponse c m]"
  using assms by (simp_all add: writeError_def writeJSON_fresh)

lemma fresh_replies:
  assumes "fresh w"
  shows "status (writeError n c m w) = n" "w_body (writeError n c m w) = w_body w @ [ErrorResponse c m]"
    "status (writeJSON n v w) = n" "w_body (writeJSON n v w) = w_body w @ [v]"
    "succeeded (writeError n c m w) \<longleftrightarrow> n \<in> {200, 201}" "succeeded (writeJSON n v w) \<longleftrightarrow> n \<in> {200, 201}"
    "succeeded (write_header n w) \<longleftrightarrow> n \<in> {200, 201}" "\<not> succeeded (panic w)"
    "status (write_header n w) = n" "w_body (panic w) = w_body w"
  using freshD [OF assms]
  by (simp_all add: writeError_fresh writeJSON_fresh succeeded_def status_write_header panic_def)

end
