(* ===== verification/Store.thy ===== *)
theory Store
  imports Database
begin

text \<open>
  The interface \<open>storage.Store\<close> of \<open>internal/storage/storage.go\<close>: a Go interface value is a table of
  methods, here a record of functions over the implementation's state \<open>'s\<close>.  The handlers and
  middlewares take such a record.  What they rely on is stated as locales over the record, with an
  abstract view of the state (which events, properties, tokens, users and device links it holds);
  each store interprets them on its own methods.
\<close>

subsection \<open>The interface\<close>

record 's Store =
  Close :: "(unit, 's) op"
  Ping :: "(unit, 's) op"
  CreateConsoleUser :: "ConsoleUser \<Rightarrow> (ConsoleUser, 's) op"
  GetConsoleUserByID :: "int \<Rightarrow> (ConsoleUser, 's) op"
  GetConsoleUserByLogin :: "string \<Rightarrow> (ConsoleUser, 's) op"
  UpdateConsoleUser :: "ConsoleUser \<Rightarrow> (unit, 's) op"
  DeleteConsoleUser :: "int \<Rightarrow> (unit, 's) op"
  ListConsoleUsers :: "(ConsoleUser list, 's) op"
  CreateProject :: "Project \<Rightarrow> (Project, 's) op"
  GetProject :: "int \<Rightarrow> (Project, 's) op"
  UpdateProject :: "Project \<Rightarrow> (unit, 's) op"
  DeleteProject :: "int \<Rightarrow> (unit, 's) op"
  ListProjects :: "(Project list, 's) op"
  CreateProjectToken :: "ProjectToken \<Rightarrow> (ProjectToken, 's) op"
  GetProjectTokenByToken :: "string \<Rightarrow> (ProjectToken, 's) op"
  ListProjectTokens :: "int \<Rightarrow> (ProjectToken list, 's) op"
  UpdateProjectToken :: "ProjectToken \<Rightarrow> (unit, 's) op"
  DeleteProjectToken :: "int \<Rightarrow> (unit, 's) op"
  UpsertDevice :: "Device \<Rightarrow> (unit, 's) op"
  GetDevice :: "string \<Rightarrow> (Device, 's) op"
  LinkDeviceToUser :: "string \<Rightarrow> int \<Rightarrow> (unit, 's) op"
  GetOrCreateAppUser :: "int \<Rightarrow> string \<Rightarrow> (AppUser, 's) op"
  InsertEvent :: "Event \<Rightarrow> (bool, 's) op"
  InsertEventProperties :: "EventProperty list \<Rightarrow> (unit, 's) op"
  GetDeviceUserID :: "string \<Rightarrow> (int option, 's) op"
  CleanupEvents :: "int \<Rightarrow> instant \<Rightarrow> (nat, 's) op"
  GetOverview :: "int \<Rightarrow> instant \<Rightarrow> instant \<Rightarrow> (AnalyticsOverview, 's) op"
  GetEventsAnalytics :: "int \<Rightarrow> instant \<Rightarrow> instant \<Rightarrow> string \<Rightarrow> int \<Rightarrow> int \<Rightarrow> (EventsAnalytics, 's) op"
  GetEventProperties :: "int \<Rightarrow> string \<Rightarrow> instant \<Rightarrow> instant \<Rightarrow> int \<Rightarrow> int \<Rightarrow> (PropertyAnalytics, 's) op"
  GetDevicesAnalytics :: "int \<Rightarrow> instant \<Rightarrow> instant \<Rightarrow> (DevicesAnalytics, 's) op"
  GetGeoAnalytics :: "int \<Rightarrow> instant \<Rightarrow> instant \<Rightarrow> int \<Rightarrow> int \<Rightarrow> (GeoAnalytics, 's) op"
  GetUsersAnalytics :: "int \<Rightarrow> instant \<Rightarrow> instant \<Rightarrow> string \<Rightarrow> (UsersAnalytics, 's) op"
  GetRetentionAnalytics :: "int \<Rightarrow> instant \<Rightarrow> instant \<Rightarrow> (RetentionAnalytics, 's) op"
  GetProjectsWithRetention :: "(Project list, 's) op"

subsection \<open>Event ingestion\<close>

text \<open>The row an event becomes, but for its creation time: empty strings are stored as NULL.\<close>

definition nullStr :: "string \<Rightarrow> string option" where
  "nullStr s = (if s = '''' then None else Some s)"

definition stored_as :: "Event \<Rightarrow> EventRow \<Rightarrow> bool" where
  "stored_as ev e \<longleftrightarrow>
     e_id e = ev_id ev \<and> e_project_id e = ev_project_id ev \<and> e_device_id e = ev_device_id ev \<and>
     e_user_id e = ev_user_id ev \<and> e_name e = ev_name ev \<and> e_timestamp e = ev_timestamp ev \<and>
     e_ip_address e = nullStr (ev_ip_address ev) \<and> e_country e = nullStr (ev_country ev) \<and>
     e_city e = nullStr (ev_city ev)"

text \<open>A property without the id the store assigns.\<close>

definition strip_id :: "EventProperty \<Rightarrow> EventProperty" where
  "strip_id p = p\<lparr>ep_id := 0\<rparr>"

text \<open>
  The contract of ingestion: inserting an event either adds exactly that event under a fresh id, or
  reports that the id is taken and changes nothing, or fails and changes nothing; properties are
  added all or not at all; looking up a device's user changes nothing.
\<close>

locale event_store =
  fixes st :: "'s Store"
    and wf :: "'s \<Rightarrow> bool"
    and events_of :: "'s \<Rightarrow> string \<Rightarrow> EventRow option"
    and props_of :: "'s \<Rightarrow> EventProperty list"
  assumes insert_event_wf: "InsertEvent st ev s = (r, s') \<Longrightarrow> wf s \<Longrightarrow> wf s'"
    and insert_event_new: "InsertEvent st ev s = (Inr True, s') \<Longrightarrow> wf s \<Longrightarrow>
          events_of s (ev_id ev) = None \<and>
          (\<exists>e. stored_as ev e \<and> events_of s' = (events_of s)(ev_id ev \<mapsto> e))"
    and insert_event_dup: "InsertEvent st ev s = (Inr False, s') \<Longrightarrow> wf s \<Longrightarrow>
          events_of s (ev_id ev) \<noteq> None \<and> events_of s' = events_of s"
    and insert_event_err: "InsertEvent st ev s = (Inl x, s') \<Longrightarrow> wf s \<Longrightarrow> events_of s' = events_of s"
    and insert_event_props: "InsertEvent st ev s = (r, s') \<Longrightarrow> wf s \<Longrightarrow> props_of s' = props_of s"
    and insert_props_wf: "InsertEventProperties st ps s = (q, s') \<Longrightarrow> wf s \<Longrightarrow> wf s'"
    and insert_props_events: "InsertEventProperties st ps s = (q, s') \<Longrightarrow> wf s \<Longrightarrow> events_of s' = events_of s"
    and insert_props_ok: "InsertEventProperties st ps s = (Inr u, s') \<Longrightarrow> wf s \<Longrightarrow>
          props_of s' = props_of s @ map strip_id ps"
    and insert_props_err: "InsertEventProperties st ps s = (Inl x, s') \<Longrightarrow> wf s \<Longrightarrow> props_of s' = props_of s"
    and device_user_wf: "GetDeviceUserID st dev s = (u', s') \<Longrightarrow> wf s \<Longrightarrow> wf s'"
    and device_user_events: "GetDeviceUserID st dev s = (u', s') \<Longrightarrow> events_of s' = events_of s"
    and device_user_props: "GetDeviceUserID st dev s = (u', s') \<Longrightarrow> props_of s' = props_of s"

subsection \<open>Tracking tokens\<close>

text \<open>Looking a token up returns the stored token with that value, and reads only.\<close>

locale token_store =
  fixes st :: "'s Store"
    and wf :: "'s \<Rightarrow> bool"
    and token_of :: "'s \<Rightarrow> string \<Rightarrow> ProjectToken option"
  assumes get_token_wf: "GetProjectTokenByToken st t s = (r, s') \<Longrightarrow> wf s \<Longrightarrow> wf s'"
    and get_token_view: "GetProjectTokenByToken st t s = (r, s') \<Longrightarrow> token_of s' = token_of s"
    and get_token_found: "GetProjectTokenByToken st t s = (Inr pt, s') \<Longrightarrow> wf s \<Longrightarrow> token_of s t = Some pt"
    and token_of_token: "token_of s t = Some pt \<Longrightarrow> tok_token pt = t"

subsection \<open>Devices and users\<close>

text \<open>
  The contract behind \<open>/identify\<close>: a project's anonymous id has at most one user, created on first
  use; linking points a registered device to a user and touches no other device.
\<close>

locale identity_store =
  fixes st :: "'s Store"
    and wf :: "'s \<Rightarrow> bool"
    and user_of :: "'s \<Rightarrow> int \<times> string \<Rightarrow> int option"
    and link_of :: "'s \<Rightarrow> string \<Rightarrow> int option option"
  assumes get_or_create_wf: "GetOrCreateAppUser st p a s = (r, s') \<Longrightarrow> wf s \<Longrightarrow> wf s'"
    and get_or_create_ok: "GetOrCreateAppUser st p a s = (Inr u, s') \<Longrightarrow> wf s \<Longrightarrow>
          au_project_id u = p \<and> au_anonymous_id u = a \<and>
          user_of s' = (user_of s)((p, a) \<mapsto> au_id u) \<and>
          (case user_of s (p, a) of Some i \<Rightarrow> au_id u = i | None \<Rightarrow> au_id u \<notin> ran (user_of s))"
    and get_or_create_err: "GetOrCreateAppUser st p a s = (Inl e, s') \<Longrightarrow> wf s \<Longrightarrow> user_of s' = user_of s"
    and get_or_create_links: "GetOrCreateAppUser st p a s = (r, s') \<Longrightarrow> wf s \<Longrightarrow> link_of s' = link_of s"
    and link_wf: "LinkDeviceToUser st dev uid s = (q, s') \<Longrightarrow> wf s \<Longrightarrow> wf s'"
    and link_users: "LinkDeviceToUser st dev uid s = (q, s') \<Longrightarrow> wf s \<Longrightarrow> user_of s' = user_of s"
    and link_ok: "LinkDeviceToUser st dev uid s = (Inr x, s') \<Longrightarrow> wf s \<Longrightarrow>
          link_of s' = (if link_of s dev = None then link_of s else (link_of s)(dev \<mapsto> Some uid))"
    and link_err: "LinkDeviceToUser st dev uid s = (Inl e, s') \<Longrightarrow> wf s \<Longrightarrow> link_of s' = link_of s"

subsection \<open>Console users\<close>

text \<open>
  The contract of the console's accounts, on the view from ids to users: lookups read; creating adds one
  user under a fresh id; updating replaces the user's fields but its creation time and touches no other
  user; deleting removes one; a failing operation changes nothing.
\<close>

locale console_store =
  fixes st :: "'s Store"
    and wf :: "'s \<Rightarrow> bool"
    and users_of :: "'s \<Rightarrow> int \<Rightarrow> ConsoleUser option"
  assumes get_user_wf: "GetConsoleUserByID st i s = (r, s') \<Longrightarrow> wf s \<Longrightarrow> wf s'"
    and get_user_view: "GetConsoleUserByID st i s = (r, s') \<Longrightarrow> users_of s' = users_of s"
    and get_user_found: "GetConsoleUserByID st i s = (Inr u, s') \<Longrightarrow> wf s \<Longrightarrow> users_of s i = Some u"
    and get_login_wf: "GetConsoleUserByLogin st l s = (r, s') \<Longrightarrow> wf s \<Longrightarrow> wf s'"
    and get_login_view: "GetConsoleUserByLogin st l s = (r, s') \<Longrightarrow> users_of s' = users_of s"
    and get_login_found: "GetConsoleUserByLogin st l s = (Inr u, s') \<Longrightarrow> wf s \<Longrightarrow>
          users_of s (cu_id u) = Some u \<and> (cu_username u = l \<or> cu_email u = Some l)"
    and get_login_none: "GetConsoleUserByLogin st l s = (Inl ErrNoRows, s') \<Longrightarrow> wf s \<Longrightarrow>
          users_of s i = Some u \<Longrightarrow> cu_username u \<noteq> l \<and> cu_email u \<noteq> Some l"
    and create_user_wf: "CreateConsoleUser st u s = (r, s') \<Longrightarrow> wf s \<Longrightarrow> wf s'"
    and create_user_ok: "CreateConsoleUser st u s = (Inr u', s') \<Longrightarrow> wf s \<Longrightarrow>
          users_of s (cu_id u') = None \<and> u' = u\<lparr>cu_id := cu_id u'\<rparr> \<and>
          (\<exists>t. users_of s' = (users_of s)(cu_id u' \<mapsto> u'\<lparr>cu_created_at := t\<rparr>))"
    and create_user_err: "CreateConsoleUser st u s = (Inl e, s') \<Longrightarrow> wf s \<Longrightarrow> users_of s' = users_of s"
    and update_user_wf: "UpdateConsoleUser st u s = (q, s') \<Longrightarrow> wf s \<Longrightarrow> wf s'"
    and update_user_ok: "UpdateConsoleUser st u s = (Inr x, s') \<Longrightarrow> wf s \<Longrightarrow>
          users_of s' = (case users_of s (cu_id u) of None \<Rightarrow> users_of s
            | Some old \<Rightarrow> (users_of s)(cu_id u \<mapsto> u\<lparr>cu_created_at := cu_created_at old\<rparr>))"
    and update_user_err: "UpdateConsoleUser st u s = (Inl e, s') \<Longrightarrow> wf s \<Longrightarrow> users_of s' = users_of s"
    and delete_user_wf: "DeleteConsoleUser st i s = (q, s') \<Longrightarrow> wf s \<Longrightarrow> wf s'"
    and delete_user_ok: "DeleteConsoleUser st i s = (Inr x, s') \<Longrightarrow> wf s \<Longrightarrow> users_of s' = (users_of s)(i := None)"
    and delete_user_err: "DeleteConsoleUser st i s = (Inl e, s') \<Longrightarrow> wf s \<Longrightarrow> users_of s' = users_of s"
    and users_of_id: "wf s \<Longrightarrow> users_of s i = Some u \<Longrightarrow> cu_id u = i"

end
