(* ===== verification/Go_Url.thy ===== *)
theory Go_Url
  imports Go_Strings
begin

text \<open>
  \<open>net/url.Parse\<close> of Go's standard library, as far as the repository looks at its result: whether it
  fails, and the \<open>Scheme\<close> and \<open>Host\<close> it returns.  Go's treatment of a host with an opening bracket
  (an IP literal) changed between patch releases, so it is the parameter \<open>ip_literal\<close>; everything
  else (fragment and query cut, control bytes, scheme scan, opaque URLs, userinfo, port, percent
  escapes of host, path, userinfo and fragment) is written out.
\<close>

definition is_alpha :: "char \<Rightarrow> bool" where
  "is_alpha c \<longleftrightarrow> (65 \<le> byte c \<and> byte c \<le> 90) \<or> (97 \<le> byte c \<and> byte c \<le> 122)"

definition is_ctl :: "char \<Rightarrow> bool" where
  "is_ctl c \<longleftrightarrow> byte c < 32 \<or> byte c = 127"

definition is_scheme_char :: "char \<Rightarrow> bool" where
  "is_scheme_char c \<longleftrightarrow> is_alpha c \<or> is_digit c \<or> c \<in> set ''+-.''"

definition hex_value :: "char \<Rightarrow> nat option" where
  "hex_value c =
     (if 48 \<le> byte c \<and> byte c \<le> 57 then Some (byte c - 48)
      else if 97 \<le> byte c \<and> byte c \<le> 102 then Some (byte c - 87)
      else if 65 \<le> byte c \<and> byte c \<le> 70 then Some (byte c - 55)
      else None)"

text \<open>The ASCII bytes that \<open>shouldEscape(c, encodeHost)\<close> lets through.\<close>

definition host_char :: "char \<Rightarrow> bool" where
  "host_char c \<longleftrightarrow> is_alpha c \<or> is_digit c \<or> c \<in> set ''!$&()*+,;=:[]<>-_.~'' \<or> c \<in> {CHR 0x22, CHR 0x27}"

definition get_scheme :: "string \<Rightarrow> (string \<times> string) option" where
  "get_scheme raw =
     (let p = takeWhile is_scheme_char raw; r = dropWhile is_scheme_char raw in
      if p = [] then (if has_prefix r '':'' then None else Some ('''', raw))
      else if \<not> is_alpha (hd p) then Some ('''', raw)
      else if has_prefix r '':'' then Some (p, tl r)
      else Some ('''', raw))"

text \<open>\<open>unescape\<close> in the modes whose result is not looked at: only malformed escapes matter.\<close>

fun escapes_ok :: "string \<Rightarrow> bool" where
  "escapes_ok [] = True"
| "escapes_ok (c # cs) =
     (if c = CHR ''%'' then
        (case cs of
           h # l # r \<Rightarrow> hex_value h \<noteq> None \<and> hex_value l \<noteq> None \<and> escapes_ok r
         | _ \<Rightarrow> False)
      else escapes_ok cs)"

fun unescape_host :: "string \<Rightarrow> string option" where
  "unescape_host [] = Some []"
| "unescape_host (c # cs) =
     (if c = CHR ''%'' then
        (case cs of
           h # l # r \<Rightarrow>
             (case (hex_value h, hex_value l) of
                (Some a, Some b) \<Rightarrow>
                  if a < 8 \<and> (h, l) \<noteq> (CHR ''2'', CHR ''5'') then None
                  else map_option (\<lambda>t. char_of (16 * a + b) # t) (unescape_host r)
              | _ \<Rightarrow> None)
         | _ \<Rightarrow> None)
      else if byte c < 128 \<and> \<not> host_char c then None
      else map_option (\<lambda>t. c # t) (unescape_host cs))"

definition valid_optional_port :: "string \<Rightarrow> bool" where
  "valid_optional_port p \<longleftrightarrow> p = [] \<or> (hd p = CHR '':'' \<and> list_all is_digit (tl p))"

definition parse_host :: "(string \<Rightarrow> string option) \<Rightarrow> string \<Rightarrow> string option" where
  "parse_host ip_literal h =
     (if CHR ''['' \<in> set h then ip_literal h
      else (case last_index_byte h (CHR '':'') of
              Some i \<Rightarrow> if valid_optional_port (drop i h) then unescape_host h else None
            | None \<Rightarrow> unescape_host h))"

definition valid_userinfo :: "string \<Rightarrow> bool" where
  "valid_userinfo s \<longleftrightarrow>
     list_all (\<lambda>c. is_alpha c \<or> is_digit c \<or> c \<in> set ''-._:~!$&()*+,;=%@'' \<or> c = CHR 0x27) s"

definition parse_authority :: "(string \<Rightarrow> string option) \<Rightarrow> string \<Rightarrow> string option" where
  "parse_authority ip_literal a =
     (case last_index_byte a (CHR ''@'') of
        None \<Rightarrow> parse_host ip_literal a
      | Some i \<Rightarrow>
          (case parse_host ip_literal (drop (Suc i) a) of
             None \<Rightarrow> None
           | Some h \<Rightarrow> if valid_userinfo (take i a) \<and> escapes_ok (take i a) then Some h else None))"

text \<open>\<open>parse(u, false)\<close> on the part before the fragment: scheme and host.\<close>

definition parse_no_fragment :: "(string \<Rightarrow> string option) \<Rightarrow> string \<Rightarrow> (string \<times> string) option" where
  "parse_no_fragment ip_literal u =
     (if list_ex is_ctl u then None
      else if u = ''*'' then Some ('''', '''')
      else case get_scheme u of
        None \<Rightarrow> None
      | Some (sch, rest0) \<Rightarrow>
          let scheme = map ascii_lower sch;
              rest = takeWhile (\<lambda>c. c \<noteq> CHR ''?'') rest0
          in if \<not> has_prefix rest ''/'' \<and> scheme \<noteq> '''' then Some (scheme, '''')
             else if \<not> has_prefix rest ''/'' \<and> CHR '':'' \<in> set (takeWhile (\<lambda>c. c \<noteq> CHR ''/'') rest) then None
             else if (scheme \<noteq> '''' \<or> \<not> has_prefix rest ''///'') \<and> has_prefix rest ''//'' then
               (let authority = takeWhile (\<lambda>c. c \<noteq> CHR ''/'') (drop 2 rest);
                    path = dropWhile (\<lambda>c. c \<noteq> CHR ''/'') (drop 2 rest)
                in case parse_authority ip_literal authority of
                     None \<Rightarrow> None
                   | Some h \<Rightarrow> if escapes_ok path then Some (scheme, h) else None)
             else if escapes_ok rest then Some (scheme, '''')
             else None)"

definition url_parse :: "(string \<Rightarrow> string option) \<Rightarrow> string \<Rightarrow> (string \<times> string) option" where
  "url_parse ip_literal raw =
     (let u = takeWhile (\<lambda>c. c \<noteq> CHR ''#'') raw;
          fragment = tl (dropWhile (\<lambda>c. c \<noteq> CHR ''#'') raw)
      in case parse_no_fragment ip_literal u of
           None \<Rightarrow> None
         | Some r \<Rightarrow> if escapes_ok fragment then Some r else None)"

subsection \<open>Hosts\<close>

text \<open>A host that parses to itself: allowed ASCII bytes, no bracket, at most a numeric port.\<close>

definition plain_host :: "string \<Rightarrow> bool" where
  "plain_host h \<longleftrightarrow>
     list_all (\<lambda>c. byte c < 128 \<and> host_char c \<and> c \<noteq> CHR ''['') h \<and>
     (case last_index_byte h (CHR '':'') of
        None \<Rightarrow> True | Some i \<Rightarrow> valid_optional_port (drop i h))"

lemma char_neqs_host:
  "host_char c \<Longrightarrow> c \<noteq> CHR ''%'' \<and> c \<noteq> CHR ''/'' \<and> c \<noteq> CHR ''?'' \<and> c \<noteq> CHR ''#'' \<and> c \<noteq> CHR ''@''
     \<and> \<not> is_ctl c \<and> byte c \<noteq> 32"
  by (auto simp: host_char_def is_alpha_def is_digit_def byte_def is_ctl_def)

lemma unescape_host_plain: "list_all host_char h \<Longrightarrow> unescape_host h = Some h"
  by (induction h) (auto dest: char_neqs_host)

lemma parse_host_plain: "plain_host h \<Longrightarrow> parse_host lit h = Some h"
  unfolding plain_host_def parse_host_def
  by (auto simp: list_all_iff unescape_host_plain split: option.splits)

lemma parse_authority_plain: "plain_host h \<Longrightarrow> parse_authority lit h = Some h"
proof -
  assume h: "plain_host h"
  then have "CHR ''@'' \<notin> set h"
    unfolding plain_host_def by (auto simp: list_all_iff dest: char_neqs_host)
  then show ?thesis
    using h by (simp add: parse_authority_def parse_host_plain last_index_byte_None [THEN iffD2])
qed

lemma takeWhile_all: "(\<And>x. x \<in> set xs \<Longrightarrow> P x) \<Longrightarrow> takeWhile P xs = xs"
  by simp

definition lower_scheme :: "string \<Rightarrow> bool" where
  "lower_scheme s \<longleftrightarrow> s \<noteq> [] \<and> list_all (\<lambda>c. 97 \<le> byte c \<and> byte c \<le> 122) s"

lemma lower_scheme_char:
  assumes "97 \<le> byte c \<and> byte c \<le> 122"
  shows "is_alpha c" "is_scheme_char c" "ascii_lower c = c" "\<not> is_ctl c"
    "c \<noteq> CHR ''#''" "c \<noteq> CHR ''?''"
  using assms
  by (auto simp: is_alpha_def is_scheme_char_def ascii_lower_def is_ctl_def byte_def)

lemma get_scheme_lower:
  assumes "lower_scheme s"
  shows "get_scheme (s @ CHR '':'' # r) = Some (s, r)"
proof -
  have all: "\<forall>c \<in> set s. is_scheme_char c"
    using assms lower_scheme_char(2) by (auto simp: lower_scheme_def list_all_iff)
  have colon: "\<not> is_scheme_char CHR '':''"
    by (simp add: is_scheme_char_def is_alpha_def is_digit_def byte_def)
  have "is_alpha (hd s)"
    using assms lower_scheme_char(1) by (cases s) (auto simp: lower_scheme_def)
  then show ?thesis
    using all colon assms
    by (simp add: get_scheme_def takeWhile_append2 dropWhile_append2 lower_scheme_def)
qed

lemma map_ascii_lower_scheme: "lower_scheme s \<Longrightarrow> map ascii_lower s = s"
  by (auto simp: lower_scheme_def list_all_iff lower_scheme_char intro!: map_idI)

text \<open>Parsing \<open>scheme://host\<close> gives back scheme and host.\<close>

lemma url_parse_origin:
  assumes s: "lower_scheme s" and h: "plain_host h"
  shows "url_parse lit (s @ ''://'' @ h) = Some (s, h)"
proof -
  have hc: "\<forall>c \<in> set h. host_char c"
    using h by (auto simp: plain_host_def list_all_iff)
  have sc: "\<forall>c \<in> set s. 97 \<le> byte c \<and> byte c \<le> 122"
    using s by (auto simp: lower_scheme_def list_all_iff)
  have h1: "\<forall>c \<in> set h. c \<noteq> CHR ''#'' \<and> c \<noteq> CHR ''?'' \<and> c \<noteq> CHR ''/'' \<and> \<not> is_ctl c"
    using hc char_neqs_host by blast
  have s1: "\<forall>c \<in> set s. c \<noteq> CHR ''#'' \<and> \<not> is_ctl c"
    using sc lower_scheme_char by blast
  let ?u = "s @ ''://'' @ h"
  have u1: "takeWhile (\<lambda>c. c \<noteq> CHR ''#'') ?u = ?u" "dropWhile (\<lambda>c. c \<noteq> CHR ''#'') ?u = []"
    using h1 s1 by auto
  have nc: "\<not> list_ex is_ctl ?u"
    using h1 s1 by (auto simp: list_ex_iff is_ctl_def byte_def)
  have ns: "?u \<noteq> ''*''"
    by (cases s) auto
  have tq: "takeWhile (\<lambda>c. c \<noteq> CHR ''?'') h = h"
    and th: "takeWhile (\<lambda>c. c \<noteq> CHR ''/'') h = h" "dropWhile (\<lambda>c. c \<noteq> CHR ''/'') h = []"
    using h1 by auto
  have "parse_no_fragment lit ?u = Some (s, h)"
    unfolding parse_no_fragment_def if_not_P [OF nc] if_not_P [OF ns]
    using get_scheme_lower [OF s, of "''//'' @ h"] s
    by (simp add: map_ascii_lower_scheme tq th parse_authority_plain [OF h] lower_scheme_def)
  then show ?thesis
    unfolding url_parse_def Let_def u1 by simp
qed

text \<open>No control byte, space or slash gets into a host, apart from IP literals.\<close>

lemma unescape_host_chars:
  "unescape_host h = Some h' \<Longrightarrow> c \<in> set h' \<Longrightarrow>
     host_char c \<or> 128 \<le> byte c \<or> c = CHR ''%''"
proof (induction h arbitrary: h' rule: unescape_host.induct)
  case (2 x xs)
  show ?case
  proof (cases "x = CHR ''%''")
    case True
    with "2.prems" obtain hi lo r a b t where xs: "xs = hi # lo # r"
      and ab: "hex_value hi = Some a" "hex_value lo = Some b"
      and ok: "\<not> (a < 8 \<and> (hi, lo) \<noteq> (CHR ''2'', CHR ''5''))"
      and t: "unescape_host r = Some t" "h' = char_of (16 * a + b) # t"
      by (auto split: list.splits option.splits if_splits)
    have lt: "a < 16" "b < 16"
      using ab by (auto simp: hex_value_def split: if_splits)
    have "128 \<le> byte (char_of (16 * a + b)) \<or> char_of (16 * a + b) = CHR ''%''"
    proof (cases "a < 8")
      case True
      with ok ab have "a = 2" "b = 5" by (auto simp: hex_value_def byte_def)
      then show ?thesis by (simp add: char_of_def bit_0)
    next
      case False
      with lt have "16 * a + b < 256" "128 \<le> 16 * a + b" by auto
      then show ?thesis by (simp add: byte_def)
    qed
    with "2.prems" "2.IH"(1) [OF True xs refl] ab ok t show ?thesis by fastforce
  next
    case False
    with "2.prems" "2.IH"(2) show ?thesis by (auto split: if_splits)
  qed
qed simp

end
