(* ===== verification/Origins.thy ===== *)
theory Origins
  imports Go_Url
begin

text \<open>
  Allowed origins of a tracking token: \<open>normalizeOrigins\<close> and \<open>MatchOrigin\<close> of
  \<open>internal/handler/handler.go\<close>, \<open>matchOrigin\<close> of \<open>internal/middleware/middleware.go\<close>, and their
  column encoding \<open>encodeOrigins\<close>/\<open>decodeOrigins\<close> of \<open>internal/storage/sqlite.go\<close> (used by both stores).
  \<open>url.Parse\<close> is the argument \<open>parse\<close>; the locale \<open>url_parser\<close> states what the code relies on and
  is interpreted on the model of Go's parser.
\<close>

subsection \<open>normalizeOrigins\<close>

datatype origin_error =
    NotSchemeHost string
  | NotHttpScheme string

type_synonym url_parse_fun = "string \<Rightarrow> (string \<times> string) option"

text \<open>The body of the loop for one entry: skipped (\<open>None\<close>), an error, or its canonical form.\<close>

definition canonical_origin :: "url_parse_fun \<Rightarrow> string \<Rightarrow> (origin_error, string option) result" where
  "canonical_origin parse raw =
     (let orig = trim_space raw in
      if orig = '''' then Inr None
      else if orig = ''*'' then Inr (Some orig)
      else
        let hasWild = contains orig ''://*.'';
            check = (if hasWild then replace_first orig ''://*.'' ''://wildcard.'' else orig)
        in case parse check of
             None \<Rightarrow> Inl (NotSchemeHost raw)
           | Some (scheme, uhost) \<Rightarrow>
               if scheme = '''' \<or> uhost = '''' then Inl (NotSchemeHost raw)
               else if scheme \<noteq> ''http'' \<and> scheme \<noteq> ''https'' then Inl (NotHttpScheme raw)
               else
                 let host = (if hasWild then ''*.'' @ trim_prefix uhost ''wildcard.'' else uhost)
                 in Inr (Some (scheme @ ''://'' @ host)))"

fun normalize_loop :: "url_parse_fun \<Rightarrow> (string \<Rightarrow> bool) \<Rightarrow> string list \<Rightarrow> string list
    \<Rightarrow> (origin_error, string list) result" where
  "normalize_loop parse seen out [] = Inr out"
| "normalize_loop parse seen out (raw # rest) =
     (case canonical_origin parse raw of
        Inl e \<Rightarrow> Inl e
      | Inr None \<Rightarrow> normalize_loop parse seen out rest
      | Inr (Some c) \<Rightarrow>
          if seen c then normalize_loop parse seen out rest
          else normalize_loop parse (seen(c := True)) (out @ [c]) rest)"

definition normalizeOrigins :: "url_parse_fun \<Rightarrow> string list \<Rightarrow> (origin_error, string list) result" where
  "normalizeOrigins parse ins = normalize_loop parse (\<lambda>_. False) [] ins"

subsection \<open>Matching\<close>

definition entry_matches :: "string \<Rightarrow> string \<Rightarrow> bool" where
  "entry_matches a origin =
     (if a = ''*'' then True
      else if a = origin then True
      else case (str_index a ''://'', str_index a ''://*.'') of
        (Some i, Some j) \<Rightarrow>
          let scheme = take i a;
              suffix = drop (j + length ''://*.'') a;
              pre = scheme @ ''://''
          in has_prefix origin pre \<and>
             (let host = trim_prefix origin pre
              in host = suffix \<or> has_suffix host (''.'' @ suffix))
      | _ \<Rightarrow> False)"

definition matchOrigin :: "string list \<Rightarrow> string \<Rightarrow> bool" where
  "matchOrigin allowed origin =
     (if origin = '''' then False else list_ex (\<lambda>a. entry_matches a origin) allowed)"

definition MatchOrigin :: "string list \<Rightarrow> string \<Rightarrow> bool" where
  "MatchOrigin allowed origin =
     (if length allowed = 0 then True
      else if origin = '''' then False
      else list_ex (\<lambda>a. entry_matches a origin) allowed)"

subsection \<open>The column encoding\<close>

definition encodeOrigins :: "string list \<Rightarrow> string" where
  "encodeOrigins origins =
     (if length origins = 0 then ''''
      else join_with (CHR 0x0A) (filter (\<lambda>t. t \<noteq> '''') (map trim_space origins)))"

definition decodeOrigins :: "string \<Rightarrow> string list" where
  "decodeOrigins s =
     (if s = '''' then []
      else filter (\<lambda>t. t \<noteq> '''') (map trim_space (split_on (CHR 0x0A) s)))"

subsection \<open>Deduplication\<close>

text \<open>Keep the first occurrence of every element.\<close>

definition dedup :: "string list \<Rightarrow> string list" where
  "dedup xs = rev (remdups (rev xs))"

lemma dedup_simps [simp]: "set (dedup xs) = set xs" "distinct (dedup xs)"
  by (simp_all add: dedup_def)

lemma dedup_snoc: "dedup (xs @ [x]) = (if x \<in> set xs then dedup xs else dedup xs @ [x])"
  by (simp add: dedup_def)

lemma dedup_distinct: "distinct xs \<Longrightarrow> dedup xs = xs"
  by (simp add: dedup_def distinct_remdups_id)

lemma dedup_append: "dedup (xs @ ys) = dedup xs @ filter (\<lambda>y. y \<notin> set xs) (dedup ys)"
proof (induction ys rule: rev_induct)
  case (snoc y ys)
  have "dedup (xs @ ys @ [y]) = dedup ((xs @ ys) @ [y])" by simp
  then show ?case by (simp only: dedup_snoc snoc.IH) (auto simp: dedup_snoc)
qed (simp add: dedup_def)

lemma dedup_skip: "a \<in> set xs \<Longrightarrow> dedup (xs @ ys) = dedup (xs @ a # ys)"
proof -
  assume a: "a \<in> set xs"
  have "dedup (a # ys) = a # filter (\<lambda>y. y \<noteq> a) (dedup ys)"
    using dedup_append [of "[a]" ys] by (simp add: dedup_def)
  with a show ?thesis
    by (auto simp: dedup_append intro!: filter_cong)
qed

definition canonical_of :: "url_parse_fun \<Rightarrow> string \<Rightarrow> string list" where
  "canonical_of parse raw =
     (case canonical_origin parse raw of Inr (Some c) \<Rightarrow> [c] | _ \<Rightarrow> [])"

lemma normalize_loop_spec:
  assumes "\<And>x. seen x \<longleftrightarrow> x \<in> set done'" and "out = dedup done'"
  shows "normalize_loop parse seen out ins = Inr r \<longleftrightarrow>
    (\<forall>raw \<in> set ins. is_ok (canonical_origin parse raw)) \<and>
    r = dedup (done' @ concat (map (canonical_of parse) ins))"
  using assms
proof (induction ins arbitrary: seen out done')
  case (Cons raw ins)
  show ?case
  proof (cases "canonical_origin parse raw")
    case (Inl e)
    then show ?thesis by simp
  next
    case (Inr c)
    show ?thesis
    proof (cases c)
      case None
      with Inr Cons show ?thesis by (simp add: canonical_of_def)
    next
      case (Some a)
      have can: "canonical_of parse raw = [a]" and ok: "is_ok (canonical_origin parse raw)"
        using Inr Some by (simp_all add: canonical_of_def)
      show ?thesis
      proof (cases "a \<in> set done'")
        case True
        then have "normalize_loop parse seen out (raw # ins) = normalize_loop parse seen out ins"
          using Inr Some Cons.prems(1) by simp
        moreover have "dedup (done' @ concat (map (canonical_of parse) ins))
            = dedup (done' @ concat (map (canonical_of parse) (raw # ins)))"
          using dedup_skip [OF True] can by simp
        ultimately show ?thesis
          using Cons.IH [OF Cons.prems] ok by simp
      next
        case False
        then have step: "normalize_loop parse seen out (raw # ins)
            = normalize_loop parse (seen(a := True)) (out @ [a]) ins"
          using Inr Some Cons.prems(1) by simp
        have seen': "(seen(a := True)) x \<longleftrightarrow> x \<in> set (done' @ [a])" for x
          using Cons.prems(1) by auto
        have out': "out @ [a] = dedup (done' @ [a])"
          using False Cons.prems(2) by (simp add: dedup_snoc)
        show ?thesis
          unfolding step Cons.IH [OF seen' out'] using ok can by simp
      qed
    qed
  qed
qed auto

lemma normalizeOrigins_spec:
  "normalizeOrigins parse ins = Inr r \<longleftrightarrow>
    (\<forall>raw \<in> set ins. is_ok (canonical_origin parse raw)) \<and>
    r = dedup (concat (map (canonical_of parse) ins))"
  unfolding normalizeOrigins_def
  by (subst normalize_loop_spec [where done' = "[]"]) (simp_all add: dedup_def)

lemma canonical_of_set:
  "c \<in> set (concat (map (canonical_of parse) ins)) \<longleftrightarrow>
    (\<exists>raw \<in> set ins. canonical_origin parse raw = Inr (Some c))"
  by (force simp: canonical_of_def split: sum.splits option.splits)

subsection \<open>What normalisation relies on: the URL parser\<close>

text \<open>A URL without percent escapes, non-ASCII bytes and brackets.\<close>

definition simple_url :: "string \<Rightarrow> bool" where
  "simple_url u \<longleftrightarrow> list_all (\<lambda>c. byte c < 128 \<and> c \<noteq> CHR ''%'' \<and> c \<noteq> CHR ''['') u"

locale url_parser =
  fixes parse :: url_parse_fun
  assumes parse_origin:
      "lower_scheme s \<Longrightarrow> plain_host h \<Longrightarrow> parse (s @ ''://'' @ h) = Some (s, h)"
    and parse_plain: "simple_url u \<Longrightarrow> parse u = Some (s, h) \<Longrightarrow> plain_host h"

lemma simple_url_subset: "set v \<subseteq> set u \<Longrightarrow> simple_url u \<Longrightarrow> simple_url v"
  by (auto simp: simple_url_def list_all_iff)

lemma unescape_host_simple:
  "simple_url h \<Longrightarrow> unescape_host h = Some h' \<Longrightarrow> h' = h \<and> list_all host_char h"
  by (induction h arbitrary: h' rule: unescape_host.induct)
     (auto simp: simple_url_def split: if_splits)

lemma parse_host_simple:
  assumes "simple_url h" and "parse_host lit h = Some h'"
  shows "plain_host h'"
proof -
  have nb: "CHR ''['' \<notin> set h" and lt: "\<forall>c \<in> set h. byte c < 128"
    using assms(1) by (auto simp: simple_url_def list_all_iff)
  have port: "case last_index_byte h (CHR '':'') of
      None \<Rightarrow> True | Some i \<Rightarrow> valid_optional_port (drop i h)"
    and "unescape_host h = Some h'"
    using assms(2) nb by (auto simp: parse_host_def split: option.splits if_splits)
  with unescape_host_simple [OF assms(1)] have "h' = h" "list_all host_char h" by auto
  with nb lt port show ?thesis
    by (auto simp: plain_host_def list_all_iff)
qed

lemma parse_authority_simple:
  assumes "simple_url a" and "parse_authority lit a = Some h"
  shows "plain_host h"
proof (cases "last_index_byte a (CHR ''@'')")
  case None
  with assms show ?thesis by (auto simp: parse_authority_def intro: parse_host_simple)
next
  case (Some i)
  have "simple_url (drop (Suc i) a)"
    using assms(1) by (rule simple_url_subset [rotated]) (rule set_drop_subset)
  with Some assms(2) show ?thesis
    by (auto simp: parse_authority_def intro: parse_host_simple split: option.splits if_splits)
qed

lemma plain_host_Nil [simp]: "plain_host []"
  by (simp add: plain_host_def)

lemma set_tl_dropWhile: "set (tl (dropWhile P u)) \<subseteq> set u"
proof
  fix x assume "x \<in> set (tl (dropWhile P u))"
  then have "x \<in> set (dropWhile P u)" by (cases "dropWhile P u") auto
  then show "x \<in> set u" by (rule set_dropWhileD)
qed

lemma get_scheme_rest: "get_scheme u = Some (s, r) \<Longrightarrow> set r \<subseteq> set u"
  by (auto simp: get_scheme_def Let_def split: if_splits dest: set_tl_dropWhile [THEN subsetD])

lemma url_parse_simple:
  assumes u: "simple_url u" and p: "url_parse lit u = Some (s, h)"
  shows "plain_host h"
proof -
  let ?v = "takeWhile (\<lambda>c. c \<noteq> CHR ''#'') u"
  have "parse_no_fragment lit ?v = Some (s, h)"
    using p by (auto simp: url_parse_def Let_def split: option.splits if_splits)
  then consider "h = []"
    | sch r0 where "get_scheme ?v = Some (sch, r0)"
        "parse_authority lit (takeWhile (\<lambda>c. c \<noteq> CHR ''/'')
           (drop 2 (takeWhile (\<lambda>c. c \<noteq> CHR ''?'') r0))) = Some h"
    by (auto simp: parse_no_fragment_def Let_def split: option.splits if_splits)
  then show ?thesis
  proof cases
    case 2
    let ?a = "takeWhile (\<lambda>c. c \<noteq> CHR ''/'') (drop 2 (takeWhile (\<lambda>c. c \<noteq> CHR ''?'') r0))"
    have "set ?a \<subseteq> set u"
      using get_scheme_rest [OF 2(1)] by (auto dest!: set_takeWhileD in_set_dropD)
    with u have "simple_url ?a" by (blast intro: simple_url_subset)
    with 2(2) show ?thesis by (rule parse_authority_simple [rotated])
  qed simp
qed

subsection \<open>Ports and hosts\<close>

lemma last_colon_unique:
  assumes "a @ x # b = a' @ x # b'" and "x \<notin> set b" and "x \<notin> set b'"
  shows "b = b'"
proof -
  have "b = rev (takeWhile (\<lambda>c. c \<noteq> x) (rev (a @ x # b)))" if "x \<notin> set b" for a b :: "'a list"
  proof -
    have "takeWhile (\<lambda>c. c \<noteq> x) (rev b @ x # rev a) = rev b @ takeWhile (\<lambda>c. c \<noteq> x) (x # rev a)"
      using that by (intro takeWhile_append2) auto
    then show ?thesis by simp
  qed
  with assms show ?thesis by metis
qed

lemma port_condition:
  "(case last_index_byte h (CHR '':'') of None \<Rightarrow> True | Some i \<Rightarrow> valid_optional_port (drop i h)) \<longleftrightarrow>
   (\<forall>a b. h = a @ CHR '':'' # b \<longrightarrow> CHR '':'' \<notin> set b \<longrightarrow> list_all is_digit b)"
proof (cases "last_index_byte h (CHR '':'')")
  case None
  then have "CHR '':'' \<notin> set h" by (simp add: last_index_byte_None)
  with None show ?thesis by auto
next
  case (Some i)
  from last_index_byte_Some [OF Some]
  have h: "h = take i h @ CHR '':'' # drop (Suc i) h" and n: "CHR '':'' \<notin> set (drop (Suc i) h)"
    by auto
  have i: "i < length h"
    using Some by (rule last_index_byte_bound)
  then have d: "drop i h = CHR '':'' # drop (Suc i) h"
    using h by (metis append_eq_conv_conj length_take min.absorb4)
  show ?thesis
  proof
    assume "case last_index_byte h (CHR '':'') of None \<Rightarrow> True | Some i \<Rightarrow> valid_optional_port (drop i h)"
    then have "list_all is_digit (drop (Suc i) h)"
      using Some d by (simp add: valid_optional_port_def)
    then show "\<forall>a b. h = a @ CHR '':'' # b \<longrightarrow> CHR '':'' \<notin> set b \<longrightarrow> list_all is_digit b"
      using h n last_colon_unique by metis
  next
    assume "\<forall>a b. h = a @ CHR '':'' # b \<longrightarrow> CHR '':'' \<notin> set b \<longrightarrow> list_all is_digit b"
    then have "list_all is_digit (drop (Suc i) h)" using h n by blast
    then show "case last_index_byte h (CHR '':'') of None \<Rightarrow> True | Some i \<Rightarrow> valid_optional_port (drop i h)"
      using Some d by (simp add: valid_optional_port_def)
  qed
qed

lemma plain_host_change_prefix:
  assumes "plain_host (p @ x)" and "plain_host p'" and "CHR '':'' \<notin> set p'"
  shows "plain_host (p' @ x)"
proof -
  have "list_all is_digit b"
    if eq: "p' @ x = a @ CHR '':'' # b" and nb: "CHR '':'' \<notin> set b" for a b
  proof -
    from eq assms(3) obtain a' where "x = a' @ CHR '':'' # b"
      by (fastforce simp: append_eq_append_conv2 append_eq_Cons_conv)
    then have "p @ x = (p @ a') @ CHR '':'' # b" by simp
    with assms(1) nb show ?thesis unfolding plain_host_def port_condition by blast
  qed
  with assms(1,2) show ?thesis
    unfolding plain_host_def port_condition by auto
qed

lemma plain_host_wild: "plain_host (''*.'' @ x) \<longleftrightarrow> plain_host (''wildcard.'' @ x)"
proof
  have w: "plain_host ''wildcard.''" "plain_host ''*.''"
    by (simp_all add: plain_host_def host_char_def is_alpha_def byte_def)
  show "plain_host (''*.'' @ x) \<Longrightarrow> plain_host (''wildcard.'' @ x)"
    using plain_host_change_prefix [OF _ w(1), of "''*.''" x] by simp
  show "plain_host (''wildcard.'' @ x) \<Longrightarrow> plain_host (''*.'' @ x)"
    using plain_host_change_prefix [OF _ w(2), of "''wildcard.''" x] by simp
qed

lemma plain_host_add_star: "plain_host h \<Longrightarrow> plain_host (''*.'' @ h)"
  using plain_host_change_prefix [of "[]" h "''*.''"]
  by (simp add: plain_host_def host_char_def byte_def)

subsection \<open>Canonical entries\<close>

definition http_scheme :: "string \<Rightarrow> bool" where
  "http_scheme s \<longleftrightarrow> s = ''http'' \<or> s = ''https''"

definition canonical_form :: "string \<Rightarrow> bool" where
  "canonical_form c \<longleftrightarrow>
     c = ''*'' \<or>
     (\<exists>s h. http_scheme s \<and> h \<noteq> [] \<and> plain_host h \<and> c = s @ ''://'' @ h)"

lemma http_scheme_lower: "http_scheme s \<Longrightarrow> lower_scheme s"
  by (auto simp: http_scheme_def lower_scheme_def byte_def)

lemma plain_host_bytes: "plain_host h \<Longrightarrow> c \<in> set h \<Longrightarrow> host_char c \<and> byte c < 128 \<and> c \<noteq> CHR ''[''"
  by (auto simp: plain_host_def list_all_iff)

lemma host_char_plain_byte: "host_char c \<Longrightarrow> byte c < 128 \<Longrightarrow> plain_byte c"
  by (auto simp: host_char_def is_alpha_def is_digit_def plain_byte_def byte_def)

lemma origin_trimmed:
  assumes "http_scheme s" and "h \<noteq> []" and "plain_host h"
  shows "trim_space (s @ ''://'' @ h) = s @ ''://'' @ h"
proof (rule trim_space_plain)
  have "last h \<in> set h" using assms(2) by simp
  then have "plain_byte (last h)"
    using plain_host_bytes [OF assms(3)] host_char_plain_byte by blast
  moreover have "plain_byte (hd (s @ ''://'' @ h))"
    using assms(1) by (auto simp: http_scheme_def plain_byte_def)
  ultimately show "plain_byte (hd (s @ ''://'' @ h)) \<and> plain_byte (last (s @ ''://'' @ h))"
    using assms(2) by simp
qed

lemma no_slash_no_wild: "CHR ''/'' \<notin> set h \<Longrightarrow> str_index h ''://*.'' = None"
  by (auto simp: str_index_None)

lemma str_index_wild:
  assumes "http_scheme s" and "CHR ''/'' \<notin> set h"
  shows "str_index (s @ ''://'' @ h) ''://*.'' = (if has_prefix h ''*.'' then Some (length s) else None)"
  using assms no_slash_no_wild [OF assms(2)] by (auto simp: http_scheme_def)

lemma str_index_sep: "http_scheme s \<Longrightarrow> str_index (s @ ''://'' @ h) ''://'' = Some (length s)"
  by (auto simp: http_scheme_def)

lemma plain_host_no_slash: "plain_host h \<Longrightarrow> CHR ''/'' \<notin> set h"
  using plain_host_bytes char_neqs_host by blast

lemma canonical_form_no_newline: "canonical_form c \<Longrightarrow> CHR 0x0A \<notin> set c \<and> c \<noteq> [] \<and> trim_space c = c"
proof -
  assume c: "canonical_form c"
  show ?thesis
  proof (cases "c = ''*''")
    case True
    then show ?thesis by (simp add: trim_space_plain plain_byte_def)
  next
    case False
    with c obtain s h where s: "http_scheme s" and h: "h \<noteq> []" "plain_host h"
      and eq: "c = s @ ''://'' @ h"
      by (auto simp: canonical_form_def)
    have "\<forall>b \<in> set h. \<not> is_ctl b"
      using plain_host_bytes [OF h(2)] char_neqs_host by blast
    then have "CHR 0x0A \<notin> set h" by (auto simp: is_ctl_def byte_def)
    with s origin_trimmed [OF s h] eq show ?thesis by (auto simp: http_scheme_def)
  qed
qed

context url_parser
begin

lemma canonical_origin_fixed:
  assumes "canonical_form c"
  shows "canonical_origin parse c = Inr (Some c)"
proof (cases "c = ''*''")
  case True
  then show ?thesis by (simp add: canonical_origin_def trim_space_plain plain_byte_def)
next
  case False
  with assms obtain s h where s: "http_scheme s" and h: "h \<noteq> []" "plain_host h"
    and eq: "c = s @ ''://'' @ h"
    by (auto simp: canonical_form_def)
  have ns: "s \<noteq> ''''" "s = ''http'' \<or> s = ''https''" using s by (auto simp: http_scheme_def)
  note wild = str_index_wild [OF s plain_host_no_slash [OF h(2)]]
  show ?thesis
  proof (cases "has_prefix h ''*.''")
    case False
    then show ?thesis
      using ns h parse_origin [OF http_scheme_lower [OF s] h(2)] origin_trimmed [OF s h] wild
      unfolding canonical_origin_def eq by (auto simp: contains_def)
  next
    case True
    then obtain x where x: "h = ''*.'' @ x" by (auto simp: has_prefix_iff)
    with h(2) have w: "plain_host (''wildcard.'' @ x)" using plain_host_wild by simp
    show ?thesis
      using True ns h parse_origin [OF http_scheme_lower [OF s] w] origin_trimmed [OF s h] wild
      unfolding canonical_origin_def eq x
      by (auto simp: contains_def replace_first_def trim_prefix_append [of "''wildcard.''", simplified])
  qed
qed

lemma canonical_origin_cases:
  assumes "canonical_origin parse raw = Inr (Some c)" and "c \<noteq> ''*''"
  obtains s u where
    "parse (if contains (trim_space raw) ''://*.''
            then replace_first (trim_space raw) ''://*.'' ''://wildcard.'' else trim_space raw) = Some (s, u)"
    and "u \<noteq> []" and "http_scheme s"
    and "c = s @ ''://'' @
         (if contains (trim_space raw) ''://*.'' then ''*.'' @ trim_prefix u ''wildcard.'' else u)"
proof -
  let ?w = "contains (trim_space raw) ''://*.''"
  let ?check = "if ?w then replace_first (trim_space raw) ''://*.'' ''://wildcard.'' else trim_space raw"
  have ne: "trim_space raw \<noteq> ''''" "trim_space raw \<noteq> ''*''"
    using assms by (auto simp: canonical_origin_def)
  obtain s u where p: "parse ?check = Some (s, u)"
    using assms ne by (cases "parse ?check") (auto simp: canonical_origin_def Let_def)
  have "u \<noteq> []" "http_scheme s"
    "c = s @ ''://'' @ (if ?w then ''*.'' @ trim_prefix u ''wildcard.'' else u)"
    using assms(1) ne p
    by (simp_all only: canonical_origin_def Let_def if_False option.case prod.case http_scheme_def
        split: if_split_asm) simp_all
  then show thesis using p by (rule that [rotated])
qed

lemma canonical_origin_form:
  assumes raw: "simple_url raw" and c: "canonical_origin parse raw = Inr (Some c)"
  shows "canonical_form c"
proof (cases "c = ''*''")
  case False
  let ?o = "trim_space raw"
  let ?check = "if contains ?o ''://*.'' then replace_first ?o ''://*.'' ''://wildcard.'' else ?o"
  obtain s u where p: "parse ?check = Some (s, u)" and u: "u \<noteq> []" and s: "http_scheme s"
    and c': "c = s @ ''://'' @ (if contains ?o ''://*.'' then ''*.'' @ trim_prefix u ''wildcard.'' else u)"
    by (rule canonical_origin_cases [OF c False])
  have o: "simple_url ?o"
    using raw trim_space_subset by (rule simple_url_subset [rotated])
  have "simple_url (?o @ ''://wildcard.'')"
    using o by (simp add: simple_url_def byte_def)
  then have "simple_url (replace_first ?o ''://*.'' ''://wildcard.'')"
    by (rule simple_url_subset [rotated]) (metis replace_first_subset set_append)
  with o have check: "simple_url ?check" by (simp only: split: if_split) blast
  have pu: "plain_host u" by (rule parse_plain [OF check p])
  have "plain_host (trim_prefix u ''wildcard.'')"
  proof (cases "has_prefix u ''wildcard.''")
    case True
    then obtain x where "u = ''wildcard.'' @ x" by (auto simp: has_prefix_iff)
    moreover from this pu have "plain_host ([] @ x)"
      by (intro plain_host_change_prefix [of "''wildcard.''" x "[]"]) simp_all
    ultimately show ?thesis using trim_prefix_append [of "''wildcard.''" x] by simp
  qed (use pu in \<open>simp add: trim_prefix_def\<close>)
  then have "plain_host (''*.'' @ trim_prefix u ''wildcard.'')"
    by (rule plain_host_add_star)
  with pu u s show ?thesis
    unfolding canonical_form_def c' by auto
qed (simp add: canonical_form_def)

lemma normalizeOrigins_canonical:
  assumes "normalizeOrigins parse ins = Inr out" and "\<forall>raw \<in> set ins. simple_url raw"
  shows "distinct out \<and> (\<forall>c \<in> set out. canonical_form c)"
  using assms canonical_origin_form
  by (fastforce simp: normalizeOrigins_spec canonical_of_set simp del: set_concat)

lemma normalizeOrigins_fixed:
  assumes "distinct out" and "\<forall>c \<in> set out. canonical_form c"
  shows "normalizeOrigins parse out = Inr out"
proof -
  have "concat (map (canonical_of parse) out) = out"
    using assms(2) by (induction out) (auto simp: canonical_of_def canonical_origin_fixed)
  with assms show ?thesis
    by (simp add: normalizeOrigins_spec canonical_origin_fixed dedup_distinct)
qed

end

interpretation net_url: url_parser "url_parse lit" for lit
  by unfold_locales (simp_all add: url_parse_origin [simplified] url_parse_simple)

subsection \<open>Properties of normalisation\<close>


text \<open>
  Normalisation is idempotent: origins that were stored once are accepted unchanged when the
  token is updated with them again (for inputs without percent escapes, brackets or non-ASCII bytes).
\<close>

theorem normalizeOrigins_idempotent:
  assumes "normalizeOrigins (url_parse lit) ins = Inr out" and "\<forall>raw \<in> set ins. simple_url raw"
  shows "normalizeOrigins (url_parse lit) out = Inr out"
  using net_url.normalizeOrigins_canonical [OF assms] net_url.normalizeOrigins_fixed by blast

theorem normalizeOrigins_idempotent_witness:
  "normalizeOrigins (url_parse (\<lambda>_. None)) [''https://*.a.io:8443''] = Inr [''https://*.a.io:8443'']"
proof -
  have "normalizeOrigins (url_parse (\<lambda>_. None)) [''HTTPS://*.a.io:8443/p?q''] = Inr [''https://*.a.io:8443'']"
    and "\<forall>raw \<in> set [''HTTPS://*.a.io:8443/p?q'']. simple_url raw"
    by code_simp+
  then show ?thesis by (rule normalizeOrigins_idempotent)
qed

subsection \<open>Properties of the column encoding\<close>

lemma newline_trim: "CHR 0x0A \<notin> set s \<Longrightarrow> CHR 0x0A \<notin> set (trim_space s)"
  using trim_space_subset by blast

text \<open>
  What is read from the \<open>allowed_origins\<close> column is what was written: decoding an encoded list
  gives its entries trimmed and without blanks, as long as no entry contains a line break.
\<close>

theorem decode_encode_origins:
  assumes "\<forall>e \<in> set os. CHR 0x0A \<notin> set (trim_space e)"
  shows "decodeOrigins (encodeOrigins os) = filter (\<lambda>t. t \<noteq> '''') (map trim_space os)"
proof -
  let ?c = "filter (\<lambda>t. t \<noteq> '''') (map trim_space os)"
  have idem: "map trim_space ?c = ?c" by (rule map_idI) auto
  show ?thesis
  proof (cases "?c = []")
    case True
    then show ?thesis by (simp add: decodeOrigins_def encodeOrigins_def)
  next
    case False
    then have ne: "join_with (CHR 0x0A) ?c \<noteq> []"
      by (auto simp: join_with_eq_Nil filter_eq_Cons_iff)
    have "split_on (CHR 0x0A) (join_with (CHR 0x0A) ?c) = ?c"
      using assms False by (intro split_on_join) auto
    with ne idem False show ?thesis
      by (auto simp: decodeOrigins_def encodeOrigins_def)
  qed
qed

theorem decode_encode_origins_witness:
  "decodeOrigins (encodeOrigins ['' a '', '''', ''b'']) = [''a'', ''b'']"
proof -
  have "\<forall>e \<in> set ['' a '', '''', ''b'']. CHR 0x0A \<notin> set (trim_space e)" by code_simp
  moreover have "filter (\<lambda>t. t \<noteq> '''') (map trim_space ['' a '', '''', ''b'']) = [''a'', ''b'']"
    by code_simp
  ultimately show ?thesis using decode_encode_origins by metis
qed

lemma decode_encode_canonical:
  assumes "\<forall>c \<in> set out. canonical_form c"
  shows "decodeOrigins (encodeOrigins out) = out"
proof -
  have "filter (\<lambda>t. t \<noteq> '''') (map trim_space out) = out"
    using assms canonical_form_no_newline
    by (induction out) auto
  moreover have "decodeOrigins (encodeOrigins out) = filter (\<lambda>t. t \<noteq> '''') (map trim_space out)"
  proof (cases "out = []")
    case False
    let ?c = "filter (\<lambda>t. t \<noteq> '''') (map trim_space out)"
    have c: "?c = out" by fact
    have "split_on (CHR 0x0A) (join_with (CHR 0x0A) out) = out"
      using assms canonical_form_no_newline False by (intro split_on_join) auto
    moreover have "join_with (CHR 0x0A) out \<noteq> []"
      using assms canonical_form_no_newline [of "[]"] False by (auto simp: join_with_eq_Nil)
    ultimately show ?thesis using False c by (simp add: decodeOrigins_def encodeOrigins_def)
  qed (simp add: decodeOrigins_def encodeOrigins_def)
  ultimately show ?thesis by simp
qed



subsection \<open>Properties of matching\<close>

text \<open>
  The two copies of the matcher agree: the exported \<open>MatchOrigin\<close> is \<open>matchOrigin\<close> plus the rule
  that an empty list does not restrict, which is how \<open>TokenAuth\<close> uses the unexported one.
\<close>

theorem MatchOrigin_matchOrigin:
  "MatchOrigin allowed origin \<longleftrightarrow> allowed = [] \<or> matchOrigin allowed origin"
  by (simp add: MatchOrigin_def matchOrigin_def)

lemma str_index_append_here:
  assumes "sub \<noteq> []" and "hd sub \<notin> set s" and "has_prefix t sub"
  shows "str_index (s @ t) sub = Some (length s)"
  using assms
proof (induction s)
  case Nil
  then show ?case by (cases t; cases sub) auto
next
  case (Cons c s)
  then show ?case by (cases sub) auto
qed

text \<open>
  C32. What a wildcard entry \<open>scheme://*.domain\<close> lets in: the entry itself, the domain, and the
  subdomains of the domain under the same scheme, and nothing else.  In particular a host that only
  ends with the same letters (\<open>evilexample.com\<close>) is refused.
\<close>

theorem wildcard_entry_matches_iff:
  assumes "http_scheme s" and "CHR '':'' \<notin> set d"
  shows "matchOrigin [s @ ''://*.'' @ d] origin \<longleftrightarrow>
    origin = s @ ''://*.'' @ d \<or> origin = s @ ''://'' @ d \<or> (\<exists>sub. origin = s @ ''://'' @ sub @ ''.'' @ d)"
proof -
  have "CHR '':'' \<notin> set s" using assms(1) by (auto simp: http_scheme_def)
  then have i: "str_index (s @ ''://*.'' @ d) ''://'' = Some (length s)"
    and j: "str_index (s @ ''://*.'' @ d) ''://*.'' = Some (length s)"
    by (simp_all add: str_index_append_here)
  have ns: "s @ ''://*.'' @ d \<noteq> ''*''" "s @ ''://*.'' @ d \<noteq> ''''"
    using assms(1) by (auto simp: http_scheme_def)
  have "matchOrigin [s @ ''://*.'' @ d] origin \<longleftrightarrow> origin \<noteq> '''' \<and>
    (s @ ''://*.'' @ d = origin \<or>
     has_prefix origin (s @ ''://'') \<and>
      (trim_prefix origin (s @ ''://'') = d \<or> has_suffix (trim_prefix origin (s @ ''://'')) (''.'' @ d)))"
    using i j ns(1) by (simp add: matchOrigin_def entry_matches_def Let_def)
  also have "\<dots> \<longleftrightarrow> origin = s @ ''://*.'' @ d \<or> origin = s @ ''://'' @ d
      \<or> (\<exists>sub. origin = s @ ''://'' @ sub @ ''.'' @ d)"
    using ns(2) trim_prefix_append [of "s @ ''://''"]
    by (auto simp: has_prefix_iff has_suffix_iff)
  finally show ?thesis .
qed

theorem wildcard_entry_matches_iff_witness:
  "matchOrigin [''https://*.a.io''] ''https://x.a.io'' \<and> \<not> matchOrigin [''https://*.a.io''] ''https://xa.io''"
proof -
  have h: "http_scheme ''https''" "CHR '':'' \<notin> set ''a.io''" by (simp_all add: http_scheme_def)
  have e: "''https'' @ ''://*.'' @ ''a.io'' = ''https://*.a.io''" by simp
  have "\<exists>sub. ''https://x.a.io'' = ''https'' @ ''://'' @ sub @ ''.'' @ ''a.io''"
    by (rule exI [of _ "''x''"]) simp
  moreover have "\<not> (\<exists>sub. ''https://xa.io'' = ''https'' @ ''://'' @ sub @ ''.'' @ ''a.io'')"
    by (auto simp: Cons_eq_append_conv)
  ultimately show ?thesis
    using wildcard_entry_matches_iff [OF h, of "''https://x.a.io''"]
      wildcard_entry_matches_iff [OF h, of "''https://xa.io''"] unfolding e
    by simp
qed

text \<open>
  Without a star in the list a browser is let in exactly when its origin is listed verbatim, and
  a request without an \<open>Origin\<close> header is never let in.
\<close>

theorem exact_entries_match_iff:
  assumes "\<forall>a \<in> set allowed. CHR ''*'' \<notin> set a"
  shows "matchOrigin allowed origin \<longleftrightarrow> origin \<noteq> '''' \<and> origin \<in> set allowed"
proof -
  have "entry_matches a origin \<longleftrightarrow> a = origin" if "a \<in> set allowed" for a
  proof -
    from assms that have star: "CHR ''*'' \<notin> set a" by blast
    then have "str_index a ''://*.'' = None" by (auto simp: str_index_None)
    with star show ?thesis
      by (auto simp: entry_matches_def split: option.splits)
  qed
  then show ?thesis by (auto simp: matchOrigin_def list_ex_iff)
qed

theorem exact_entries_match_iff_witness:
  "matchOrigin [''https://a.io'', ''http://b.io''] ''http://b.io''
   \<and> \<not> matchOrigin [''https://a.io'', ''http://b.io''] ''https://b.io''"
proof -
  have h: "\<forall>a \<in> set [''https://a.io'', ''http://b.io'']. CHR ''*'' \<notin> set a" by simp
  show ?thesis using exact_entries_match_iff [OF h] by simp
qed

text \<open>
  A defect: \<open>normalizeOrigins\<close> looks for \<open>://*.\<close> anywhere in the entry, so an entry for one
  exact host whose query happens to contain it is stored as a wildcard over all subdomains, and the
  matcher then lets an origin in that the entry does not name.
\<close>

theorem query_turns_exact_into_wildcard:
  "normalizeOrigins (url_parse lit) [''https://a.io/?x=://*.b''] = Inr [''https://*.a.io'']
   \<and> matchOrigin [''https://*.a.io''] ''https://evil.a.io''"
proof -
  have t: "trim_space ''https://a.io/?x=://*.b'' = ''https://a.io/?x=://*.b''" by code_simp
  have w: "str_index ''https://a.io/?x=://*.b'' ''://*.'' = Some 16" by code_simp
  have r: "replace_first ''https://a.io/?x=://*.b'' ''://*.'' ''://wildcard.'' = ''https://a.io/?x=://wildcard.b''"
    by code_simp
  have "url_parse lit ''https://a.io/?x=://wildcard.b'' = Some (''https'', ''a.io'')"
    by code_simp
  then have "canonical_origin (url_parse lit) ''https://a.io/?x=://*.b'' = Inr (Some ''https://*.a.io'')"
    unfolding canonical_origin_def t Let_def contains_def w r
    by (simp add: trim_prefix_def)
  then show ?thesis
    by (simp add: normalizeOrigins_def) code_simp
qed

end
