(* ===== verification/Sqlite_Store.thy ===== *)
theory Sqlite_Store
  imports Store Origins
begin

text \<open>
  \<open>internal/storage/sqlite.go\<close>: every method of \<open>SQLiteStore\<close> as a function on the database state,
  one \<open>run_stmt\<close> per SQL statement, in the order the code issues them.  The body of a statement is
  the documented meaning of its SQL text on the tables, with the constraints of the migration.
\<close>

subsection \<open>Console users\<close>

definition user_conflict :: "ConsoleUser \<Rightarrow> ConsoleUser list \<Rightarrow> bool" where
  "user_conflict u us \<longleftrightarrow>
     cu_username u \<in> set (map cu_username us) \<or>
     (case cu_email u of None \<Rightarrow> False | Some e \<Rightarrow> e \<in> set (emails us))"

definition sqlite_CreateConsoleUser :: "ConsoleUser \<Rightarrow> (ConsoleUser, db) op" where
  "sqlite_CreateConsoleUser user = run_stmt (\<lambda>d.
     let row = user\<lparr>cu_id := next_id (map cu_id (console_users d)), cu_created_at := sqlite_now d\<rparr>
     in if cu_role user \<notin> set roles \<or> user_conflict user (console_users d) then (Inl ErrConstraint, d)
        else (Inr (user\<lparr>cu_id := cu_id row\<rparr>), d\<lparr>console_users := console_users d @ [row]\<rparr>))"

definition sqlite_GetConsoleUserByID :: "int \<Rightarrow> (ConsoleUser, db) op" where
  "sqlite_GetConsoleUserByID i = query (\<lambda>d.
     query_row (scan d (filter (\<lambda>u. cu_id u = i) (console_users d))))"

definition sqlite_GetConsoleUserByLogin :: "string \<Rightarrow> (ConsoleUser, db) op" where
  "sqlite_GetConsoleUserByLogin login = query (\<lambda>d.
     query_row (scan d (filter (\<lambda>u. cu_username u = login \<or> cu_email u = Some login) (console_users d))))"

definition sqlite_UpdateConsoleUser :: "ConsoleUser \<Rightarrow> (unit, db) op" where
  "sqlite_UpdateConsoleUser user = run_stmt (\<lambda>d.
     let others = filter (\<lambda>u. cu_id u \<noteq> cu_id user) (console_users d);
         set_row = (\<lambda>u. u\<lparr>cu_username := cu_username user, cu_email := cu_email user,
                     cu_password_hash := cu_password_hash user, cu_role := cu_role user,
                     cu_totp_secret := cu_totp_secret user, cu_totp_enabled := cu_totp_enabled user\<rparr>)
     in if cu_id user \<notin> set (map cu_id (console_users d)) then (Inr (), d)
        else if cu_role user \<notin> set roles \<or> user_conflict user others then (Inl ErrConstraint, d)
        else (Inr (), d\<lparr>console_users :=
                map (\<lambda>u. if cu_id u = cu_id user then set_row u else u) (console_users d)\<rparr>))"

definition sqlite_DeleteConsoleUser :: "int \<Rightarrow> (unit, db) op" where
  "sqlite_DeleteConsoleUser i = run_stmt (\<lambda>d.
     (Inr (), d\<lparr>console_users := filter (\<lambda>u. cu_id u \<noteq> i) (console_users d)\<rparr>))"

text \<open>The listing does not select the password hash and the TOTP secret.\<close>

definition sqlite_ListConsoleUsers :: "(ConsoleUser list, db) op" where
  "sqlite_ListConsoleUsers = query (\<lambda>d.
     Inr (map (\<lambda>u. u\<lparr>cu_password_hash := '''', cu_totp_secret := None\<rparr>)
            (sort_key cu_created_at (scan d (console_users d)))))"

subsection \<open>Projects\<close>

definition sqlite_CreateProject :: "Project \<Rightarrow> (Project, db) op" where
  "sqlite_CreateProject p = run_stmt (\<lambda>d.
     let row = p\<lparr>prj_id := next_id (map prj_id (projects d)), prj_created_at := sqlite_now d\<rparr>
     in (Inr (p\<lparr>prj_id := prj_id row\<rparr>), d\<lparr>projects := projects d @ [row]\<rparr>))"

definition sqlite_GetProject :: "int \<Rightarrow> (Project, db) op" where
  "sqlite_GetProject i = query (\<lambda>d. query_row (scan d (filter (\<lambda>p. prj_id p = i) (projects d))))"

definition sqlite_UpdateProject :: "Project \<Rightarrow> (unit, db) op" where
  "sqlite_UpdateProject p = run_stmt (\<lambda>d.
     (Inr (), d\<lparr>projects :=
        map (\<lambda>q. if prj_id q = prj_id p
                 then q\<lparr>prj_name := prj_name p, prj_retention_days := prj_retention_days p\<rparr> else q)
          (projects d)\<rparr>))"

text \<open>
  Deleting rows follows the \<open>ON DELETE\<close> clauses: events take their properties along; devices their
  events; users are set to NULL in devices and events; a project takes everything of its own along.
\<close>

definition delete_events :: "(EventRow \<Rightarrow> bool) \<Rightarrow> db \<Rightarrow> db" where
  "delete_events P d =
     (let gone = map e_id (filter P (events d))
      in d\<lparr>events := filter (\<lambda>e. \<not> P e) (events d),
           event_properties := filter (\<lambda>p. ep_event_id p \<notin> set gone) (event_properties d)\<rparr>)"

definition delete_devices :: "(DeviceRow \<Rightarrow> bool) \<Rightarrow> db \<Rightarrow> db" where
  "delete_devices P d =
     (let gone = map d_id (filter P (devices d));
          d' = delete_events (\<lambda>e. e_device_id e \<in> set gone) d
      in d'\<lparr>devices := filter (\<lambda>x. \<not> P x) (devices d')\<rparr>)"

definition clear_ref :: "int list \<Rightarrow> int option \<Rightarrow> int option" where
  "clear_ref gone u = (case u of None \<Rightarrow> None | Some i \<Rightarrow> if i \<in> set gone then None else Some i)"

definition delete_app_users :: "(AppUser \<Rightarrow> bool) \<Rightarrow> db \<Rightarrow> db" where
  "delete_app_users P d =
     (let gone = map au_id (filter P (app_users d))
      in d\<lparr>app_users := filter (\<lambda>u. \<not> P u) (app_users d),
           devices := map (\<lambda>x. x\<lparr>d_user_id := clear_ref gone (d_user_id x)\<rparr>) (devices d),
           events := map (\<lambda>e. e\<lparr>e_user_id := clear_ref gone (e_user_id e)\<rparr>) (events d)\<rparr>)"

definition delete_project :: "int \<Rightarrow> db \<Rightarrow> db" where
  "delete_project i d =
     (let d1 = delete_events (\<lambda>e. e_project_id e = i) d;
          d2 = delete_devices (\<lambda>x. d_project_id x = i) d1;
          d3 = delete_app_users (\<lambda>u. au_project_id u = i) d2
      in d3\<lparr>project_tokens := filter (\<lambda>t. tk_project_id t \<noteq> i) (project_tokens d3),
            projects := filter (\<lambda>p. prj_id p \<noteq> i) (projects d3)\<rparr>)"

definition sqlite_DeleteProject :: "int \<Rightarrow> (unit, db) op" where
  "sqlite_DeleteProject i = run_stmt (\<lambda>d. (Inr (), delete_project i d))"

definition sqlite_ListProjects :: "(Project list, db) op" where
  "sqlite_ListProjects = query (\<lambda>d. Inr (sort_key prj_created_at (scan d (projects d))))"

subsection \<open>Project tokens\<close>

definition token_of_row :: "TokenRow \<Rightarrow> ProjectToken" where
  "token_of_row r =
     \<lparr>tok_id = tk_id r, tok_project_id = tk_project_id r, tok_token = tk_token r, tok_label = tk_label r,
      tok_active = tk_active r, tok_allowed_origins = decodeOrigins (tk_allowed_origins r),
      tok_created_at = tk_created_at r, tok_disabled_at = tk_disabled_at r\<rparr>"

definition sqlite_CreateProjectToken :: "ProjectToken \<Rightarrow> (ProjectToken, db) op" where
  "sqlite_CreateProjectToken t = run_stmt (\<lambda>d.
     let row = \<lparr>tk_id = next_id (map tk_id (project_tokens d)), tk_project_id = tok_project_id t,
                tk_token = tok_token t, tk_label = tok_label t, tk_active = tok_active t,
                tk_allowed_origins = encodeOrigins (tok_allowed_origins t),
                tk_created_at = sqlite_now d, tk_disabled_at = None\<rparr>
     in if tok_token t \<in> set (map tk_token (project_tokens d))
           \<or> tok_project_id t \<notin> set (map prj_id (projects d)) then (Inl ErrConstraint, d)
        else (Inr (t\<lparr>tok_id := tk_id row\<rparr>), d\<lparr>project_tokens := project_tokens d @ [row]\<rparr>))"

definition sqlite_GetProjectTokenByToken :: "string \<Rightarrow> (ProjectToken, db) op" where
  "sqlite_GetProjectTokenByToken token = query (\<lambda>d.
     map_sum id token_of_row
       (query_row (scan d (filter (\<lambda>r. tk_token r = token) (project_tokens d)))))"

definition sqlite_ListProjectTokens :: "int \<Rightarrow> (ProjectToken list, db) op" where
  "sqlite_ListProjectTokens pid = query (\<lambda>d.
     Inr (map token_of_row
       (sort_key tk_created_at (scan d (filter (\<lambda>r. tk_project_id r = pid) (project_tokens d))))))"

definition sqlite_UpdateProjectToken :: "ProjectToken \<Rightarrow> (unit, db) op" where
  "sqlite_UpdateProjectToken t = run_stmt (\<lambda>d.
     (Inr (), d\<lparr>project_tokens :=
        map (\<lambda>r. if tk_id r = tok_id t
                 then r\<lparr>tk_label := tok_label t, tk_active := tok_active t,
                        tk_allowed_origins := encodeOrigins (tok_allowed_origins t),
                        tk_disabled_at := tok_disabled_at t\<rparr> else r)
          (project_tokens d)\<rparr>))"

definition sqlite_DeleteProjectToken :: "int \<Rightarrow> (unit, db) op" where
  "sqlite_DeleteProjectToken i = run_stmt (\<lambda>d.
     (Inr (), d\<lparr>project_tokens := filter (\<lambda>r. tk_id r \<noteq> i) (project_tokens d)\<rparr>))"

subsection \<open>Devices\<close>

definition sqlite_UpsertDevice :: "Device \<Rightarrow> (unit, db) op" where
  "sqlite_UpsertDevice x = run_stmt (\<lambda>d.
     if dev_id x \<in> set (map d_id (devices d)) then
       (Inr (), d\<lparr>devices :=
          map (\<lambda>r. if d_id r = dev_id x
                   then r\<lparr>d_os_version := Some (dev_os_version x), d_app_version := Some (dev_app_version x),
                          d_locale := Some (dev_locale x), d_last_seen_at := sqlite_now d\<rparr> else r)
            (devices d)\<rparr>)
     else if dev_project_id x \<notin> set (map prj_id (projects d)) then (Inl ErrConstraint, d)
     else
       (Inr (), d\<lparr>devices := devices d @
          [\<lparr>d_id = dev_id x, d_project_id = dev_project_id x, d_user_id = None, d_platform = dev_platform x,
            d_os_version = Some (dev_os_version x), d_app_version = Some (dev_app_version x),
            d_locale = Some (dev_locale x), d_first_seen_at = sqlite_now d, d_last_seen_at = sqlite_now d\<rparr>]\<rparr>))"

definition coalesce :: "string option \<Rightarrow> string \<Rightarrow> string" where
  "coalesce c dflt = (case c of None \<Rightarrow> dflt | Some s \<Rightarrow> s)"

definition device_of_row :: "DeviceRow \<Rightarrow> Device" where
  "device_of_row r =
     \<lparr>dev_id = d_id r, dev_project_id = d_project_id r, dev_user_id = d_user_id r, dev_platform = d_platform r,
      dev_os_version = coalesce (d_os_version r) '''', dev_app_version = coalesce (d_app_version r) '''',
      dev_locale = coalesce (d_locale r) '''', dev_first_seen_at = d_first_seen_at r,
      dev_last_seen_at = d_last_seen_at r\<rparr>"

definition sqlite_GetDevice :: "string \<Rightarrow> (Device, db) op" where
  "sqlite_GetDevice i = query (\<lambda>d.
     map_sum id device_of_row (query_row (scan d (filter (\<lambda>r. d_id r = i) (devices d)))))"

definition sqlite_LinkDeviceToUser :: "string \<Rightarrow> int \<Rightarrow> (unit, db) op" where
  "sqlite_LinkDeviceToUser dev uid = run_stmt (\<lambda>d.
     if dev \<notin> set (map d_id (devices d)) then (Inr (), d)
     else if uid \<notin> set (map au_id (app_users d)) then (Inl ErrConstraint, d)
     else (Inr (), d\<lparr>devices :=
             map (\<lambda>r. if d_id r = dev then r\<lparr>d_user_id := Some uid\<rparr> else r) (devices d)\<rparr>))"

subsection \<open>App users\<close>

text \<open>The zero \<open>time.Time\<close>, January 1 of the year 1.\<close>

definition go_zero_time :: instant where
  "go_zero_time = - 62135596800 * 1000000000"

definition sqlite_insert_app_user :: "int \<Rightarrow> string \<Rightarrow> (int, db) op" where
  "sqlite_insert_app_user pid a = run_stmt (\<lambda>d.
     let row = \<lparr>au_id = next_id (map au_id (app_users d)), au_project_id = pid, au_anonymous_id = a,
                au_created_at = sqlite_now d\<rparr>
     in if (pid, a) \<in> set (map (\<lambda>u. (au_project_id u, au_anonymous_id u)) (app_users d))
           \<or> pid \<notin> set (map prj_id (projects d)) then (Inl ErrConstraint, d)
        else (Inr (au_id row), d\<lparr>app_users := app_users d @ [row]\<rparr>))"

definition sqlite_GetOrCreateAppUser :: "int \<Rightarrow> string \<Rightarrow> (AppUser, db) op" where
  "sqlite_GetOrCreateAppUser pid a d0 =
     (case query (\<lambda>d. query_row (scan d
             (filter (\<lambda>u. au_project_id u = pid \<and> au_anonymous_id u = a) (app_users d)))) d0 of
        (Inr u, d1) \<Rightarrow> (Inr u, d1)
      | (Inl err, d1) \<Rightarrow>
          if err \<noteq> ErrNoRows then (Inl err, d1)
          else (case sqlite_insert_app_user pid a d1 of
                  (Inl err, d2) \<Rightarrow> (Inl err, d2)
                | (Inr i, d2) \<Rightarrow>
                    (Inr \<lparr>au_id = i, au_project_id = pid, au_anonymous_id = a,
                          au_created_at = go_zero_time\<rparr>, d2)))"

subsection \<open>Events\<close>

text \<open>
  \<open>INSERT OR IGNORE\<close> skips a row whose primary key is taken; it does not excuse a violated foreign key.
\<close>

definition event_row :: "instant \<Rightarrow> Event \<Rightarrow> EventRow" where
  "event_row now ev =
     \<lparr>e_id = ev_id ev, e_project_id = ev_project_id ev, e_device_id = ev_device_id ev,
      e_user_id = ev_user_id ev, e_name = ev_name ev, e_timestamp = ev_timestamp ev,
      e_ip_address = nullStr (ev_ip_address ev), e_country = nullStr (ev_country ev),
      e_city = nullStr (ev_city ev), e_created_at = now\<rparr>"

definition sqlite_InsertEvent :: "Event \<Rightarrow> (bool, db) op" where
  "sqlite_InsertEvent ev = run_stmt (\<lambda>d.
     if ev_id ev \<in> set (map e_id (events d)) then (Inr False, d)
     else if ev_project_id ev \<notin> set (map prj_id (projects d))
          \<or> ev_device_id ev \<notin> set (map d_id (devices d)) \<or> \<not> user_ref_ok d (ev_user_id ev)
     then (Inl ErrConstraint, d)
     else (Inr True, d\<lparr>events := events d @ [event_row (sqlite_now d) ev]\<rparr>))"

definition nop_stmt :: "(unit, db) op" where
  "nop_stmt = run_stmt (\<lambda>d. (Inr (), d))"

definition sqlite_insert_property :: "EventProperty \<Rightarrow> (unit, db) op" where
  "sqlite_insert_property p = run_stmt (\<lambda>d.
     if ep_value_type p \<notin> set value_types \<or> ep_event_id p \<notin> set (map e_id (events d))
     then (Inl ErrConstraint, d)
     else (Inr (), d\<lparr>event_properties := event_properties d @
             [p\<lparr>ep_id := next_id (map ep_id (event_properties d))\<rparr>]\<rparr>))"

fun sqlite_insert_properties :: "EventProperty list \<Rightarrow> (unit, db) op" where
  "sqlite_insert_properties [] d = (Inr (), d)"
| "sqlite_insert_properties (p # ps) d =
     (case sqlite_insert_property p d of
        (Inl err, d') \<Rightarrow> (Inl err, d')
      | (Inr _, d') \<Rightarrow> sqlite_insert_properties ps d')"

text \<open>The deferred \<open>tx.Rollback()\<close>: the tables of the moment the transaction began.\<close>

definition rollback_to :: "db \<Rightarrow> db \<Rightarrow> db" where
  "rollback_to start d = start\<lparr>db_tick := db_tick d\<rparr>"

definition sqlite_InsertEventProperties :: "EventProperty list \<Rightarrow> (unit, db) op" where
  "sqlite_InsertEventProperties props d0 =
     (case nop_stmt d0 of \<comment> \<open>BeginTx\<close>
        (Inl err, d1) \<Rightarrow> (Inl err, d1)
      | (Inr _, d1) \<Rightarrow>
          (case nop_stmt d1 of \<comment> \<open>PrepareContext\<close>
             (Inl err, d2) \<Rightarrow> (Inl err, rollback_to d1 d2)
           | (Inr _, d2) \<Rightarrow>
               (case sqlite_insert_properties props d2 of
                  (Inl err, d3) \<Rightarrow> (Inl err, rollback_to d1 d3)
                | (Inr _, d3) \<Rightarrow>
                    (case nop_stmt d3 of \<comment> \<open>Commit\<close>
                       (Inl err, d4) \<Rightarrow> (Inl err, rollback_to d1 d4)
                     | (Inr _, d4) \<Rightarrow> (Inr (), d4)))))"

definition sqlite_GetDeviceUserID :: "string \<Rightarrow> (int option, db) op" where
  "sqlite_GetDeviceUserID dev d0 =
     (case query (\<lambda>d. query_row (scan d (filter (\<lambda>r. d_id r = dev) (devices d)))) d0 of
        (Inr r, d1) \<Rightarrow> (Inr (d_user_id r), d1)
      | (Inl err, d1) \<Rightarrow> if err = ErrNoRows then (Inr None, d1) else (Inl err, d1))"

definition sqlite_CleanupEvents :: "int \<Rightarrow> instant \<Rightarrow> (nat, db) op" where
  "sqlite_CleanupEvents pid before = run_stmt (\<lambda>d.
     let P = (\<lambda>e. e_project_id e = pid \<and> e_created_at e < before)
     in (Inr (length (filter P (events d))), delete_events P d))"

definition sqlite_GetProjectsWithRetention :: "(Project list, db) op" where
  "sqlite_GetProjectsWithRetention = query (\<lambda>d.
     Inr (scan d (filter (\<lambda>p. 0 < prj_retention_days p) (projects d))))"

subsection \<open>Analytics\<close>

definition between :: "instant \<Rightarrow> instant \<Rightarrow> instant \<Rightarrow> bool" where
  "between lo hi t \<longleftrightarrow> lo \<le> t \<and> t \<le> hi"

definition events_in :: "int \<Rightarrow> instant \<Rightarrow> instant \<Rightarrow> db \<Rightarrow> EventRow list" where
  "events_in pid lo hi d =
     filter (\<lambda>e. e_project_id e = pid \<and> between lo hi (e_created_at e)) (events d)"

text \<open>\<open>SELECT k, COUNT(*) ... GROUP BY k\<close>, \<open>ORDER BY cnt DESC\<close> and \<open>LIMIT n OFFSET m\<close>.\<close>

definition group_counts :: "'k list \<Rightarrow> ('k \<times> nat) list" where
  "group_counts ks = map (\<lambda>k. (k, count_list ks k)) (remdups ks)"

definition order_by_count :: "('k \<times> nat) list \<Rightarrow> ('k \<times> nat) list" where
  "order_by_count gs = sort_key (\<lambda>g. - int (snd g)) gs"

definition sql_limit :: "int \<Rightarrow> int \<Rightarrow> 'a list \<Rightarrow> 'a list" where
  "sql_limit n m xs = (let ys = drop (nat m) xs in if n < 0 then ys else take (nat n) ys)"

definition event_counts :: "('a \<times> nat) list \<Rightarrow> ('a \<Rightarrow> nat \<Rightarrow> 'b) \<Rightarrow> 'b list" where
  "event_counts gs f = map (\<lambda>(k, c). f k c) gs"

text \<open>A scan whose error the code ignores leaves the zero value.\<close>

definition or_else :: "'a \<Rightarrow> (store_error, 'a) result \<Rightarrow> 'a" where
  "or_else z r = (case r of Inl _ \<Rightarrow> z | Inr x \<Rightarrow> x)"

definition country_count :: "string option \<Rightarrow> nat \<Rightarrow> CountryCount" where
  "country_count c n = \<lparr>cc_country = coalesce c ''Unknown'', cc_count = n\<rparr>"

definition name_count :: "string \<Rightarrow> nat \<Rightarrow> EventCount" where
  "name_count k n = \<lparr>ec_name = k, ec_count = n\<rparr>"

definition sqlite_GetOverview :: "int \<Rightarrow> instant \<Rightarrow> instant \<Rightarrow> (AnalyticsOverview, db) op" where
  "sqlite_GetOverview pid lo hi d0 =
     (let (active, d1) = query (\<lambda>d. Inr (length (remdups (map e_device_id (events_in pid lo hi d))))) d0;
          (total, d2) = query (\<lambda>d. Inr (length (events_in pid lo hi d))) d1;
          (evs, d3) = query (\<lambda>d. Inr (sql_limit 10 0 (order_by_count
             (group_counts (scan d (map e_name (events_in pid lo hi d))))))) d2;
          (countries, d4) = query (\<lambda>d. Inr (sql_limit 10 0 (order_by_count
             (group_counts (scan d (map e_country (events_in pid lo hi d))))))) d3
      in (Inr \<lparr>ao_active_devices = or_else 0 active, ao_total_events = or_else 0 total,
               ao_top_events = event_counts (or_else [] evs) name_count,
               ao_top_countries = event_counts (or_else [] countries) country_count\<rparr>, d4))"

definition sqliteDateFormat :: "string \<Rightarrow> string" where
  "sqliteDateFormat interval =
     (if interval = ''hour'' then ''%Y-%m-%d %H:00''
      else if interval = ''week'' then ''%Y-W%W''
      else if interval = ''month'' then ''%Y-%m''
      else ''%Y-%m-%d'')"

definition time_series :: "string list \<Rightarrow> TimeSeriesPoint list" where
  "time_series periods =
     map (\<lambda>(p, c). \<lparr>tsp_timestamp = p, tsp_count = c\<rparr>) (sort_key fst (group_counts periods))"

definition sqlite_GetEventsAnalytics ::
  "int \<Rightarrow> instant \<Rightarrow> instant \<Rightarrow> string \<Rightarrow> int \<Rightarrow> int \<Rightarrow> (EventsAnalytics, db) op" where
  "sqlite_GetEventsAnalytics pid lo hi interval limit offset d0 =
     (case query (\<lambda>d. Inr (sql_limit limit offset (order_by_count
             (group_counts (scan d (map e_name (events_in pid lo hi d))))))) d0 of
        (Inl err, d1) \<Rightarrow> (Inl err, d1)
      | (Inr evs, d1) \<Rightarrow>
          (let format = sqliteDateFormat interval;
               (series, d2) = query (\<lambda>d. Inr (time_series
                  (map (\<lambda>e. db_strftime d format (e_created_at e)) (events_in pid lo hi d)))) d1
           in (Inr \<lparr>ea_events = event_counts evs name_count, ea_time_series = or_else [] series\<rparr>, d2)))"

definition propertyValueColumn :: "string \<Rightarrow> string" where
  "propertyValueColumn valueType =
     (if valueType = ''int'' then ''value_int''
      else if valueType = ''float'' then ''value_float''
      else if valueType = ''bool'' then ''value_bool''
      else if valueType = ''datetime'' then ''value_datetime''
      else ''value_string'')"

definition column_value :: "string \<Rightarrow> EventProperty \<Rightarrow> sql_value" where
  "column_value col p =
     (if col = ''value_int'' then case_option SqlNull SqlInt (ep_value_int p)
      else if col = ''value_float'' then case_option SqlNull SqlReal (ep_value_float p)
      else if col = ''value_bool'' then case_option SqlNull SqlBool (ep_value_bool p)
      else if col = ''value_datetime'' then case_option SqlNull SqlTime (ep_value_datetime p)
      else case_option SqlNull SqlText (ep_value_string p))"

text \<open>\<open>event_properties ep JOIN events e ON e.id = ep.event_id\<close>, restricted to one event name.\<close>

definition joined_properties :: "int \<Rightarrow> string \<Rightarrow> instant \<Rightarrow> instant \<Rightarrow> db \<Rightarrow> EventProperty list" where
  "joined_properties pid name lo hi d =
     concat (map (\<lambda>p. map (\<lambda>_. p)
       (filter (\<lambda>e. e_id e = ep_event_id p \<and> e_name e = name) (events_in pid lo hi d)))
       (event_properties d))"

fun property_breakdowns :: "int \<Rightarrow> string \<Rightarrow> instant \<Rightarrow> instant \<Rightarrow> (string \<times> string) list \<Rightarrow> db
    \<Rightarrow> PropertyBreakdown list \<times> db" where
  "property_breakdowns pid name lo hi [] d = ([], d)"
| "property_breakdowns pid name lo hi ((key, typ) # rest) d0 =
     (let (vals, d1) = query (\<lambda>d. Inr (sql_limit 20 0 (order_by_count (group_counts (scan d
            (map (column_value (propertyValueColumn typ))
              (filter (\<lambda>p. ep_key p = key) (joined_properties pid name lo hi d)))))))) d0;
          (pbs, d2) = property_breakdowns pid name lo hi rest d1
      in (\<lparr>pb_key = key, pb_type = typ,
           pb_values = event_counts (or_else [] vals) (\<lambda>v n. \<lparr>pv_value = v, pv_count = n\<rparr>)\<rparr> # pbs, d2))"

definition sqlite_GetEventProperties ::
  "int \<Rightarrow> string \<Rightarrow> instant \<Rightarrow> instant \<Rightarrow> int \<Rightarrow> int \<Rightarrow> (PropertyAnalytics, db) op" where
  "sqlite_GetEventProperties pid name lo hi limit offset d0 =
     (case query (\<lambda>d. Inr (sql_limit limit offset (remdups (scan d
             (map (\<lambda>p. (ep_key p, ep_value_type p)) (joined_properties pid name lo hi d)))))) d0 of
        (Inl err, d1) \<Rightarrow> (Inl err, d1)
      | (Inr keys, d1) \<Rightarrow>
          (case property_breakdowns pid name lo hi keys d1 of
             (pbs, d2) \<Rightarrow> (Inr \<lparr>pa_properties = pbs\<rparr>, d2)))"

definition sqlite_GetDevicesAnalytics :: "int \<Rightarrow> instant \<Rightarrow> instant \<Rightarrow> (DevicesAnalytics, db) op" where
  "sqlite_GetDevicesAnalytics pid lo hi = query (\<lambda>d.
     Inr \<lparr>da_platforms = event_counts (order_by_count (group_counts (scan d (map d_platform
        (filter (\<lambda>r. d_project_id r = pid \<and> between lo hi (d_last_seen_at r)) (devices d))))))
        (\<lambda>k n. \<lparr>pc_platform = k, pc_count = n\<rparr>)\<rparr>)"

definition sqlite_GetGeoAnalytics ::
  "int \<Rightarrow> instant \<Rightarrow> instant \<Rightarrow> int \<Rightarrow> int \<Rightarrow> (GeoAnalytics, db) op" where
  "sqlite_GetGeoAnalytics pid lo hi limit offset d0 =
     (case query (\<lambda>d. Inr (sql_limit limit offset (order_by_count
             (group_counts (scan d (map e_country (events_in pid lo hi d))))))) d0 of
        (Inl err, d1) \<Rightarrow> (Inl err, d1)
      | (Inr countries, d1) \<Rightarrow>
          (case query (\<lambda>d. Inr (sql_limit limit offset (order_by_count (group_counts
                  (scan d (map (\<lambda>e. (e_city e, e_country e)) (events_in pid lo hi d))))))) d1 of
             (Inl err, d2) \<Rightarrow> (Inl err, d2)
           | (Inr cities, d2) \<Rightarrow>
               (Inr \<lparr>ga_countries = event_counts countries country_count,
                     ga_cities = event_counts cities (\<lambda>(ci, co) n.
                        \<lparr>cty_city = coalesce ci ''Unknown'', cty_country = coalesce co ''Unknown'',
                         cty_count = n\<rparr>)\<rparr>, d2)))"

definition sqlite_GetUsersAnalytics ::
  "int \<Rightarrow> instant \<Rightarrow> instant \<Rightarrow> string \<Rightarrow> (UsersAnalytics, db) op" where
  "sqlite_GetUsersAnalytics pid lo hi interval d0 =
     (let (total, d1) = query (\<lambda>d. Inr (length (filter (\<lambda>u. au_project_id u = pid) (app_users d)))) d0;
          format = sqliteDateFormat interval;
          (series, d2) = query (\<lambda>d. Inr (time_series (map (\<lambda>u. db_strftime d format (au_created_at u))
             (filter (\<lambda>u. au_project_id u = pid \<and> between lo hi (au_created_at u)) (app_users d))))) d1
      in (Inr \<lparr>ua_time_series = or_else [] series, ua_total = or_else 0 total\<rparr>, d2))"

definition sqlite_GetRetentionAnalytics :: "int \<Rightarrow> instant \<Rightarrow> instant \<Rightarrow> (RetentionAnalytics, db) op" where
  "sqlite_GetRetentionAnalytics pid lo hi d = (Inr \<lparr>ra_cohorts = []\<rparr>, d)"

subsection \<open>The store\<close>

definition SQLiteStore :: "db Store" where
  "SQLiteStore =
     \<lparr>Close = nop_stmt, Ping = nop_stmt,
      CreateConsoleUser = sqlite_CreateConsoleUser, GetConsoleUserByID = sqlite_GetConsoleUserByID,
      GetConsoleUserByLogin = sqlite_GetConsoleUserByLogin, UpdateConsoleUser = sqlite_UpdateConsoleUser,
      DeleteConsoleUser = sqlite_DeleteConsoleUser, ListConsoleUsers = sqlite_ListConsoleUsers,
      CreateProject = sqlite_CreateProject, GetProject = sqlite_GetProject,
      UpdateProject = sqlite_UpdateProject, DeleteProject = sqlite_DeleteProject,
      ListProjects = sqlite_ListProjects, CreateProjectToken = sqlite_CreateProjectToken,
      GetProjectTokenByToken = sqlite_GetProjectTokenByToken, ListProjectTokens = sqlite_ListProjectTokens,
      UpdateProjectToken = sqlite_UpdateProjectToken, DeleteProjectToken = sqlite_DeleteProjectToken,
      UpsertDevice = sqlite_UpsertDevice, GetDevice = sqlite_GetDevice,
      LinkDeviceToUser = sqlite_LinkDeviceToUser, GetOrCreateAppUser = sqlite_GetOrCreateAppUser,
      InsertEvent = sqlite_InsertEvent, InsertEventProperties = sqlite_InsertEventProperties,
      GetDeviceUserID = sqlite_GetDeviceUserID, CleanupEvents = sqlite_CleanupEvents,
      GetOverview = sqlite_GetOverview, GetEventsAnalytics = sqlite_GetEventsAnalytics,
      GetEventProperties = sqlite_GetEventProperties, GetDevicesAnalytics = sqlite_GetDevicesAnalytics,
      GetGeoAnalytics = sqlite_GetGeoAnalytics, GetUsersAnalytics = sqlite_GetUsersAnalytics,
      GetRetentionAnalytics = sqlite_GetRetentionAnalytics,
      GetProjectsWithRetention = sqlite_GetProjectsWithRetention\<rparr>"

end
