(* ===== verification/Sqlite_Ok.thy ===== *)
theory Sqlite_Ok
  imports Sqlite_Store
begin

text \<open>
  Every method of the SQLite store keeps the invariant \<open>db_ok\<close> (keys unique, references resolved,
  checks satisfied), whatever statements fail on the way; hence it holds in every database reachable
  from the empty one through the store's methods.
\<close>

lemmas db_ok_defs = db_ok_def keys_ok_def refs_ok_def checks_ok_def

text \<open>The invariant's conjuncts, for use under a given \<open>db_ok d\<close>.\<close>

lemma db_okD:
  assumes "db_ok d"
  shows "distinct (map prj_id (projects d))" "distinct (map tk_id (project_tokens d))"
    "distinct (map tk_token (project_tokens d))" "distinct (map cu_id (console_users d))"
    "distinct (map cu_username (console_users d))" "distinct (emails (console_users d))"
    "distinct (map au_id (app_users d))"
    "distinct (map (\<lambda>u. (au_project_id u, au_anonymous_id u)) (app_users d))"
    "distinct (map d_id (devices d))" "distinct (map e_id (events d))"
    "distinct (map ep_id (event_properties d))"
    "tk_project_id ` set (project_tokens d) \<subseteq> prj_id ` set (projects d)"
    "au_project_id ` set (app_users d) \<subseteq> prj_id ` set (projects d)"
    "d_project_id ` set (devices d) \<subseteq> prj_id ` set (projects d)"
    "\<forall>x \<in> set (devices d). user_ref_ok d (d_user_id x)"
    "e_project_id ` set (events d) \<subseteq> prj_id ` set (projects d)"
    "e_device_id ` set (events d) \<subseteq> d_id ` set (devices d)"
    "\<forall>x \<in> set (events d). user_ref_ok d (e_user_id x)"
    "ep_event_id ` set (event_properties d) \<subseteq> e_id ` set (events d)"
    "\<forall>u \<in> set (console_users d). cu_role u \<in> set roles"
    "\<forall>p \<in> set (event_properties d). ep_value_type p \<in> set value_types"
  using assms by (simp_all add: db_ok_defs)

subsection \<open>Cascading deletes\<close>

lemma user_ref_ok_cong: "app_users d = app_users d' \<Longrightarrow> user_ref_ok d u = user_ref_ok d' u"
  by (simp add: user_ref_ok_def split: option.split)

lemma delete_events_ok: "db_ok d \<Longrightarrow> db_ok (delete_events P d)"
proof -
  assume ok: "db_ok d"
  let ?d = "delete_events P d"
  have same: "projects ?d = projects d" "project_tokens ?d = project_tokens d"
    "console_users ?d = console_users d" "app_users ?d = app_users d" "devices ?d = devices d"
    and ev: "events ?d = filter (\<lambda>e. \<not> P e) (events d)"
    and ep: "event_properties ?d =
      filter (\<lambda>p. ep_event_id p \<notin> e_id ` {e \<in> set (events d). P e}) (event_properties d)"
    by (simp_all add: delete_events_def Let_def)
  have u: "user_ref_ok ?d x = user_ref_ok d x" for x by (rule user_ref_ok_cong) (rule same)
  have "ep_event_id ` set (event_properties ?d) \<subseteq> e_id ` set (events ?d)"
    using ok image_without [of _ e_id "set (events d)" P] by (auto simp: ev ep db_ok_def refs_ok_def)
  then have "refs_ok ?d"
    using ok unfolding db_ok_def refs_ok_def same u by (simp add: ev image_subset_iff)
  moreover have "keys_ok ?d" "checks_ok ?d"
    using ok by (simp_all add: db_ok_defs ev ep same distinct_map_filter)
  ultimately show ?thesis by (simp add: db_ok_def)
qed

lemma delete_events_frame [simp]:
  "projects (delete_events P d) = projects d" "app_users (delete_events P d) = app_users d"
  "devices (delete_events P d) = devices d" "project_tokens (delete_events P d) = project_tokens d"
  "console_users (delete_events P d) = console_users d" "db_tick (delete_events P d) = db_tick d"
  "events (delete_events P d) = filter (\<lambda>e. \<not> P e) (events d)"
  by (simp_all add: delete_events_def Let_def)

lemma filter_devices_ok:
  assumes "db_ok d" and "\<And>e. e \<in> set (events d) \<Longrightarrow> e_device_id e \<notin> d_id ` {x \<in> set (devices d). P x}"
  shows "db_ok (d\<lparr>devices := filter (\<lambda>x. \<not> P x) (devices d)\<rparr>)"
proof -
  let ?d = "d\<lparr>devices := filter (\<lambda>x. \<not> P x) (devices d)\<rparr>"
  have e: "e_device_id ` set (events d) \<subseteq> d_id ` {x \<in> set (devices d). \<not> P x}"
  proof
    fix y assume y: "y \<in> e_device_id ` set (events d)"
    with assms(1) have "y \<in> d_id ` set (devices d)" unfolding db_ok_def refs_ok_def by blast
    with y assms(2) show "y \<in> d_id ` {x \<in> set (devices d). \<not> P x}"
      by (intro image_without) auto
  qed
  have u: "user_ref_ok ?d x = user_ref_ok d x" for x by (rule user_ref_ok_cong) simp
  have "keys_ok ?d" "checks_ok ?d"
    using assms(1) by (simp_all add: db_ok_defs distinct_map_filter)
  moreover have "refs_ok ?d"
    using assms(1) e unfolding db_ok_def refs_ok_def u by auto
  ultimately show ?thesis by (simp add: db_ok_def)
qed

lemma delete_devices_ok: "db_ok d \<Longrightarrow> db_ok (delete_devices P d)"
  unfolding delete_devices_def Let_def
  by (rule filter_devices_ok) (auto intro: delete_events_ok)

lemma delete_devices_frame [simp]:
  "projects (delete_devices P d) = projects d" "app_users (delete_devices P d) = app_users d"
  "devices (delete_devices P d) = filter (\<lambda>x. \<not> P x) (devices d)"
  "project_tokens (delete_devices P d) = project_tokens d"
  "console_users (delete_devices P d) = console_users d" "db_tick (delete_devices P d) = db_tick d"
  "events (delete_devices P d) = filter (\<lambda>e. e_device_id e \<notin> d_id ` {x \<in> set (devices d). P x}) (events d)"
  by (simp_all add: delete_devices_def Let_def)

lemma clear_ref_ok:
  assumes "user_ref_ok d u" and "app_users d' = filter (\<lambda>x. \<not> P x) (app_users d)"
  shows "user_ref_ok d' (clear_ref (map au_id (filter P (app_users d))) u)"
  using assms by (auto simp: clear_ref_def user_ref_ok_def split: option.splits)

lemma delete_app_users_ok: "db_ok d \<Longrightarrow> db_ok (delete_app_users P d)"
proof -
  assume ok: "db_ok d"
  let ?d = "delete_app_users P d" and ?gone = "map au_id (filter P (app_users d))"
  have au: "app_users ?d = filter (\<lambda>x. \<not> P x) (app_users d)"
    by (simp add: delete_app_users_def Let_def)
  have dv: "devices ?d = map (\<lambda>x. x\<lparr>d_user_id := clear_ref ?gone (d_user_id x)\<rparr>) (devices d)"
    and ev: "events ?d = map (\<lambda>e. e\<lparr>e_user_id := clear_ref ?gone (e_user_id e)\<rparr>) (events d)"
    by (simp_all add: delete_app_users_def Let_def)
  have same: "projects ?d = projects d" "project_tokens ?d = project_tokens d"
    "console_users ?d = console_users d" "event_properties ?d = event_properties d"
    by (simp_all add: delete_app_users_def Let_def)
  have refs: "\<forall>x \<in> set (devices ?d). user_ref_ok ?d (d_user_id x)"
    "\<forall>x \<in> set (events ?d). user_ref_ok ?d (e_user_id x)"
    using ok clear_ref_ok [OF _ au] by (auto simp: db_ok_defs dv ev)
  have "keys_ok ?d" "checks_ok ?d"
    using ok by (simp_all add: db_ok_defs au dv ev same distinct_map_filter o_def)
  moreover have "refs_ok ?d"
    using ok refs unfolding db_ok_def refs_ok_def same
    by (auto simp: au dv ev image_image)
  ultimately show ?thesis by (simp add: db_ok_def)
qed

lemma delete_app_users_frame [simp]:
  "projects (delete_app_users P d) = projects d"
  "app_users (delete_app_users P d) = filter (\<lambda>u. \<not> P u) (app_users d)"
  "map d_project_id (devices (delete_app_users P d)) = map d_project_id (devices d)"
  "map e_project_id (events (delete_app_users P d)) = map e_project_id (events d)"
  "project_tokens (delete_app_users P d) = project_tokens d"
  "console_users (delete_app_users P d) = console_users d" "db_tick (delete_app_users P d) = db_tick d"
  by (simp_all add: delete_app_users_def Let_def o_def)

lemma drop_project_ok:
  assumes "db_ok d" and "i \<notin> au_project_id ` set (app_users d)"
    and "i \<notin> d_project_id ` set (devices d)" and "i \<notin> e_project_id ` set (events d)"
  shows "db_ok (d\<lparr>project_tokens := filter (\<lambda>t. tk_project_id t \<noteq> i) (project_tokens d),
                projects := filter (\<lambda>p. prj_id p \<noteq> i) (projects d)\<rparr>)"
proof -
  have sub: "A \<subseteq> prj_id ` {p \<in> set (projects d). prj_id p \<noteq> i}"
    if "A \<subseteq> prj_id ` set (projects d)" and "i \<notin> A" for A
    using that by auto
  have r: "au_project_id ` set (app_users d) \<subseteq> prj_id ` {p \<in> set (projects d). prj_id p \<noteq> i}"
    "d_project_id ` set (devices d) \<subseteq> prj_id ` {p \<in> set (projects d). prj_id p \<noteq> i}"
    "e_project_id ` set (events d) \<subseteq> prj_id ` {p \<in> set (projects d). prj_id p \<noteq> i}"
    "tk_project_id ` {t \<in> set (project_tokens d). tk_project_id t \<noteq> i}
      \<subseteq> prj_id ` {p \<in> set (projects d). prj_id p \<noteq> i}"
    using assms by (intro sub; auto simp: db_ok_defs)+
  let ?d = "d\<lparr>project_tokens := filter (\<lambda>t. tk_project_id t \<noteq> i) (project_tokens d),
                projects := filter (\<lambda>p. prj_id p \<noteq> i) (projects d)\<rparr>"
  have u: "user_ref_ok ?d x = user_ref_ok d x" for x by (rule user_ref_ok_cong) simp
  have "keys_ok ?d" "checks_ok ?d"
    using assms(1) by (simp_all add: db_ok_defs distinct_map_filter)
  moreover have "refs_ok ?d"
    using assms(1) r unfolding db_ok_def refs_ok_def u by simp
  ultimately show ?thesis by (simp add: db_ok_def)
qed

lemma delete_project_ok: "db_ok d \<Longrightarrow> db_ok (delete_project i d)"
  unfolding delete_project_def Let_def
proof (rule drop_project_ok)
  assume ok: "db_ok d"
  let ?d2 = "delete_devices (\<lambda>x. d_project_id x = i) (delete_events (\<lambda>e. e_project_id e = i) d)"
  let ?d3 = "delete_app_users (\<lambda>u. au_project_id u = i) ?d2"
  show "db_ok ?d3"
    using ok by (intro delete_app_users_ok delete_devices_ok delete_events_ok)
  show "i \<notin> au_project_id ` set (app_users ?d3)" by auto
  have "d_project_id ` set (devices ?d3) = set (map d_project_id (devices ?d2))"
    using delete_app_users_frame(3) by (metis list.set_map)
  then show "i \<notin> d_project_id ` set (devices ?d3)" by auto
  have "e_project_id ` set (events ?d3) = set (map e_project_id (events ?d2))"
    using delete_app_users_frame(4) by (metis list.set_map)
  then show "i \<notin> e_project_id ` set (events ?d3)" by auto
qed

subsection \<open>Statements\<close>

lemma emails_append: "emails (us @ vs) = emails us @ emails vs"
  by (simp add: emails_def List.map_filter_def)

lemma emails_Cons: "emails (u # us) = (case cu_email u of None \<Rightarrow> emails us | Some e \<Rightarrow> e # emails us)"
  by (simp add: emails_def List.map_filter_def split: option.split)

lemma emails_Nil [simp]: "emails [] = []"
  by (simp add: emails_def List.map_filter_def)

lemma set_emails: "e \<in> set (emails us) \<longleftrightarrow> (\<exists>u \<in> set us. cu_email u = Some e)"
  by (induction us) (auto simp: emails_Cons split: option.splits)

lemma distinct_emails_filter: "distinct (emails us) \<Longrightarrow> distinct (emails (filter P us))"
  by (induction us) (auto simp: emails_Cons set_emails split: option.splits)

lemma users_changed_ok:
  assumes "db_ok d" and "distinct (map cu_id us)" and "distinct (map cu_username us)"
    and "distinct (emails us)" and "\<forall>u \<in> set us. cu_role u \<in> set roles"
  shows "db_ok (d\<lparr>console_users := us\<rparr>)"
proof -
  have u: "user_ref_ok (d\<lparr>console_users := us\<rparr>) x = user_ref_ok d x" for x
    by (rule user_ref_ok_cong) simp
  show ?thesis using assms by (simp add: db_ok_defs u)
qed

lemma create_user_ok: "sqlite_CreateConsoleUser u d = (r, d') \<Longrightarrow> db_ok d \<Longrightarrow> db_ok d'"
  unfolding sqlite_CreateConsoleUser_def
proof (elim run_stmt_ok)
  fix r' d''
  assume ok: "db_ok d"
    and body: "(let row = u\<lparr>cu_id := next_id (map cu_id (console_users d)), cu_created_at := sqlite_now d\<rparr>
     in if cu_role u \<notin> set roles \<or> user_conflict u (console_users d) then (Inl ErrConstraint, d)
        else (Inr (u\<lparr>cu_id := cu_id row\<rparr>), d\<lparr>console_users := console_users d @ [row]\<rparr>)) = (r', d'')"
  show "db_ok d''"
  proof (cases "cu_role u \<notin> set roles \<or> user_conflict u (console_users d)")
    case True
    with body ok show ?thesis by (simp add: Let_def)
  next
    case False
    let ?row = "u\<lparr>cu_id := next_id (map cu_id (console_users d)), cu_created_at := sqlite_now d\<rparr>"
    have "d'' = d\<lparr>console_users := console_users d @ [?row]\<rparr>"
      using False body by (auto simp: Let_def)
    moreover have "db_ok (d\<lparr>console_users := console_users d @ [?row]\<rparr>)"
      using ok False next_id_notin [of "map cu_id (console_users d)"]
      by (intro users_changed_ok)
         (auto simp: db_ok_defs user_conflict_def emails_append emails_Cons split: option.splits)
    ultimately show ?thesis by simp
  qed
qed

lemma set_row_keys:
  assumes "distinct (map f us)" and "\<And>u. u \<in> set us \<Longrightarrow> cu_id u \<noteq> i \<Longrightarrow> f u \<noteq> k"
    and "\<And>u. cu_id u = i \<Longrightarrow> f (g u) = k" and "distinct (map cu_id us)"
  shows "distinct (map f (map (\<lambda>u. if cu_id u = i then g u else u) us))"
  using assms
proof (induction us)
  case (Cons a us)
  show ?case
  proof (cases "cu_id a = i")
    case True
    with Cons.prems have "\<forall>u \<in> set us. cu_id u \<noteq> i" by (auto simp: image_iff)
    then have m: "map (\<lambda>u. if cu_id u = i then g u else u) us = us" and "k \<notin> f ` set us"
      using Cons.prems(2) by (auto intro: map_idI)
    with True Cons.prems(1,3) show ?thesis by simp
  next
    case False
    with Cons show ?thesis by (auto simp: image_iff split: if_splits)
  qed
qed simp

lemma emails_update:
  assumes "distinct (emails us)" and "distinct (map cu_id us)" and "cu_email (g (u :: ConsoleUser)) = em"
    and "\<And>u. cu_email (g u) = em"
    and "\<And>e. em = Some e \<Longrightarrow> e \<notin> set (emails (filter (\<lambda>u. cu_id u \<noteq> i) us))"
  shows "distinct (emails (map (\<lambda>u. if cu_id u = i then g u else u) us))"
  using assms
proof (induction us)
  case (Cons a us)
  show ?case
  proof (cases "cu_id a = i")
    case True
    with Cons.prems have n: "\<forall>u \<in> set us. cu_id u \<noteq> i" by (auto simp: image_iff)
    then have m: "map (\<lambda>u. if cu_id u = i then g u else u) us = us" by (auto intro: map_idI)
    from n have "filter (\<lambda>u. cu_id u \<noteq> i) us = us" by simp
    with True m Cons.prems show ?thesis
      by (auto simp: emails_Cons split: option.splits)
  next
    case False
    have sub: "e \<in> set (emails (map (\<lambda>u. if cu_id u = i then g u else u) us)) \<Longrightarrow>
        e \<in> set (emails us) \<or> em = Some e" for e
      using Cons.prems(4) by (auto simp: set_emails split: if_splits)
    have "distinct (emails (map (\<lambda>u. if cu_id u = i then g u else u) us))"
      using False Cons.prems by (intro Cons.IH) (auto simp: emails_Cons split: option.splits)
    with False Cons.prems sub show ?thesis
      by (auto simp: emails_Cons split: option.splits)
  qed
qed simp

lemma update_user_ok: "sqlite_UpdateConsoleUser u d = (q, d') \<Longrightarrow> db_ok d \<Longrightarrow> db_ok d'"
  unfolding sqlite_UpdateConsoleUser_def
proof (elim run_stmt_ok)
  fix r' d''
  let ?set = "\<lambda>x. x\<lparr>cu_username := cu_username u, cu_email := cu_email u,
                     cu_password_hash := cu_password_hash u, cu_role := cu_role u,
                     cu_totp_secret := cu_totp_secret u, cu_totp_enabled := cu_totp_enabled u\<rparr>"
  let ?us = "map (\<lambda>x. if cu_id x = cu_id u then ?set x else x) (console_users d)"
  assume ok: "db_ok d"
    and body: "(let others = filter (\<lambda>x. cu_id x \<noteq> cu_id u) (console_users d); set_row = ?set
     in if cu_id u \<notin> set (map cu_id (console_users d)) then (Inr (), d)
        else if cu_role u \<notin> set roles \<or> user_conflict u others then (Inl ErrConstraint, d)
        else (Inr (), d\<lparr>console_users :=
                map (\<lambda>x. if cu_id x = cu_id u then set_row x else x) (console_users d)\<rparr>)) = (r', d'')"
  have keys: "distinct (map cu_id (console_users d))" "distinct (map cu_username (console_users d))"
    "distinct (emails (console_users d))" "\<forall>x \<in> set (console_users d). cu_role x \<in> set roles"
    using ok by (simp_all add: db_ok_defs)
  show "db_ok d''"
  proof (cases "d'' = d")
    case False
    with body have role: "cu_role u \<in> set roles"
      and nc: "\<not> user_conflict u (filter (\<lambda>x. cu_id x \<noteq> cu_id u) (console_users d))"
      and d'': "d'' = d\<lparr>console_users := ?us\<rparr>"
      by (auto simp: Let_def split: if_splits)
    show ?thesis unfolding d''
    proof (rule users_changed_ok [OF ok])
      show "distinct (map cu_id ?us)" by (subst map_key_update) (simp_all add: keys)
      show "distinct (map cu_username ?us)"
        using nc by (intro set_row_keys [where k = "cu_username u"] keys)
          (auto simp: user_conflict_def image_iff)
      show "distinct (emails ?us)"
        using nc by (intro emails_update [where em = "cu_email u"] keys) (auto simp: user_conflict_def)
      show "\<forall>x \<in> set ?us. cu_role x \<in> set roles" using role keys(4) by auto
    qed
  qed (use ok in simp)
qed

lemma delete_user_ok: "sqlite_DeleteConsoleUser i d = (q, d') \<Longrightarrow> db_ok d \<Longrightarrow> db_ok d'"
  unfolding sqlite_DeleteConsoleUser_def
proof (elim run_stmt_ok)
  fix r' d'' assume ok: "db_ok d"
    and body: "(Inr (), d\<lparr>console_users := filter (\<lambda>u. cu_id u \<noteq> i) (console_users d)\<rparr>) = (r', d'')"
  then show "db_ok d''"
    using users_changed_ok [OF ok, of "filter (\<lambda>u. cu_id u \<noteq> i) (console_users d)"]
    by (auto simp: db_ok_def keys_ok_def checks_ok_def distinct_map_filter distinct_emails_filter)
qed

subsection \<open>One table at a time\<close>

lemma projects_changed_ok:
  assumes "db_ok d" and "distinct (map prj_id ps)"
    and "prj_id ` set (projects d) \<subseteq> prj_id ` set ps"
  shows "db_ok (d\<lparr>projects := ps\<rparr>)"
proof -
  have u: "user_ref_ok (d\<lparr>projects := ps\<rparr>) x = user_ref_ok d x" for x
    by (rule user_ref_ok_cong) simp
  have "refs_ok (d\<lparr>projects := ps\<rparr>)"
    using assms unfolding db_ok_def refs_ok_def u by (simp add: subset_trans [OF _ assms(3)])
  with assms show ?thesis by (simp add: db_ok_def keys_ok_def checks_ok_def)
qed

lemma tokens_changed_ok:
  assumes "db_ok d" and "distinct (map tk_id ts)" and "distinct (map tk_token ts)"
    and "tk_project_id ` set ts \<subseteq> prj_id ` set (projects d)"
  shows "db_ok (d\<lparr>project_tokens := ts\<rparr>)"
proof -
  have u: "user_ref_ok (d\<lparr>project_tokens := ts\<rparr>) x = user_ref_ok d x" for x
    by (rule user_ref_ok_cong) simp
  from assms show ?thesis by (simp add: db_ok_defs u)
qed

lemma devices_changed_ok:
  assumes "db_ok d" and "distinct (map d_id xs)" and "d_id ` set (devices d) \<subseteq> d_id ` set xs"
    and "d_project_id ` set xs \<subseteq> prj_id ` set (projects d)"
    and "\<forall>x \<in> set xs. user_ref_ok d (d_user_id x)"
  shows "db_ok (d\<lparr>devices := xs\<rparr>)"
proof -
  have u: "user_ref_ok (d\<lparr>devices := xs\<rparr>) x = user_ref_ok d x" for x
    by (rule user_ref_ok_cong) simp
  have "refs_ok (d\<lparr>devices := xs\<rparr>)"
    using assms unfolding db_ok_def refs_ok_def u by (simp add: subset_trans [OF _ assms(3)])
  with assms show ?thesis by (simp add: db_ok_def keys_ok_def checks_ok_def)
qed

lemma app_users_added_ok:
  assumes "db_ok d" and "au_id u \<notin> au_id ` set (app_users d)"
    and "(au_project_id u, au_anonymous_id u) \<notin> (\<lambda>u. (au_project_id u, au_anonymous_id u)) ` set (app_users d)"
    and "au_project_id u \<in> prj_id ` set (projects d)"
  shows "db_ok (d\<lparr>app_users := app_users d @ [u]\<rparr>)"
proof -
  have u: "user_ref_ok d x \<Longrightarrow> user_ref_ok (d\<lparr>app_users := app_users d @ [u]\<rparr>) x" for x
    by (auto simp: user_ref_ok_def split: option.splits)
  from assms show ?thesis by (simp add: db_ok_defs u)
qed

lemma events_added_ok:
  assumes "db_ok d" and "e_id e \<notin> e_id ` set (events d)"
    and "e_project_id e \<in> prj_id ` set (projects d)" and "e_device_id e \<in> d_id ` set (devices d)"
    and "user_ref_ok d (e_user_id e)"
  shows "db_ok (d\<lparr>events := events d @ [e]\<rparr>)"
proof -
  have u: "user_ref_ok (d\<lparr>events := events d @ [e]\<rparr>) x = user_ref_ok d x" for x
    by (rule user_ref_ok_cong) simp
  have "ep_event_id ` set (event_properties d) \<subseteq> insert (e_id e) (e_id ` set (events d))"
    using assms(1) by (auto simp: db_ok_def refs_ok_def)
  with assms show ?thesis by (simp add: db_ok_defs u)
qed

lemma property_added_ok:
  assumes "db_ok d" and "ep_id p \<notin> ep_id ` set (event_properties d)"
    and "ep_event_id p \<in> e_id ` set (events d)" and "ep_value_type p \<in> set value_types"
  shows "db_ok (d\<lparr>event_properties := event_properties d @ [p]\<rparr>)"
proof -
  have u: "user_ref_ok (d\<lparr>event_properties := event_properties d @ [p]\<rparr>) x = user_ref_ok d x" for x
    by (rule user_ref_ok_cong) simp
  from assms show ?thesis by (simp add: db_ok_defs u)
qed

subsection \<open>The remaining methods\<close>

lemma create_project_ok: "sqlite_CreateProject p d = (r, d') \<Longrightarrow> db_ok d \<Longrightarrow> db_ok d'"
  unfolding sqlite_CreateProject_def
proof (elim run_stmt_ok)
  fix r' d'' assume ok: "db_ok d"
  let ?row = "p\<lparr>prj_id := next_id (map prj_id (projects d)), prj_created_at := sqlite_now d\<rparr>"
  assume "(let row = ?row in (Inr (p\<lparr>prj_id := prj_id row\<rparr>), d\<lparr>projects := projects d @ [row]\<rparr>)) = (r', d'')"
  moreover have "db_ok (d\<lparr>projects := projects d @ [?row]\<rparr>)"
    using next_id_notin [of "map prj_id (projects d)"]
    by (intro projects_changed_ok ok) (auto simp: db_okD [OF ok])
  ultimately show "db_ok d''" by (auto simp: Let_def)
qed

lemma update_project_ok: "sqlite_UpdateProject p d = (q, d') \<Longrightarrow> db_ok d \<Longrightarrow> db_ok d'"
  unfolding sqlite_UpdateProject_def
proof (elim run_stmt_ok)
  fix r' d'' assume ok: "db_ok d"
  let ?g = "\<lambda>x. x\<lparr>prj_name := prj_name p, prj_retention_days := prj_retention_days p\<rparr>"
  let ?ps = "map (\<lambda>x. if prj_id x = prj_id p then ?g x else x) (projects d)"
  assume body: "(Inr (), d\<lparr>projects := ?ps\<rparr>) = (r', d'')"
  have ids: "map prj_id ?ps = map prj_id (projects d)" by (rule map_key_update) simp
  then have "prj_id ` set ?ps = prj_id ` set (projects d)" by (metis list.set_map)
  then have "db_ok (d\<lparr>projects := ?ps\<rparr>)"
    by (intro projects_changed_ok ok) (simp_all only: ids db_okD [OF ok])
  then show "db_ok d''" using body by simp
qed

lemma delete_project_method_ok: "sqlite_DeleteProject i d = (q, d') \<Longrightarrow> db_ok d \<Longrightarrow> db_ok d'"
  unfolding sqlite_DeleteProject_def
  by (elim run_stmt_ok) (auto intro: delete_project_ok)

lemma create_token_ok: "sqlite_CreateProjectToken t d = (r, d') \<Longrightarrow> db_ok d \<Longrightarrow> db_ok d'"
  unfolding sqlite_CreateProjectToken_def
proof (elim run_stmt_ok)
  fix r' d'' assume ok: "db_ok d"
  let ?row = "\<lparr>tk_id = next_id (map tk_id (project_tokens d)), tk_project_id = tok_project_id t,
                tk_token = tok_token t, tk_label = tok_label t, tk_active = tok_active t,
                tk_allowed_origins = encodeOrigins (tok_allowed_origins t),
                tk_created_at = sqlite_now d, tk_disabled_at = None\<rparr>"
  let ?bad = "tok_token t \<in> set (map tk_token (project_tokens d))
           \<or> tok_project_id t \<notin> set (map prj_id (projects d))"
  assume body: "(let row = ?row in if ?bad then (Inl ErrConstraint, d)
        else (Inr (t\<lparr>tok_id := tk_id row\<rparr>), d\<lparr>project_tokens := project_tokens d @ [row]\<rparr>)) = (r', d'')"
  have "db_ok (d\<lparr>project_tokens := project_tokens d @ [?row]\<rparr>)" if "\<not> ?bad"
    using that next_id_notin [of "map tk_id (project_tokens d)"]
    by (intro tokens_changed_ok ok) (simp_all add: db_okD [OF ok])
  with body ok show "db_ok d''" by (auto simp: Let_def split: if_splits)
qed

lemma update_token_ok: "sqlite_UpdateProjectToken t d = (q, d') \<Longrightarrow> db_ok d \<Longrightarrow> db_ok d'"
  unfolding sqlite_UpdateProjectToken_def
proof (elim run_stmt_ok)
  fix r' d'' assume ok: "db_ok d"
  let ?g = "\<lambda>r. r\<lparr>tk_label := tok_label t, tk_active := tok_active t,
                   tk_allowed_origins := encodeOrigins (tok_allowed_origins t),
                   tk_disabled_at := tok_disabled_at t\<rparr>"
  let ?ts = "map (\<lambda>r. if tk_id r = tok_id t then ?g r else r) (project_tokens d)"
  assume body: "(Inr (), d\<lparr>project_tokens := ?ts\<rparr>) = (r', d'')"
  have m: "map tk_id ?ts = map tk_id (project_tokens d)" "map tk_token ?ts = map tk_token (project_tokens d)"
    "map tk_project_id ?ts = map tk_project_id (project_tokens d)"
    by (rule map_key_update; simp)+
  then have "tk_project_id ` set ?ts = tk_project_id ` set (project_tokens d)" by (metis list.set_map)
  moreover have "db_ok (d\<lparr>project_tokens := ?ts\<rparr>)"
    using calculation by (intro tokens_changed_ok ok) (simp_all only: m db_okD [OF ok])
  ultimately show "db_ok d''" using body by simp
qed

lemma delete_token_ok: "sqlite_DeleteProjectToken i d = (q, d') \<Longrightarrow> db_ok d \<Longrightarrow> db_ok d'"
  unfolding sqlite_DeleteProjectToken_def
proof (elim run_stmt_ok)
  fix r' d'' assume ok: "db_ok d"
    and body: "(Inr (), d\<lparr>project_tokens := filter (\<lambda>r. tk_id r \<noteq> i) (project_tokens d)\<rparr>) = (r', d'')"
  have "db_ok (d\<lparr>project_tokens := filter (\<lambda>r. tk_id r \<noteq> i) (project_tokens d)\<rparr>)"
    using db_okD(12) [OF ok]
    by (intro tokens_changed_ok ok) (auto simp: db_okD(2,3) [OF ok] distinct_map_filter)
  then show "db_ok d''" using body by simp
qed

lemma device_upserted_ok:
  assumes ok: "db_ok d"
    and body: "(if dev_id x \<in> set (map d_id (devices d)) then
        (Inr (), d\<lparr>devices := map (\<lambda>r. if d_id r = dev_id x
            then r\<lparr>d_os_version := Some (dev_os_version x), d_app_version := Some (dev_app_version x),
                   d_locale := Some (dev_locale x), d_last_seen_at := now\<rparr> else r) (devices d)\<rparr>)
      else if dev_project_id x \<notin> set (map prj_id (projects d)) then (Inl ErrConstraint, d)
      else (Inr (), d\<lparr>devices := devices d @
         [\<lparr>d_id = dev_id x, d_project_id = dev_project_id x, d_user_id = None, d_platform = dev_platform x,
           d_os_version = Some (dev_os_version x), d_app_version = Some (dev_app_version x),
           d_locale = Some (dev_locale x), d_first_seen_at = now, d_last_seen_at = now\<rparr>]\<rparr>)) = (r', d'')"
  shows "db_ok d''"
proof -
  let ?g = "\<lambda>r. r\<lparr>d_os_version := Some (dev_os_version x), d_app_version := Some (dev_app_version x),
                   d_locale := Some (dev_locale x), d_last_seen_at := now\<rparr>"
  let ?xs = "map (\<lambda>r. if d_id r = dev_id x then ?g r else r) (devices d)"
  let ?row = "\<lparr>d_id = dev_id x, d_project_id = dev_project_id x, d_user_id = None, d_platform = dev_platform x,
            d_os_version = Some (dev_os_version x), d_app_version = Some (dev_app_version x),
            d_locale = Some (dev_locale x), d_first_seen_at = now, d_last_seen_at = now\<rparr>"
  have m: "map d_id ?xs = map d_id (devices d)" "map d_project_id ?xs = map d_project_id (devices d)"
    "map d_user_id ?xs = map d_user_id (devices d)"
    by (rule map_key_update; simp)+
  then have s: "d_id ` set ?xs = d_id ` set (devices d)"
    "d_project_id ` set ?xs = d_project_id ` set (devices d)"
    "d_user_id ` set ?xs = d_user_id ` set (devices d)"
    by (metis list.set_map)+
  have u: "\<forall>y \<in> set ?xs. user_ref_ok d (d_user_id y)"
    using db_okD(15) [OF ok] s(3) by (metis (no_types, lifting) image_iff)
  have "db_ok (d\<lparr>devices := ?xs\<rparr>)"
    by (rule devices_changed_ok [OF ok]) (use u in \<open>simp_all only: m s db_okD [OF ok]\<close>)
  moreover have "db_ok (d\<lparr>devices := devices d @ [?row]\<rparr>)"
    if "dev_id x \<notin> set (map d_id (devices d))" "dev_project_id x \<in> set (map prj_id (projects d))"
    using that by (intro devices_changed_ok ok) (auto simp: db_okD [OF ok] user_ref_ok_def [of d None])
  ultimately show "db_ok d''" using body ok by (auto split: if_splits)
qed

lemma upsert_device_ok: "sqlite_UpsertDevice x d = (q, d') \<Longrightarrow> db_ok d \<Longrightarrow> db_ok d'"
  unfolding sqlite_UpsertDevice_def by (elim run_stmt_ok) (assumption, rule device_upserted_ok)

lemma link_device_ok: "sqlite_LinkDeviceToUser dv uid d = (q, d') \<Longrightarrow> db_ok d \<Longrightarrow> db_ok d'"
  unfolding sqlite_LinkDeviceToUser_def
proof (elim run_stmt_ok)
  fix r' d'' assume ok: "db_ok d"
  let ?xs = "map (\<lambda>r. if d_id r = dv then r\<lparr>d_user_id := Some uid\<rparr> else r) (devices d)"
  assume body: "(if dv \<notin> set (map d_id (devices d)) then (Inr (), d)
     else if uid \<notin> set (map au_id (app_users d)) then (Inl ErrConstraint, d)
     else (Inr (), d\<lparr>devices := ?xs\<rparr>)) = (r', d'')"
  have m: "map d_id ?xs = map d_id (devices d)" "map d_project_id ?xs = map d_project_id (devices d)"
    by (rule map_key_update; simp)+
  then have s: "d_id ` set ?xs = d_id ` set (devices d)"
    "d_project_id ` set ?xs = d_project_id ` set (devices d)"
    by (metis list.set_map)+
  have "db_ok (d\<lparr>devices := ?xs\<rparr>)" if "uid \<in> set (map au_id (app_users d))"
  proof (rule devices_changed_ok [OF ok])
    show "\<forall>y \<in> set ?xs. user_ref_ok d (d_user_id y)"
      using that db_okD(15) [OF ok] by (auto simp: user_ref_ok_def)
  qed (simp_all only: m s db_okD [OF ok])
  then show "db_ok d''" using body ok by (auto split: if_splits)
qed

lemma insert_app_user_ok: "sqlite_insert_app_user p a d = (r, d') \<Longrightarrow> db_ok d \<Longrightarrow> db_ok d'"
  unfolding sqlite_insert_app_user_def
proof (elim run_stmt_ok)
  fix r' d'' assume ok: "db_ok d"
  let ?row = "\<lparr>au_id = next_id (map au_id (app_users d)), au_project_id = p, au_anonymous_id = a,
                au_created_at = sqlite_now d\<rparr>"
  let ?bad = "(p, a) \<in> set (map (\<lambda>u. (au_project_id u, au_anonymous_id u)) (app_users d))
           \<or> p \<notin> set (map prj_id (projects d))"
  assume body: "(let row = ?row in if ?bad then (Inl ErrConstraint, d)
        else (Inr (au_id row), d\<lparr>app_users := app_users d @ [row]\<rparr>)) = (r', d'')"
  have "db_ok (d\<lparr>app_users := app_users d @ [?row]\<rparr>)" if "\<not> ?bad"
    using that next_id_notin [of "map au_id (app_users d)"]
    by (intro app_users_added_ok ok) simp_all
  with body ok show "db_ok d''" by (auto simp: Let_def split: if_splits)
qed

lemma get_or_create_user_ok: "sqlite_GetOrCreateAppUser p a d = (r, d') \<Longrightarrow> db_ok d \<Longrightarrow> db_ok d'"
  unfolding sqlite_GetOrCreateAppUser_def
  by (auto split: prod.splits sum.splits if_splits dest: query_ok insert_app_user_ok)

end
