(* ===== verification/Sqlite_Events.thy ===== *)
theory Sqlite_Events
  imports Sqlite_Ok
begin

text \<open>
  The ingestion, identity and token methods of the SQLite store: what each returns and what it
  leaves in the tables.  The three contracts of \<open>Store\<close> are interpreted here on \<open>SQLiteStore\<close>.
\<close>

subsection \<open>Inserting events and properties\<close>

lemma insert_event_ok: "sqlite_InsertEvent ev d = (r, d') \<Longrightarrow> db_ok d \<Longrightarrow> db_ok d'"
  unfolding sqlite_InsertEvent_def
proof (elim run_stmt_ok)
  fix r' d'' assume ok: "db_ok d"
  let ?bad = "ev_project_id ev \<notin> set (map prj_id (projects d))
          \<or> ev_device_id ev \<notin> set (map d_id (devices d)) \<or> \<not> user_ref_ok d (ev_user_id ev)"
  let ?d = "d\<lparr>events := events d @ [event_row (sqlite_now d) ev]\<rparr>"
  assume body: "(if ev_id ev \<in> set (map e_id (events d)) then (Inr False, d)
     else if ?bad then (Inl ErrConstraint, d) else (Inr True, ?d)) = (r', d'')"
  have "db_ok ?d" if "\<not> ?bad" "ev_id ev \<notin> set (map e_id (events d))"
    using that by (intro events_added_ok ok) (simp_all add: event_row_def)
  with body ok show "db_ok d''" by (auto split: if_splits)
qed

lemma insert_property_ok: "sqlite_insert_property p d = (r, d') \<Longrightarrow> db_ok d \<Longrightarrow> db_ok d'"
  unfolding sqlite_insert_property_def
proof (elim run_stmt_ok)
  fix r' d'' assume ok: "db_ok d"
  let ?bad = "ep_value_type p \<notin> set value_types \<or> ep_event_id p \<notin> set (map e_id (events d))"
  let ?d = "d\<lparr>event_properties := event_properties d @
             [p\<lparr>ep_id := next_id (map ep_id (event_properties d))\<rparr>]\<rparr>"
  assume body: "(if ?bad then (Inl ErrConstraint, d) else (Inr (), ?d)) = (r', d'')"
  have "db_ok ?d" if "\<not> ?bad"
    using that next_id_notin [of "map ep_id (event_properties d)"]
    by (intro property_added_ok ok) simp_all
  with body ok show "db_ok d''" by (auto split: if_splits)
qed

lemma insert_properties_ok: "sqlite_insert_properties ps d = (r, d') \<Longrightarrow> db_ok d \<Longrightarrow> db_ok d'"
  by (induction ps arbitrary: d) (auto split: prod.splits sum.splits dest: insert_property_ok)

text \<open>What the connection's settings and the other tables are, before and after.\<close>

definition same_but_props :: "db \<Rightarrow> db \<Rightarrow> bool" where
  "same_but_props d d' \<longleftrightarrow> d' = d\<lparr>db_tick := db_tick d', event_properties := event_properties d'\<rparr>"

lemma same_but_props_refl [simp]: "same_but_props d d"
  by (simp add: same_but_props_def)

lemma same_but_props_trans: "same_but_props d1 d2 \<Longrightarrow> same_but_props d2 d3 \<Longrightarrow> same_but_props d1 d3"
  by (cases d1; cases d2; cases d3) (simp add: same_but_props_def)

lemma same_but_propsD:
  assumes "same_but_props d d'"
  shows "events d' = events d" "devices d' = devices d" "db_fault d' = db_fault d"
  using arg_cong [OF assms [unfolded same_but_props_def], of events]
    arg_cong [OF assms [unfolded same_but_props_def], of devices]
    arg_cong [OF assms [unfolded same_but_props_def], of db_fault] by simp_all

lemma insert_property_same: "sqlite_insert_property p d = (r, d') \<Longrightarrow> same_but_props d d'"
  by (auto simp: sqlite_insert_property_def run_stmt_def same_but_props_def tick_db_def
      split: if_splits)

lemma insert_properties_same: "sqlite_insert_properties ps d = (r, d') \<Longrightarrow> same_but_props d d'"
  by (induction ps arbitrary: d)
     (auto split: prod.splits sum.splits dest: insert_property_same intro: same_but_props_trans)

lemma insert_property_Inr:
  "sqlite_insert_property p d = (Inr u, d') \<longleftrightarrow>
     \<not> db_fault d (db_tick d) \<and> ep_value_type p \<in> set value_types \<and> ep_event_id p \<in> e_id ` set (events d) \<and>
     d' = tick_db (d\<lparr>event_properties := event_properties d @
             [p\<lparr>ep_id := next_id (map ep_id (event_properties d))\<rparr>]\<rparr>)"
  by (auto simp: sqlite_insert_property_def run_stmt_def split: if_splits)

lemma strip_id_update [simp]: "strip_id (p\<lparr>ep_id := i\<rparr>) = strip_id p"
  by (simp add: strip_id_def)

lemma insert_properties_rows:
  "sqlite_insert_properties ps d = (Inr u, d') \<Longrightarrow>
     map strip_id (event_properties d') = map strip_id (event_properties d) @ map strip_id ps"
  by (induction ps arbitrary: d)
     (auto simp: insert_property_Inr split: prod.splits sum.splits)

lemma rollback_to_simps [simp]:
  "events (rollback_to d d') = events d" "event_properties (rollback_to d d') = event_properties d"
  "devices (rollback_to d d') = devices d"
  by (simp_all add: rollback_to_def)

lemma rollback_to_ok [simp]: "db_ok (rollback_to d d') = db_ok d"
  by (simp add: rollback_to_def db_ok_def keys_ok_def refs_ok_def checks_ok_def user_ref_ok_def
      cong: option.case_cong)

lemma nop_stmt_state: "nop_stmt d = (r, d') \<Longrightarrow> d' = tick_db d"
  by (auto simp: nop_stmt_def run_stmt_def split: if_splits)

lemma insert_event_properties_ok:
  assumes "sqlite_InsertEventProperties ps d = (r, d')" and "db_ok d"
  shows "db_ok d'"
proof -
  have "db_ok d4" if "sqlite_insert_properties ps (tick_db (tick_db d)) = (q, d3)" "d4 = tick_db d3" for q d3 d4
    using that insert_properties_ok assms(2) by simp
  then show ?thesis
    using assms unfolding sqlite_InsertEventProperties_def
    by (auto split: prod.splits sum.splits dest!: nop_stmt_state)
qed

text \<open>The transaction: all properties are added, in order, or the table is as before.\<close>

lemma insert_event_properties_atomic:
  assumes "sqlite_InsertEventProperties ps d = (r, d')"
  shows "events d' = events d"
    and "is_ok r \<Longrightarrow> map strip_id (event_properties d') = map strip_id (event_properties d) @ map strip_id ps"
    and "\<not> is_ok r \<Longrightarrow> event_properties d' = event_properties d"
proof -
  have ev: "events d3 = events d" if "sqlite_insert_properties ps (tick_db (tick_db d)) = (q, d3)" for q d3
    using same_but_propsD(1) [OF insert_properties_same [OF that]] by simp
  show "events d' = events d"
    using assms unfolding sqlite_InsertEventProperties_def
    by (auto split: prod.splits sum.splits dest!: nop_stmt_state simp: ev)
qed (use assms in \<open>auto simp: sqlite_InsertEventProperties_def split: prod.splits sum.splits
      dest!: nop_stmt_state dest: insert_properties_rows\<close>)

subsection \<open>Views of the tables\<close>

definition row_at :: "('a \<Rightarrow> 'k) \<Rightarrow> 'a list \<Rightarrow> 'k \<Rightarrow> 'a option" where
  "row_at key rows k = find (\<lambda>r. key r = k) rows"

lemma row_at_None: "row_at key rows k = None \<longleftrightarrow> k \<notin> key ` set rows"
  by (auto simp: row_at_def find_None)

lemma row_at_Some: "row_at key rows k = Some r \<Longrightarrow> r \<in> set rows \<and> key r = k"
  by (auto simp: row_at_def dest: find_set)

lemma row_at_in: "distinct (map key rows) \<Longrightarrow> r \<in> set rows \<Longrightarrow> row_at key rows (key r) = Some r"
  by (auto simp: row_at_def find_Some_distinct)

lemma row_at_snoc:
  "key r \<notin> key ` set rows \<Longrightarrow> row_at key (rows @ [r]) = (row_at key rows)(key r \<mapsto> r)"
  by (induction rows) (auto simp: row_at_def fun_eq_iff)

lemma row_at_update:
  assumes "\<And>r. key (g r) = key r"
  shows "row_at key (map (\<lambda>r. if key r = k then g r else r) rows) =
    (case row_at key rows k of None \<Rightarrow> row_at key rows | Some r \<Rightarrow> (row_at key rows)(k \<mapsto> g r))"
  by (induction rows) (auto simp: row_at_def fun_eq_iff assms split: option.splits)

text \<open>The query for one row by its key returns that row.\<close>

lemma filter_key_row_at:
  assumes "distinct (map key rows)"
  shows "filter (\<lambda>r. key r = k) rows = (case row_at key rows k of None \<Rightarrow> [] | Some r \<Rightarrow> [r])"
  using assms
proof (induction rows)
  case (Cons a rows)
  then have "filter (\<lambda>r. key r = key a) rows = []" by (fastforce simp: filter_empty_conv image_iff)
  then show ?case using Cons by (auto simp: row_at_def)
qed (simp add: row_at_def)

lemma query_row_key:
  assumes "distinct (map key rows)"
  shows "query_row (scan d (filter (\<lambda>r. key r = k) rows)) =
    (case row_at key rows k of None \<Rightarrow> Inl ErrNoRows | Some r \<Rightarrow> Inr r)"
  by (simp add: filter_key_row_at [OF assms] split: option.split)

definition events_of :: "db \<Rightarrow> string \<Rightarrow> EventRow option" where
  "events_of d = row_at e_id (events d)"

definition props_of :: "db \<Rightarrow> EventProperty list" where
  "props_of d = map strip_id (event_properties d)"

definition token_of :: "db \<Rightarrow> string \<Rightarrow> ProjectToken option" where
  "token_of d t = map_option token_of_row (row_at tk_token (project_tokens d) t)"

definition user_of :: "db \<Rightarrow> int \<times> string \<Rightarrow> int option" where
  "user_of d k = map_option au_id (row_at (\<lambda>u. (au_project_id u, au_anonymous_id u)) (app_users d) k)"

definition link_of :: "db \<Rightarrow> string \<Rightarrow> int option option" where
  "link_of d x = map_option d_user_id (row_at d_id (devices d) x)"

lemma view_tick [simp]:
  "events_of (tick_db d) = events_of d" "props_of (tick_db d) = props_of d"
  "token_of (tick_db d) = token_of d" "user_of (tick_db d) = user_of d" "link_of (tick_db d) = link_of d"
  by (simp_all add: events_of_def props_of_def token_of_def user_of_def link_of_def fun_eq_iff)

subsection \<open>The contracts of the interface, on SQLite\<close>

lemma event_row_stored: "stored_as ev (event_row now ev)"
  by (simp add: stored_as_def event_row_def)

lemma events_of_insert:
  assumes "sqlite_InsertEvent ev d = (r, d')"
  shows "r = Inr True \<Longrightarrow> events_of d (ev_id ev) = None \<and>
           (\<exists>e. stored_as ev e \<and> events_of d' = (events_of d)(ev_id ev \<mapsto> e))"
    and "r = Inr False \<Longrightarrow> events_of d (ev_id ev) \<noteq> None \<and> events_of d' = events_of d"
    and "\<not> is_ok r \<Longrightarrow> events_of d' = events_of d"
    and "props_of d' = props_of d"
proof -
  have id: "e_id (event_row n ev) = ev_id ev" for n by (simp add: event_row_def)
  show "r = Inr True \<Longrightarrow> events_of d (ev_id ev) = None \<and>
           (\<exists>e. stored_as ev e \<and> events_of d' = (events_of d)(ev_id ev \<mapsto> e))"
    using assms event_row_stored [of ev "sqlite_now d"]
      row_at_snoc [of e_id "event_row (sqlite_now d) ev" "events d"]
    by (auto simp: sqlite_InsertEvent_def run_stmt_Inr events_of_def row_at_None id split: if_splits)
qed (use assms in \<open>auto simp: sqlite_InsertEvent_def run_stmt_def events_of_def props_of_def row_at_None
      split: if_splits\<close>)

lemma events_of_insert_props:
  assumes "sqlite_InsertEventProperties ps d = (r, d')"
  shows "events_of d' = events_of d"
    and "is_ok r \<Longrightarrow> props_of d' = props_of d @ map strip_id ps"
    and "\<not> is_ok r \<Longrightarrow> props_of d' = props_of d"
  using insert_event_properties_atomic [OF assms] by (auto simp: events_of_def props_of_def)

lemma device_user_state:
  "sqlite_GetDeviceUserID dev d = (r, d') \<Longrightarrow> d' = tick_db d"
  by (auto simp: sqlite_GetDeviceUserID_def split: prod.splits sum.splits if_splits dest: query_Pair)

lemma device_user_link:
  "sqlite_GetDeviceUserID dev d = (Inr u, d') \<Longrightarrow> db_ok d \<Longrightarrow>
     u = (case link_of d dev of None \<Rightarrow> None | Some v \<Rightarrow> v)"
  using query_row_key [OF db_okD(9), of d d dev]
  by (auto simp: sqlite_GetDeviceUserID_def query_def run_stmt_def link_of_def
      split: prod.splits sum.splits if_splits option.splits)

interpretation sqlite_events: event_store SQLiteStore db_ok events_of props_of
proof
  fix ev s r s'
  assume "InsertEvent SQLiteStore ev s = (r, s')"
  then have i: "sqlite_InsertEvent ev s = (r, s')" by (simp add: SQLiteStore_def)
  then show "db_ok s \<Longrightarrow> db_ok s'" by (rule insert_event_ok)
  show "props_of s' = props_of s" by (rule events_of_insert(4) [OF i])
next
  fix ev s s'
  assume "InsertEvent SQLiteStore ev s = (Inr True, s')"
  then have i: "sqlite_InsertEvent ev s = (Inr True, s')" by (simp add: SQLiteStore_def)
  show "events_of s (ev_id ev) = None \<and> (\<exists>e. stored_as ev e \<and> events_of s' = (events_of s)(ev_id ev \<mapsto> e))"
    by (rule events_of_insert(1) [OF i refl])
next
  fix ev s s'
  assume "InsertEvent SQLiteStore ev s = (Inr False, s')"
  then have i: "sqlite_InsertEvent ev s = (Inr False, s')" by (simp add: SQLiteStore_def)
  show "events_of s (ev_id ev) \<noteq> None \<and> events_of s' = events_of s"
    by (rule events_of_insert(2) [OF i refl])
next
  fix ev s s' x
  assume "InsertEvent SQLiteStore ev s = (Inl x, s')"
  then have i: "sqlite_InsertEvent ev s = (Inl x, s')" by (simp add: SQLiteStore_def)
  show "events_of s' = events_of s" by (rule events_of_insert(3) [OF i]) simp
next
  fix ps s q s'
  assume "InsertEventProperties SQLiteStore ps s = (q, s')"
  then have i: "sqlite_InsertEventProperties ps s = (q, s')" by (simp add: SQLiteStore_def)
  then show "db_ok s \<Longrightarrow> db_ok s'" by (rule insert_event_properties_ok)
  show "events_of s' = events_of s" by (rule events_of_insert_props(1) [OF i])
next
  fix ps s u s'
  assume "InsertEventProperties SQLiteStore ps s = (Inr u, s')"
  then have i: "sqlite_InsertEventProperties ps s = (Inr u, s')" by (simp add: SQLiteStore_def)
  show "props_of s' = props_of s @ map strip_id ps" by (rule events_of_insert_props(2) [OF i]) simp
next
  fix ps s x s'
  assume "InsertEventProperties SQLiteStore ps s = (Inl x, s')"
  then have i: "sqlite_InsertEventProperties ps s = (Inl x, s')" by (simp add: SQLiteStore_def)
  show "props_of s' = props_of s" by (rule events_of_insert_props(3) [OF i]) simp
next
  fix dev s u' s'
  assume "GetDeviceUserID SQLiteStore dev s = (u', s')"
  then have t: "s' = tick_db s" by (auto simp: SQLiteStore_def dest: device_user_state)
  then show "db_ok s \<Longrightarrow> db_ok s'" "events_of s' = events_of s" "props_of s' = props_of s" by simp_all
qed

lemma get_token_result:
  "sqlite_GetProjectTokenByToken t d = (Inr pt, d') \<Longrightarrow> db_ok d \<Longrightarrow> token_of d t = Some pt"
  using query_row_key [OF db_okD(3), of d d t]
  by (auto simp: sqlite_GetProjectTokenByToken_def query_Inr token_of_def split: option.splits)

interpretation sqlite_tokens: token_store SQLiteStore db_ok token_of
proof
  fix t s r s'
  assume "GetProjectTokenByToken SQLiteStore t s = (r, s')"
  then have "s' = tick_db s"
    by (auto simp: SQLiteStore_def sqlite_GetProjectTokenByToken_def dest: query_Pair)
  then show "db_ok s \<Longrightarrow> db_ok s'" "token_of s' = token_of s" by simp_all
next
  fix t s pt s'
  assume "GetProjectTokenByToken SQLiteStore t s = (Inr pt, s')" "db_ok s"
  then show "token_of s t = Some pt" by (auto simp: SQLiteStore_def intro: get_token_result)
next
  fix s t pt
  assume "token_of s t = Some pt"
  then show "tok_token pt = t" by (auto simp: token_of_def token_of_row_def dest: row_at_Some)
qed

abbreviation user_key :: "AppUser \<Rightarrow> int \<times> string" where
  "user_key u \<equiv> (au_project_id u, au_anonymous_id u)"

lemma find_user:
  assumes "db_ok d"
  shows "query_row (scan d' (filter (\<lambda>u. au_project_id u = p \<and> au_anonymous_id u = a) (app_users d))) =
    (case row_at user_key (app_users d) (p, a) of None \<Rightarrow> Inl ErrNoRows | Some u \<Rightarrow> Inr u)"
  using query_row_key [OF db_okD(8) [OF assms], of d' "(p, a)"] by simp

lemma insert_app_user_Inr:
  "sqlite_insert_app_user p a d = (Inr i, d') \<longleftrightarrow>
     \<not> db_fault d (db_tick d) \<and> (p, a) \<notin> user_key ` set (app_users d) \<and>
     p \<in> prj_id ` set (projects d) \<and> i = next_id (map au_id (app_users d)) \<and>
     d' = tick_db (d\<lparr>app_users := app_users d @
            [\<lparr>au_id = i, au_project_id = p, au_anonymous_id = a, au_created_at = sqlite_now d\<rparr>]\<rparr>)"
  by (auto simp: sqlite_insert_app_user_def run_stmt_Inr Let_def split: if_splits)

lemma insert_app_user_Inl: "sqlite_insert_app_user p a d = (Inl x, d') \<Longrightarrow> d' = tick_db d"
  by (auto simp: sqlite_insert_app_user_def run_stmt_def Let_def split: if_splits)

lemma ran_user_of: "ran (user_of d) \<subseteq> au_id ` set (app_users d)"
  by (auto simp: user_of_def ran_def dest: row_at_Some)

lemma get_or_create_found:
  assumes "sqlite_GetOrCreateAppUser p a d = (r, d')" and ok: "db_ok d"
    and u: "row_at user_key (app_users d) (p, a) = Some u"
  shows "d' = tick_db d \<and> (is_ok r \<longrightarrow> r = Inr u)"
  using assms(1) find_user [OF ok, of d p a] u
  by (auto simp: sqlite_GetOrCreateAppUser_def query_def run_stmt_def split: if_splits)

lemma get_or_create_absent:
  assumes "sqlite_GetOrCreateAppUser p a d = (r, d')" and ok: "db_ok d"
    and u: "row_at user_key (app_users d) (p, a) = None"
  shows "(\<exists>x. r = Inl x) \<and> (d' = tick_db d \<or> d' = tick_db (tick_db d)) \<or>
    (\<exists>u d1. r = Inr u \<and> au_project_id u = p \<and> au_anonymous_id u = a \<and>
       d1 = tick_db d \<and> sqlite_insert_app_user p a d1 = (Inr (au_id u), d'))"
  using assms(1) find_user [OF ok, of d p a] u
  by (auto simp: sqlite_GetOrCreateAppUser_def query_def run_stmt_def split: if_splits prod.splits sum.splits
      dest: insert_app_user_Inl)

lemma user_of_insert:
  assumes "sqlite_insert_app_user p a d = (Inr i, d')"
  shows "user_of d (p, a) = None" "user_of d' = (user_of d)((p, a) \<mapsto> i)" "i \<notin> ran (user_of d)"
    "link_of d' = link_of d"
proof -
  let ?u = "\<lparr>au_id = i, au_project_id = p, au_anonymous_id = a, au_created_at = sqlite_now d\<rparr>"
  have new: "(p, a) \<notin> user_key ` set (app_users d)" and i: "i = next_id (map au_id (app_users d))"
    and d': "d' = tick_db (d\<lparr>app_users := app_users d @ [?u]\<rparr>)"
    using assms by (simp_all add: insert_app_user_Inr)
  show "user_of d (p, a) = None" using new by (simp add: user_of_def row_at_None)
  show "user_of d' = (user_of d)((p, a) \<mapsto> i)"
    using row_at_snoc [of user_key ?u "app_users d"] new by (simp add: d' user_of_def fun_eq_iff)
  show "i \<notin> ran (user_of d)"
    using ran_user_of [of d] next_id_notin [of "map au_id (app_users d)"] i by auto
  show "link_of d' = link_of d" by (simp add: d' link_of_def fun_eq_iff)
qed

lemma link_device_view:
  assumes "sqlite_LinkDeviceToUser dev uid d = (r, d')"
  shows "user_of d' = user_of d"
    and "is_ok r \<Longrightarrow> link_of d' = (if link_of d dev = None then link_of d else (link_of d)(dev \<mapsto> Some uid))"
    and "\<not> is_ok r \<Longrightarrow> link_of d' = link_of d"
proof -
  have up: "row_at d_id (map (\<lambda>r. if d_id r = x then r\<lparr>d_user_id := Some i\<rparr> else r) (devices d)) =
    (case row_at d_id (devices d) x of None \<Rightarrow> row_at d_id (devices d)
     | Some r \<Rightarrow> (row_at d_id (devices d))(x \<mapsto> r\<lparr>d_user_id := Some i\<rparr>))" for x i
    by (rule row_at_update) simp
  show "is_ok r \<Longrightarrow> link_of d' = (if link_of d dev = None then link_of d else (link_of d)(dev \<mapsto> Some uid))"
    using assms row_at_None [of d_id "devices d" dev]
    by (auto simp: sqlite_LinkDeviceToUser_def run_stmt_def link_of_def fun_eq_iff up
        split: if_splits option.splits)
qed (use assms in \<open>auto simp: sqlite_LinkDeviceToUser_def run_stmt_def link_of_def user_of_def
      split: if_splits\<close>)

interpretation sqlite_users: identity_store SQLiteStore db_ok user_of link_of
proof
  fix p a s r s'
  assume "GetOrCreateAppUser SQLiteStore p a s = (r, s')" and ok: "db_ok s"
  then have g: "sqlite_GetOrCreateAppUser p a s = (r, s')" by (simp add: SQLiteStore_def)
  show "db_ok s'" by (rule get_or_create_user_ok [OF g ok])
  show "link_of s' = link_of s"
    using get_or_create_found [OF g ok] get_or_create_absent [OF g ok] user_of_insert(4)
    by (cases "row_at user_key (app_users s) (p, a)") force+
next
  fix p a s u s'
  assume "GetOrCreateAppUser SQLiteStore p a s = (Inr u, s')" and ok: "db_ok s"
  then have g: "sqlite_GetOrCreateAppUser p a s = (Inr u, s')" by (simp add: SQLiteStore_def)
  show "au_project_id u = p \<and> au_anonymous_id u = a \<and> user_of s' = (user_of s)((p, a) \<mapsto> au_id u) \<and>
          (case user_of s (p, a) of Some i \<Rightarrow> au_id u = i | None \<Rightarrow> au_id u \<notin> ran (user_of s))"
  proof (cases "row_at user_key (app_users s) (p, a)")
    case None
    with get_or_create_absent [OF g ok None] have
      "sqlite_insert_app_user p a (tick_db s) = (Inr (au_id u), s')" "au_project_id u = p" "au_anonymous_id u = a"
      by auto
    with user_of_insert [OF this(1)] show ?thesis by simp
  next
    case (Some v)
    with get_or_create_found [OF g ok Some] row_at_Some [OF Some] show ?thesis
      by (auto simp: user_of_def fun_eq_iff)
  qed
next
  fix p a s e s'
  assume "GetOrCreateAppUser SQLiteStore p a s = (Inl e, s')" and ok: "db_ok s"
  then have g: "sqlite_GetOrCreateAppUser p a s = (Inl e, s')" by (simp add: SQLiteStore_def)
  show "user_of s' = user_of s"
    using get_or_create_found [OF g ok] get_or_create_absent [OF g ok]
    by (cases "row_at user_key (app_users s) (p, a)") auto
next
  fix dev uid s q s'
  assume "LinkDeviceToUser SQLiteStore dev uid s = (q, s')"
  then have l: "sqlite_LinkDeviceToUser dev uid s = (q, s')" by (simp add: SQLiteStore_def)
  then show "db_ok s \<Longrightarrow> db_ok s'" by (rule link_device_ok)
  show "user_of s' = user_of s" by (rule link_device_view(1) [OF l])
next
  fix dev uid s x s'
  assume "LinkDeviceToUser SQLiteStore dev uid s = (Inr x, s')"
  then have l: "sqlite_LinkDeviceToUser dev uid s = (Inr x, s')" by (simp add: SQLiteStore_def)
  show "link_of s' = (if link_of s dev = None then link_of s else (link_of s)(dev \<mapsto> Some uid))"
    by (rule link_device_view(2) [OF l]) simp
next
  fix dev uid s e s'
  assume "LinkDeviceToUser SQLiteStore dev uid s = (Inl e, s')"
  then have l: "sqlite_LinkDeviceToUser dev uid s = (Inl e, s')" by (simp add: SQLiteStore_def)
  show "link_of s' = link_of s" by (rule link_device_view(3) [OF l]) simp
qed

end
