(* ===== verification/Sqlite_Reach.thy ===== *)
theory Sqlite_Reach
  imports Sqlite_Events
begin

text \<open>
  The databases a run of the server can reach: an empty schema, then any sequence of calls of the
  store's methods, with any of their statements failing.  The constraints of the schema hold in all
  of them; the further lemmas state what the deleting and reading methods do.
\<close>

subsection \<open>Reading methods\<close>

definition same_tables :: "db \<Rightarrow> db \<Rightarrow> bool" where
  "same_tables d d' \<longleftrightarrow> d' = d\<lparr>db_tick := db_tick d'\<rparr>"

lemma same_tables_refl [simp]: "same_tables d d"
  by (simp add: same_tables_def)

lemma same_tables_tick [simp]: "same_tables d (tick_db d)"
  by (simp add: same_tables_def tick_db_def)

lemma same_tables_trans: "same_tables d1 d2 \<Longrightarrow> same_tables d2 d3 \<Longrightarrow> same_tables d1 d3"
  by (cases d1; cases d2; cases d3) (simp add: same_tables_def)

lemma same_tables_ok:
  assumes "same_tables d d'" and "db_ok d"
  shows "db_ok d'"
proof -
  have "db_ok (d\<lparr>db_tick := db_tick d'\<rparr>)"
    using assms(2) by (simp add: db_ok_defs user_ref_ok_def cong: option.case_cong)
  then show ?thesis using assms(1) by (simp add: same_tables_def)
qed

lemma same_tables_events: "same_tables d d' \<Longrightarrow> events d' = events d"
  by (cases d; cases d') (simp add: same_tables_def)

lemma query_same: "query q d = (r, d') \<Longrightarrow> same_tables d d'"
  by (auto dest: query_Pair)

lemma property_breakdowns_same: "property_breakdowns p n lo hi ks d = (r, d') \<Longrightarrow> same_tables d d'"
proof (induction ks arbitrary: d r)
  case (Cons k ks)
  then show ?case
    by (cases k) (auto simp: Let_def split: prod.splits dest: query_same intro: same_tables_trans)
qed simp

lemma reads_same:
  "sqlite_GetConsoleUserByID i d = (r1, d') \<Longrightarrow> same_tables d d'"
  "sqlite_GetConsoleUserByLogin l d = (r1, d') \<Longrightarrow> same_tables d d'"
  "sqlite_ListConsoleUsers d = (r2, d') \<Longrightarrow> same_tables d d'"
  "sqlite_GetProject i d = (r3, d') \<Longrightarrow> same_tables d d'"
  "sqlite_ListProjects d = (r4, d') \<Longrightarrow> same_tables d d'"
  "sqlite_GetProjectsWithRetention d = (r4, d') \<Longrightarrow> same_tables d d'"
  "sqlite_GetProjectTokenByToken t d = (r5, d') \<Longrightarrow> same_tables d d'"
  "sqlite_ListProjectTokens i d = (r6, d') \<Longrightarrow> same_tables d d'"
  "sqlite_GetDevice x d = (r7, d') \<Longrightarrow> same_tables d d'"
  "sqlite_GetDevicesAnalytics i lo hi d = (r8, d') \<Longrightarrow> same_tables d d'"
  "sqlite_GetDeviceUserID x d = (r9, d') \<Longrightarrow> same_tables d d'"
  "sqlite_GetRetentionAnalytics i lo hi d = (r10, d') \<Longrightarrow> same_tables d d'"
  "nop_stmt d = (r11, d') \<Longrightarrow> same_tables d d'"
  unfolding sqlite_GetConsoleUserByID_def sqlite_GetConsoleUserByLogin_def
  sqlite_ListConsoleUsers_def sqlite_GetProject_def sqlite_ListProjects_def
  sqlite_GetProjectsWithRetention_def sqlite_GetProjectTokenByToken_def sqlite_ListProjectTokens_def
  sqlite_GetDevice_def sqlite_GetDevicesAnalytics_def sqlite_GetRetentionAnalytics_def
  by (auto dest: query_same device_user_state nop_stmt_state)

lemma get_overview_same: "sqlite_GetOverview p lo hi d = (r, d') \<Longrightarrow> same_tables d d'"
  by (auto simp: sqlite_GetOverview_def Let_def split: prod.splits dest!: query_same
      intro: same_tables_trans)

lemma get_events_analytics_same: "sqlite_GetEventsAnalytics p lo hi iv n m d = (r, d') \<Longrightarrow> same_tables d d'"
  by (auto simp: sqlite_GetEventsAnalytics_def Let_def split: prod.splits sum.splits dest!: query_same
      intro: same_tables_trans)

lemma get_event_properties_same: "sqlite_GetEventProperties p nm lo hi n m d = (r, d') \<Longrightarrow> same_tables d d'"
  by (auto simp: sqlite_GetEventProperties_def split: prod.splits sum.splits dest: query_same
      property_breakdowns_same intro: same_tables_trans)

lemma get_geo_analytics_same: "sqlite_GetGeoAnalytics p lo hi n m d = (r, d') \<Longrightarrow> same_tables d d'"
  by (auto simp: sqlite_GetGeoAnalytics_def split: prod.splits sum.splits dest: query_same
      intro: same_tables_trans)

lemma get_users_analytics_same: "sqlite_GetUsersAnalytics p lo hi iv d = (r, d') \<Longrightarrow> same_tables d d'"
  by (auto simp: sqlite_GetUsersAnalytics_def Let_def split: prod.splits dest: query_same
      intro: same_tables_trans)

lemmas read_same = reads_same get_overview_same get_events_analytics_same get_event_properties_same
  get_geo_analytics_same get_users_analytics_same

lemmas read_ok = read_same [THEN same_tables_ok]

lemma cleanup_ok: "sqlite_CleanupEvents p before d = (r, d') \<Longrightarrow> db_ok d \<Longrightarrow> db_ok d'"
  unfolding sqlite_CleanupEvents_def by (elim run_stmt_ok) (auto simp: Let_def intro: delete_events_ok)

subsection \<open>Reachable databases\<close>

inductive sqlite_step :: "db \<Rightarrow> db \<Rightarrow> bool" where
  ping: "nop_stmt d = (r, d') \<Longrightarrow> sqlite_step d d'"
| create_console_user: "sqlite_CreateConsoleUser u d = (r, d') \<Longrightarrow> sqlite_step d d'"
| update_console_user: "sqlite_UpdateConsoleUser u d = (r, d') \<Longrightarrow> sqlite_step d d'"
| delete_console_user: "sqlite_DeleteConsoleUser i d = (r, d') \<Longrightarrow> sqlite_step d d'"
| get_console_user_by_id: "sqlite_GetConsoleUserByID i d = (r, d') \<Longrightarrow> sqlite_step d d'"
| get_console_user_by_login: "sqlite_GetConsoleUserByLogin l d = (r, d') \<Longrightarrow> sqlite_step d d'"
| list_console_users: "sqlite_ListConsoleUsers d = (r, d') \<Longrightarrow> sqlite_step d d'"
| create_project: "sqlite_CreateProject p d = (r, d') \<Longrightarrow> sqlite_step d d'"
| update_project: "sqlite_UpdateProject p d = (r, d') \<Longrightarrow> sqlite_step d d'"
| delete_project: "sqlite_DeleteProject i d = (r, d') \<Longrightarrow> sqlite_step d d'"
| get_project: "sqlite_GetProject i d = (r, d') \<Longrightarrow> sqlite_step d d'"
| list_projects: "sqlite_ListProjects d = (r, d') \<Longrightarrow> sqlite_step d d'"
| get_projects_with_retention: "sqlite_GetProjectsWithRetention d = (r, d') \<Longrightarrow> sqlite_step d d'"
| create_project_token: "sqlite_CreateProjectToken t d = (r, d') \<Longrightarrow> sqlite_step d d'"
| update_project_token: "sqlite_UpdateProjectToken t d = (r, d') \<Longrightarrow> sqlite_step d d'"
| delete_project_token: "sqlite_DeleteProjectToken i d = (r, d') \<Longrightarrow> sqlite_step d d'"
| get_project_token_by_token: "sqlite_GetProjectTokenByToken s d = (r, d') \<Longrightarrow> sqlite_step d d'"
| list_project_tokens: "sqlite_ListProjectTokens i d = (r, d') \<Longrightarrow> sqlite_step d d'"
| upsert_device: "sqlite_UpsertDevice x d = (r, d') \<Longrightarrow> sqlite_step d d'"
| get_device: "sqlite_GetDevice s d = (r, d') \<Longrightarrow> sqlite_step d d'"
| link_device_to_user: "sqlite_LinkDeviceToUser s i d = (r, d') \<Longrightarrow> sqlite_step d d'"
| get_or_create_app_user: "sqlite_GetOrCreateAppUser i a d = (r, d') \<Longrightarrow> sqlite_step d d'"
| insert_event: "sqlite_InsertEvent ev d = (r, d') \<Longrightarrow> sqlite_step d d'"
| insert_event_properties: "sqlite_InsertEventProperties ps d = (r, d') \<Longrightarrow> sqlite_step d d'"
| get_device_user_id: "sqlite_GetDeviceUserID s d = (r, d') \<Longrightarrow> sqlite_step d d'"
| cleanup_events: "sqlite_CleanupEvents i before d = (r, d') \<Longrightarrow> sqlite_step d d'"
| get_overview: "sqlite_GetOverview i lo hi d = (r, d') \<Longrightarrow> sqlite_step d d'"
| get_events_analytics: "sqlite_GetEventsAnalytics i lo hi iv n m d = (r, d') \<Longrightarrow> sqlite_step d d'"
| get_event_properties: "sqlite_GetEventProperties i nm lo hi n m d = (r, d') \<Longrightarrow> sqlite_step d d'"
| get_devices_analytics: "sqlite_GetDevicesAnalytics i lo hi d = (r, d') \<Longrightarrow> sqlite_step d d'"
| get_geo_analytics: "sqlite_GetGeoAnalytics i lo hi n m d = (r, d') \<Longrightarrow> sqlite_step d d'"
| get_users_analytics: "sqlite_GetUsersAnalytics i lo hi iv d = (r, d') \<Longrightarrow> sqlite_step d d'"
| get_retention_analytics: "sqlite_GetRetentionAnalytics i lo hi d = (r, d') \<Longrightarrow> sqlite_step d d'"

lemmas write_ok = create_user_ok update_user_ok delete_user_ok create_project_ok update_project_ok
  delete_project_method_ok create_token_ok update_token_ok delete_token_ok upsert_device_ok link_device_ok
  get_or_create_user_ok insert_event_ok insert_event_properties_ok cleanup_ok

lemma sqlite_step_ok: "sqlite_step d d' \<Longrightarrow> db_ok d \<Longrightarrow> db_ok d'"
  by (induction rule: sqlite_step.induct) (erule (1) write_ok read_ok)+

definition empty_db :: "(nat \<Rightarrow> bool) \<Rightarrow> (nat \<Rightarrow> instant) \<Rightarrow> (nat \<Rightarrow> scan_plan) \<Rightarrow>
    (string \<Rightarrow> instant \<Rightarrow> string) \<Rightarrow> db" where
  "empty_db fault clock plan fmt =
     \<lparr>db_tick = 0, db_fault = fault, db_clock = clock, db_plan = plan, db_strftime = fmt,
      projects = [], project_tokens = [], console_users = [], app_users = [], devices = [],
      events = [], event_properties = []\<rparr>"

lemma empty_db_ok: "db_ok (empty_db f c p fmt)"
  by (simp add: empty_db_def db_ok_defs)

inductive sqlite_reachable :: "db \<Rightarrow> bool" where
  reach_empty: "sqlite_reachable (empty_db fault clock plan fmt)"
| reach_step: "sqlite_reachable d \<Longrightarrow> sqlite_step d d' \<Longrightarrow> sqlite_reachable d'"

inductive_cases reach_elim: "sqlite_reachable d"

text \<open>
  C9. Schema integrity: in every database a run can reach, through any sequence of store methods and
  whatever statements fail, the primary and unique keys are unique, every foreign key resolves, and
  the CHECK constraints on roles and property types hold.
\<close>

theorem reachable_db_ok: "sqlite_reachable d \<Longrightarrow> db_ok d"
  by (induction rule: sqlite_reachable.induct) (auto intro: empty_db_ok sqlite_step_ok)

lemma reachable_db_ok_witness:
  "sqlite_reachable (snd (sqlite_CreateProject
      \<lparr>prj_id = 0, prj_name = ''shop'', prj_retention_days = 7, prj_created_at = 0\<rparr>
      (empty_db (\<lambda>_. False) int (\<lambda>_. rowid_plan) (\<lambda>f _. f)))) \<and>
   db_ok (snd (sqlite_CreateProject
      \<lparr>prj_id = 0, prj_name = ''shop'', prj_retention_days = 7, prj_created_at = 0\<rparr>
      (empty_db (\<lambda>_. False) int (\<lambda>_. rowid_plan) (\<lambda>f _. f))))"
proof -
  have "sqlite_reachable (snd (sqlite_CreateProject
      \<lparr>prj_id = 0, prj_name = ''shop'', prj_retention_days = 7, prj_created_at = 0\<rparr>
      (empty_db (\<lambda>_. False) int (\<lambda>_. rowid_plan) (\<lambda>f _. f))))"
    by (rule reach_step [OF reach_empty create_project [OF surjective_pairing]])
  from this reachable_db_ok [OF this] show ?thesis by (rule conjI)
qed

end
