(* ===== verification/Sqlite_Props.thy ===== *)
theory Sqlite_Props
  imports Sqlite_Reach
begin

text \<open>
  What the store's methods do to and read from the tables: the reach of the cascading deletes, the
  retention cut, first-come device registration, and the figures of the analytics queries.
\<close>

subsection \<open>A small database\<close>

text \<open>Two projects; project 2 has recorded an event on a device that project 1 registered.\<close>

definition sample_db :: db where
  "sample_db =
     \<lparr>db_tick = 0, db_fault = (\<lambda>_. False), db_clock = (\<lambda>n. 1000000000 * int n), db_plan = (\<lambda>_. rowid_plan),
      db_strftime = (\<lambda>f t. f),
      projects = [\<lparr>prj_id = 1, prj_name = ''shop'', prj_retention_days = 30, prj_created_at = 0\<rparr>,
                  \<lparr>prj_id = 2, prj_name = ''blog'', prj_retention_days = 0, prj_created_at = 0\<rparr>],
      project_tokens = [\<lparr>tk_id = 1, tk_project_id = 1, tk_token = ''abc'', tk_label = '''', tk_active = True,
                         tk_allowed_origins = '''', tk_created_at = 0, tk_disabled_at = None\<rparr>],
      console_users = [\<lparr>cu_id = 1, cu_username = ''ann'', cu_email = Some ''bob'', cu_password_hash = ''h1'',
                        cu_role = ''admin'', cu_totp_secret = None, cu_totp_enabled = False, cu_created_at = 0\<rparr>,
                       \<lparr>cu_id = 2, cu_username = ''bob'', cu_email = None, cu_password_hash = ''h2'',
                        cu_role = ''viewer'', cu_totp_secret = None, cu_totp_enabled = False, cu_created_at = 0\<rparr>],
      app_users = [\<lparr>au_id = 1, au_project_id = 1, au_anonymous_id = ''u1'', au_created_at = 0\<rparr>],
      devices = [\<lparr>d_id = ''phone'', d_project_id = 1, d_user_id = Some 1, d_platform = ''ios'',
                  d_os_version = None, d_app_version = None, d_locale = None,
                  d_first_seen_at = 0, d_last_seen_at = 0\<rparr>,
                 \<lparr>d_id = ''web'', d_project_id = 2, d_user_id = None, d_platform = ''web'',
                  d_os_version = None, d_app_version = None, d_locale = None,
                  d_first_seen_at = 0, d_last_seen_at = 0\<rparr>],
      events = [\<lparr>e_id = ''e1'', e_project_id = 1, e_device_id = ''phone'', e_user_id = Some 1, e_name = ''open'',
                 e_timestamp = ''t'', e_ip_address = None, e_country = Some ''DE'', e_city = None, e_created_at = 10\<rparr>,
                \<lparr>e_id = ''e2'', e_project_id = 1, e_device_id = ''phone'', e_user_id = None, e_name = ''open'',
                 e_timestamp = ''t'', e_ip_address = None, e_country = None, e_city = None, e_created_at = 20\<rparr>,
                \<lparr>e_id = ''e3'', e_project_id = 2, e_device_id = ''phone'', e_user_id = None, e_name = ''view'',
                 e_timestamp = ''t'', e_ip_address = None, e_country = None, e_city = None, e_created_at = 20\<rparr>],
      event_properties = [\<lparr>ep_id = 1, ep_event_id = ''e1'', ep_key = ''size'', ep_value_type = ''int'',
                           ep_value_string = None, ep_value_int = Some 3, ep_value_float = None,
                           ep_value_bool = None, ep_value_datetime = None\<rparr>,
                          \<lparr>ep_id = 2, ep_event_id = ''e2'', ep_key = ''size'', ep_value_type = ''string'',
                           ep_value_string = Some ''big'', ep_value_int = None, ep_value_float = None,
                           ep_value_bool = None, ep_value_datetime = None\<rparr>]\<rparr>"

lemma sample_db_ok: "db_ok sample_db"
  by code_simp

subsection \<open>Deleting\<close>

lemma delete_events_rows:
  "events (delete_events P d) = filter (\<lambda>e. \<not> P e) (events d)"
  "event_properties (delete_events P d) =
     filter (\<lambda>p. ep_event_id p \<notin> e_id ` {e \<in> set (events d). P e}) (event_properties d)"
  by (simp_all add: delete_events_def Let_def)

text \<open>Among rows whose references resolve, dropping what belongs to deleted events keeps what belongs to the others.\<close>

lemma kept_properties:
  assumes "db_ok d"
  shows "event_properties (delete_events P d) =
    filter (\<lambda>p. ep_event_id p \<in> e_id ` {e \<in> set (events d). \<not> P e}) (event_properties d)"
proof -
  have "x \<notin> e_id ` {e \<in> set (events d). P e} \<longleftrightarrow> x \<in> e_id ` {e \<in> set (events d). \<not> P e}"
    if "x \<in> e_id ` set (events d)" for x
    using that db_okD(10) [OF assms] by (auto dest: distinct_key_eq)
  then show ?thesis
    using db_okD(19) [OF assms] by (auto simp: delete_events_rows intro!: filter_cong)
qed

lemma delete_project_rows:
  shows "projects (delete_project i d) = filter (\<lambda>p. prj_id p \<noteq> i) (projects d)"
    and "project_tokens (delete_project i d) = filter (\<lambda>t. tk_project_id t \<noteq> i) (project_tokens d)"
    and "app_users (delete_project i d) = filter (\<lambda>u. au_project_id u \<noteq> i) (app_users d)"
    and "map d_id (devices (delete_project i d)) = map d_id (filter (\<lambda>x. d_project_id x \<noteq> i) (devices d))"
    and "map e_id (events (delete_project i d)) =
      map e_id (filter (\<lambda>e. e_project_id e \<noteq> i \<and> e_device_id e \<notin> set (map d_id (filter (\<lambda>x. d_project_id x = i) (devices d)))) (events d))"
    and "console_users (delete_project i d) = console_users d"
  by (simp_all add: delete_project_def delete_devices_def delete_app_users_def delete_events_def Let_def
      comp_def conj_commute)



text \<open>
  The retention cut removes exactly the project's events created before the cut-off, reports their
  number, and keeps exactly the properties of the events that stay.
\<close>

theorem cleanup_exact:
  assumes "sqlite_CleanupEvents pid before d = (Inr n, d')" and "db_ok d"
  shows "events d' = filter (\<lambda>e. \<not> (e_project_id e = pid \<and> e_created_at e < before)) (events d) \<and>
    n + length (events d') = length (events d) \<and>
    event_properties d' = filter (\<lambda>p. ep_event_id p \<in> e_id ` set (events d')) (event_properties d)"
proof -
  let ?P = "\<lambda>e. e_project_id e = pid \<and> e_created_at e < before"
  have d': "d' = tick_db (delete_events ?P d)" and n: "n = length (filter ?P (events d))"
    using assms(1) by (auto simp: sqlite_CleanupEvents_def run_stmt_Inr Let_def)
  show ?thesis
    using sum_length_filter_compl [of ?P "events d"]
    by (simp add: d' n delete_events_rows(1) kept_properties [OF assms(2)])
qed

lemma cleanup_exact_witness:
  "1 + length (events (snd (sqlite_CleanupEvents 1 15 sample_db))) = length (events sample_db) \<and>
   map e_id (events (snd (sqlite_CleanupEvents 1 15 sample_db))) = [''e2'', ''e3'']"
proof -
  have "fst (sqlite_CleanupEvents 1 15 sample_db) = Inr 1" by code_simp
  note cleanup_exact [OF ok_pair [OF this] sample_db_ok]
  moreover have "map e_id (events (snd (sqlite_CleanupEvents 1 15 sample_db))) = [''e2'', ''e3'']" by code_simp
  ultimately show ?thesis by blast
qed

subsection \<open>Events are immutable\<close>

text \<open>What one call can do to the table of events: nothing, append one row under a free id, or drop
  rows and clear references to users.\<close>

definition anonymised :: "EventRow \<Rightarrow> EventRow \<Rightarrow> bool" where
  "anonymised e e' \<longleftrightarrow> e' = e \<or> e' = e\<lparr>e_user_id := None\<rparr>"

lemma writes_keep_events:
  "sqlite_CreateConsoleUser u d = (r1, d') \<Longrightarrow> events d' = events d"
  "sqlite_UpdateConsoleUser u d = (r2, d') \<Longrightarrow> events d' = events d"
  "sqlite_DeleteConsoleUser i d = (r2, d') \<Longrightarrow> events d' = events d"
  "sqlite_CreateProject p d = (r3, d') \<Longrightarrow> events d' = events d"
  "sqlite_UpdateProject p d = (r2, d') \<Longrightarrow> events d' = events d"
  "sqlite_CreateProjectToken t d = (r4, d') \<Longrightarrow> events d' = events d"
  "sqlite_UpdateProjectToken t d = (r2, d') \<Longrightarrow> events d' = events d"
  "sqlite_DeleteProjectToken i d = (r2, d') \<Longrightarrow> events d' = events d"
  "sqlite_UpsertDevice x d = (r2, d') \<Longrightarrow> events d' = events d"
  "sqlite_LinkDeviceToUser s i d = (r2, d') \<Longrightarrow> events d' = events d"
  "sqlite_insert_app_user i s d = (r5, d') \<Longrightarrow> events d' = events d"
  unfolding sqlite_CreateConsoleUser_def sqlite_UpdateConsoleUser_def sqlite_DeleteConsoleUser_def
    sqlite_CreateProject_def sqlite_UpdateProject_def sqlite_CreateProjectToken_def
    sqlite_UpdateProjectToken_def sqlite_DeleteProjectToken_def sqlite_UpsertDevice_def
    sqlite_LinkDeviceToUser_def sqlite_insert_app_user_def
  by (auto simp: run_stmt_def Let_def split: if_splits)

lemma get_or_create_keeps_events: "sqlite_GetOrCreateAppUser i s d = (r, d') \<Longrightarrow> events d' = events d"
  unfolding sqlite_GetOrCreateAppUser_def
  by (auto split: prod.splits sum.splits if_splits
      dest!: query_Pair writes_keep_events(11))

lemma row_at_append: "row_at key rows k = Some r \<Longrightarrow> row_at key (rows @ rs) k = Some r"
  by (induction rows) (auto simp: row_at_def)

lemma map_filter_rows:
  assumes "distinct (map key rows)" "\<And>r. key (f r) = key r"
  shows "row_at key (map f (filter P rows)) k =
    (case row_at key rows k of None \<Rightarrow> None | Some r \<Rightarrow> if P r then Some (f r) else None)"
  using assms(1)
proof (induction rows)
  case (Cons a rows)
  then have "row_at key rows (key a) = None" by (simp add: row_at_None)
  with Cons show ?case by (auto simp: row_at_def assms(2))
qed (simp add: row_at_def)

lemma delete_project_events:
  "\<exists>f P. events (delete_project i d) = map f (filter P (events d)) \<and> (\<forall>e. anonymised e (f e))"
proof (intro exI conjI allI)
  let ?gone = "map au_id (filter (\<lambda>u. au_project_id u = i) (app_users d))"
  let ?f = "\<lambda>e. e\<lparr>e_user_id := clear_ref ?gone (e_user_id e)\<rparr>"
  show "events (delete_project i d) = map ?f (filter (\<lambda>e. e_project_id e \<noteq> i \<and>
      e_device_id e \<notin> d_id ` {x \<in> set (devices d). d_project_id x = i}) (events d))"
    by (simp add: delete_project_def delete_devices_def delete_app_users_def delete_events_def Let_def
        conj_commute)
  show "anonymised e (?f e)" for e
    by (cases e) (auto simp: anonymised_def clear_ref_def split: option.split)
qed

text \<open>
  C28. A stored event never changes: after any store method it is as it was, or it is gone (retention or
  project deletion), or it lost only its reference to a deleted user.
\<close>

theorem stored_event_immutable:
  assumes "sqlite_step d d'" and "db_ok d" and "row_at e_id (events d) k = Some e"
  shows "row_at e_id (events d') k \<in> {None, Some e, Some (e\<lparr>e_user_id := None\<rparr>)}"
  using assms
proof (induction rule: sqlite_step.induct)
  case (insert_event ev d r d')
  have "row_at e_id (events d @ [x]) k = Some e" for x
    by (rule row_at_append [OF insert_event.prems(2)])
  then show ?case
    using insert_event by (auto simp: sqlite_InsertEvent_def run_stmt_def split: if_splits)
next
  case (delete_project i d r d')
  obtain f P where ev: "events (delete_project i d) = map f (filter P (events d))"
    and f: "\<And>e. anonymised e (f e)" using delete_project_events by blast
  have key: "e_id (f x) = e_id x" for x using f [of x] by (auto simp: anonymised_def)
  have "events d' = events d \<or> events d' = map f (filter P (events d))"
    using delete_project.hyps ev by (auto simp: sqlite_DeleteProject_def run_stmt_def split: if_splits)
  then show ?case
    using delete_project.prems f [of e] map_filter_rows [OF db_okD(10), of d f P k] key
    by (auto simp: anonymised_def split: if_splits)
next
  case (cleanup_events i before d r d')
  let ?P = "\<lambda>e. \<not> (e_project_id e = i \<and> e_created_at e < before)"
  have "events d' = events d \<or> events d' = map id (filter ?P (events d))"
    using cleanup_events.hyps
    by (auto simp: sqlite_CleanupEvents_def run_stmt_def Let_def delete_events_def split: if_splits)
  then show ?case
    using cleanup_events.prems map_filter_rows [OF db_okD(10), of d id ?P k]
    by (auto split: if_splits)
next
  case (insert_event_properties ps d r d')
  then show ?case using insert_event_properties_atomic(1) by fastforce
qed (auto dest!: read_same [THEN same_tables_events] writes_keep_events get_or_create_keeps_events)

lemma stored_event_immutable_witness:
  "sqlite_step sample_db (snd (sqlite_DeleteProject 1 sample_db)) \<and>
   row_at e_id (events (snd (sqlite_DeleteProject 1 sample_db))) ''e1''
     \<in> {None, Some (hd (events sample_db)), Some (hd (events sample_db)\<lparr>e_user_id := None\<rparr>)}"
proof -
  have step: "sqlite_step sample_db (snd (sqlite_DeleteProject 1 sample_db))"
    by (rule sqlite_step.delete_project [OF surjective_pairing])
  have "row_at e_id (events sample_db) ''e1'' = Some (hd (events sample_db))"
    by (simp add: row_at_def sample_db_def)
  from step stored_event_immutable [OF step sample_db_ok this] show ?thesis by (rule conjI)
qed

subsection \<open>Devices\<close>

text \<open>
  Registering a device again changes its versions, locale and last-seen time only: the project,
  user, platform and first-seen time of the first registration stay, whichever project registers it.
\<close>

theorem upsert_keeps_owner:
  assumes "sqlite_UpsertDevice x d = (Inr u, d')" and "row_at d_id (devices d) (dev_id x) = Some r"
  shows "row_at d_id (devices d') (dev_id x) =
    Some (r\<lparr>d_os_version := Some (dev_os_version x), d_app_version := Some (dev_app_version x),
            d_locale := Some (dev_locale x), d_last_seen_at := sqlite_now d\<rparr>)"
proof -
  have "dev_id x \<in> d_id ` set (devices d)" using row_at_Some [OF assms(2)] by (metis image_eqI)
  then have "d' = tick_db (d\<lparr>devices := map (\<lambda>r. if d_id r = dev_id x
                   then r\<lparr>d_os_version := Some (dev_os_version x), d_app_version := Some (dev_app_version x),
                          d_locale := Some (dev_locale x), d_last_seen_at := sqlite_now d\<rparr> else r) (devices d)\<rparr>)"
    using assms(1) by (auto simp: sqlite_UpsertDevice_def run_stmt_Inr)
  with assms(2) show ?thesis by (simp add: row_at_update)
qed

definition sample_device :: Device where
  "sample_device =
     \<lparr>dev_id = ''phone'', dev_project_id = 2, dev_user_id = None, dev_platform = ''android'',
      dev_os_version = ''14'', dev_app_version = ''2.0'', dev_locale = ''de'', dev_first_seen_at = 0,
      dev_last_seen_at = 0\<rparr>"

lemma upsert_keeps_owner_witness:
  "map_option (\<lambda>r. (d_project_id r, d_user_id r, d_platform r, d_os_version r))
     (row_at d_id (devices (snd (sqlite_UpsertDevice sample_device sample_db))) ''phone'')
   = Some (1, Some 1, ''ios'', Some ''14'')"
proof -
  have "fst (sqlite_UpsertDevice sample_device sample_db) = Inr ()" by code_simp
  moreover have "row_at d_id (devices sample_db) (dev_id sample_device) = Some (hd (devices sample_db))"
    by code_simp
  ultimately have
    "row_at d_id (devices (snd (sqlite_UpsertDevice sample_device sample_db))) (dev_id sample_device) =
      Some (hd (devices sample_db)\<lparr>d_os_version := Some (dev_os_version sample_device),
        d_app_version := Some (dev_app_version sample_device), d_locale := Some (dev_locale sample_device),
        d_last_seen_at := sqlite_now sample_db\<rparr>)"
    using upsert_keeps_owner [OF ok_pair] by blast
  then show ?thesis by (simp add: sample_device_def sample_db_def)
qed

subsection \<open>Grouping and ranking\<close>

abbreviation top_counts :: "nat \<Rightarrow> 'k list \<Rightarrow> ('k \<times> nat) list" where
  "top_counts n ks \<equiv> sql_limit (int n) 0 (order_by_count (group_counts ks))"

lemma order_by_count_props:
  "mset (order_by_count gs) = mset gs" "set (order_by_count gs) = set gs"
  "length (order_by_count gs) = length gs"
  "sorted_wrt (\<lambda>g h. snd h \<le> snd g) (order_by_count gs)"
proof -
  show "sorted_wrt (\<lambda>g h. snd h \<le> snd g) (order_by_count gs)"
    using sorted_sort_key [of "\<lambda>g. - int (snd g)" gs] by (simp add: order_by_count_def sorted_wrt_map)
qed (simp_all add: order_by_count_def)

lemma group_counts_set: "set (group_counts ks) = (\<lambda>k. (k, count_list ks k)) ` set ks"
  by (simp add: group_counts_def)

lemma group_counts_length: "length (group_counts ks) = card (set ks)"
  by (simp add: group_counts_def length_remdups_card_conv)

lemma group_counts_total: "sum_list (map snd (group_counts ks)) = length ks"
proof -
  have "sum_list (map snd (group_counts ks)) = (\<Sum>k\<in>set ks. count_list ks k)"
    by (simp add: group_counts_def comp_def sum_list_distinct_conv_sum_set)
  then show ?thesis by (simp add: sum_count_set)
qed

lemma sorted_take_drop:
  assumes "sorted_wrt R xs" "x \<in> set (take n xs)" "y \<in> set xs" "y \<notin> set (take n xs)"
  shows "R x y"
proof -
  have "y \<in> set (drop n xs)" using assms(3,4) by (metis Un_iff append_take_drop_id set_append)
  then show ?thesis using assms(1,2) by (metis append_take_drop_id sorted_wrt_append)
qed

text \<open>A ranking: true counts, best first, at most \<open>n\<close>, and nothing left out ranks above anything listed.\<close>

definition ranking_of :: "'k list \<Rightarrow> nat \<Rightarrow> ('k \<times> nat) list \<Rightarrow> bool" where
  "ranking_of ks n gs \<longleftrightarrow>
     distinct (map fst gs) \<and> length gs = min n (card (set ks)) \<and>
     sorted_wrt (\<lambda>g h. snd h \<le> snd g) gs \<and>
     (\<forall>(k, c) \<in> set gs. k \<in> set ks \<and> c = count_list ks k) \<and>
     (\<forall>k \<in> set ks - fst ` set gs. \<forall>(_, c) \<in> set gs. count_list ks k \<le> c)"

lemma ranking_perm:
  assumes "mset ks = mset ks'"
  shows "ranking_of ks n gs = ranking_of ks' n gs"
proof -
  have "set ks = set ks'" using assms by (metis set_mset_mset)
  moreover have "count_list ks k = count_list ks' k" for k using assms by (metis count_mset)
  ultimately show ?thesis by (simp add: ranking_of_def)
qed

lemma ranking_top_counts: "ranking_of ks n (top_counts n ks)"
proof -
  let ?g = "group_counts ks" and ?o = "order_by_count (group_counts ks)"
  have t: "top_counts n ks = take n ?o" by (simp add: sql_limit_def)
  have d: "distinct (map fst ?o)"
    using order_by_count_props(1) [of ?g]
    by (metis (no_types, lifting) distinct_remdups group_counts_def list.map_comp list.map_id
        mset_eq_imp_distinct_iff mset_map comp_def fst_conv map_idI)
  have s: "set ?o = (\<lambda>k. (k, count_list ks k)) ` set ks"
    by (simp add: order_by_count_props group_counts_set)
  have rest: "count_list ks k \<le> c" if "k \<in> set ks" "k \<notin> fst ` set (take n ?o)" "(k', c) \<in> set (take n ?o)" for k k' c
  proof -
    have "(k, count_list ks k) \<in> set ?o" using that(1) s by auto
    moreover have "(k, count_list ks k) \<notin> set (take n ?o)" using that(2) by force
    ultimately have "snd (k, count_list ks k) \<le> snd (k', c)"
      using sorted_take_drop [OF order_by_count_props(4) that(3)] by blast
    then show ?thesis by simp
  qed
  have each: "k \<in> set ks \<and> c = count_list ks k" if "(k, c) \<in> set (take n ?o)" for k c
    using in_set_takeD [OF that] s by auto
  show ?thesis
    unfolding ranking_of_def t
    using d rest each order_by_count_props(4) [of ?g]
    by (auto simp: take_map [symmetric] order_by_count_props group_counts_length sorted_wrt_take
        min.commute intro: distinct_take)
qed

subsection \<open>Analytics\<close>

lemma name_counts: "map (\<lambda>c. (ec_name c, ec_count c)) (event_counts gs name_count) = gs"
  by (induction gs) (auto simp: event_counts_def name_count_def)

lemma events_in_tick [simp]: "events_in p lo hi (tick_db d) = events_in p lo hi d"
  by (simp add: events_in_def)

lemma ranking_scan: "ranking_of ks n (sql_limit (int n) 0 (order_by_count (group_counts (scan d ks))))"
  using ranking_top_counts [of "scan d ks" n] ranking_perm [of "scan d ks" ks n] by simp

lemmas ranking_scan_10 = ranking_scan [where n = 10, simplified]



text \<open>
  The breakdown of a property looks the key up in the column of one type but does not restrict the
  rows to that type: a key recorded as an int and as a string reports a NULL value under each type.
\<close>

theorem mixed_type_key_counts_null:
  "fst (sqlite_GetEventProperties 1 ''open'' 0 100 10 0 sample_db) = Inr \<lparr>pa_properties =
     [\<lparr>pb_key = ''size'', pb_type = ''int'',
       pb_values = [\<lparr>pv_value = SqlInt 3, pv_count = 1\<rparr>, \<lparr>pv_value = SqlNull, pv_count = 1\<rparr>]\<rparr>,
      \<lparr>pb_key = ''size'', pb_type = ''string'',
       pb_values = [\<lparr>pv_value = SqlNull, pv_count = 1\<rparr>, \<lparr>pv_value = SqlText ''big'', pv_count = 1\<rparr>]\<rparr>]\<rparr>"
  by code_simp

text \<open>
  A login name does not identify a user: when one user's email is another's username, the same
  lookup returns one or the other depending on the order in which the engine scans the table.
\<close>

theorem login_lookup_ambiguous:
  "\<exists>d d'. db_ok d \<and> db_ok d' \<and> console_users d = console_users d' \<and>
     map_sum id cu_username (fst (sqlite_GetConsoleUserByLogin ''bob'' d)) = Inr ''ann'' \<and>
     map_sum id cu_username (fst (sqlite_GetConsoleUserByLogin ''bob'' d')) = Inr ''bob''"
proof (rule exI [of _ sample_db], rule exI [of _ "sample_db\<lparr>db_plan := \<lambda>_. reverse_plan\<rparr>"], intro conjI)
  show "db_ok (sample_db\<lparr>db_plan := \<lambda>_. reverse_plan\<rparr>)" by code_simp
  show "map_sum id cu_username (fst (sqlite_GetConsoleUserByLogin ''bob''
      (sample_db\<lparr>db_plan := \<lambda>_. reverse_plan\<rparr>))) = Inr ''bob''" by code_simp
  show "map_sum id cu_username (fst (sqlite_GetConsoleUserByLogin ''bob'' sample_db)) = Inr ''ann''" by code_simp
qed (simp_all add: sample_db_ok)

end
