(* ===== verification/Middleware.thy ===== *)
theory Middleware
  imports Http Sqlite_Props
begin

text \<open>
  \<open>internal/middleware/middleware.go\<close> and \<open>security.go\<close>: each middleware wraps a handler.  The rate
  limiter has its own theory.  \<open>TokenAuth\<close> is verified against the contract \<open>token_store\<close> and then
  instantiated with the SQLite store.
\<close>

subsection \<open>The middlewares\<close>

definition SecurityHeaders :: "'s handler \<Rightarrow> 's handler" where
  "SecurityHeaders next r w s =
     next r
       (set_header ''X-Permitted-Cross-Domain-Policies'' ''none''
       (set_header ''Referrer-Policy'' ''strict-origin-when-cross-origin''
       (set_header ''Content-Security-Policy''
          ''default-src 'self'; script-src 'self'; style-src 'self' 'unsafe-inline'; img-src 'self' data:''
       (set_header ''X-Content-Type-Options'' ''nosniff''
       (set_header ''X-Frame-Options'' ''DENY'' w))))) s"

text \<open>
  \<open>emit\<close> appends the entry (method, path, status) to the log kept in the state; a panic of the handler
  passes the log line by.
\<close>

definition Logging :: "(string \<times> string \<times> int \<Rightarrow> 's \<Rightarrow> 's) \<Rightarrow> 's handler \<Rightarrow> 's handler" where
  "Logging emit next r w s =
     (case next r (w\<lparr>w_logged := 200\<rparr>) s of
        (w', s') \<Rightarrow>
          if w_aborted w' then (w', s')
          else (w', emit (rq_method r, rq_path r, w_logged w') s'))"

definition BodyLimit :: "nat \<Rightarrow> 's handler \<Rightarrow> 's handler" where
  "BodyLimit maxBytes next r w s = next (r\<lparr>rq_max_body := Some maxBytes\<rparr>) w s"

definition TokenAuth :: "'s Store \<Rightarrow> 's handler \<Rightarrow> 's handler" where
  "TokenAuth st next r w s =
     (let token = header_get r ''X-Token'' in
      if token = '''' then (writeError 401 ''UNAUTHORIZED'' ''missing X-Token header'' w, s)
      else
        (case GetProjectTokenByToken st token s of
           (Inl _, s') \<Rightarrow> (writeError 401 ''UNAUTHORIZED'' ''invalid token'' w, s')
         | (Inr pt, s') \<Rightarrow>
             if \<not> tok_active pt then (writeError 401 ''UNAUTHORIZED'' ''token is disabled'' w, s')
             else
               let origin = header_get r ''Origin'';
                   r' = r\<lparr>rq_project_id := Some (tok_project_id pt)\<rparr>
               in if tok_allowed_origins pt \<noteq> [] then
                    if \<not> matchOrigin (tok_allowed_origins pt) origin
                    then (writeError 403 ''FORBIDDEN'' ''origin not allowed for this token'' w, s')
                    else next r' (set_header ''Vary'' ''Origin''
                           (set_header ''Access-Control-Allow-Origin'' origin w)) s'
                  else next r' w s'))"

definition corsMaxAge :: string where "corsMaxAge = ''86400''"
definition corsAllowedHeaders :: string where "corsAllowedHeaders = ''X-Token, Content-Type''"
definition corsAllowedMethods :: string where "corsAllowedMethods = ''POST, OPTIONS''"

definition CORS :: "'s handler \<Rightarrow> 's handler" where
  "CORS next r w s =
     (let origin = header_get r ''Origin'' in
      if rq_method r = ''OPTIONS'' \<and> origin \<noteq> '''' then
        (write_header 204
          (set_header ''Access-Control-Max-Age'' corsMaxAge
          (set_header ''Access-Control-Allow-Headers'' corsAllowedHeaders
          (set_header ''Access-Control-Allow-Methods'' corsAllowedMethods
          (set_header ''Vary'' ''Origin''
          (set_header ''Access-Control-Allow-Origin'' origin w))))), s)
      else next r w s)"

text \<open>\<open>validate\<close> is the service's \<open>ValidateJWT\<close>, \<open>None\<close> its error.\<close>

definition JWTAuth :: "(string \<Rightarrow> Claims option) \<Rightarrow> 's handler \<Rightarrow> 's handler" where
  "JWTAuth validate next r w s =
     (let header = header_get r ''Authorization'' in
      if \<not> has_prefix header ''Bearer ''
      then (writeError 401 ''UNAUTHORIZED'' ''missing or invalid Authorization header'' w, s)
      else
        (case validate (trim_prefix header ''Bearer '') of
           None \<Rightarrow> (writeError 401 ''UNAUTHORIZED'' ''invalid or expired token'' w, s)
         | Some claims \<Rightarrow> next (r\<lparr>rq_claims := Some claims\<rparr>) w s))"

definition role_rank :: "string \<Rightarrow> int" where
  "role_rank role = (case map_of [(''viewer'', 1), (''manager'', 2), (''admin'', 3)] role of
     None \<Rightarrow> 0 | Some n \<Rightarrow> n)"

definition hasMinRole :: "string \<Rightarrow> string \<Rightarrow> bool" where
  "hasMinRole userRole minRole \<longleftrightarrow> role_rank minRole \<le> role_rank userRole"

definition GetClaims :: "request \<Rightarrow> Claims option" where
  "GetClaims r = rq_claims r"

definition GetProjectID :: "request \<Rightarrow> int" where
  "GetProjectID r = (case rq_project_id r of None \<Rightarrow> 0 | Some i \<Rightarrow> i)"

definition RequireRole :: "string \<Rightarrow> 's handler \<Rightarrow> 's handler" where
  "RequireRole minRole next r w s =
     (case GetClaims r of
        None \<Rightarrow> (writeError 401 ''UNAUTHORIZED'' ''not authenticated'' w, s)
      | Some claims \<Rightarrow>
          if \<not> hasMinRole (cl_role claims) minRole
          then (writeError 403 ''FORBIDDEN'' ''insufficient permissions'' w, s)
          else next r w s)"

subsection \<open>Token authentication\<close>

text \<open>What entitles a request to go through: an active token whose origins admit the request's.\<close>

definition admits :: "ProjectToken \<Rightarrow> request \<Rightarrow> bool" where
  "admits pt r \<longleftrightarrow> tok_active pt \<and>
     (tok_allowed_origins pt \<noteq> [] \<longrightarrow> matchOrigin (tok_allowed_origins pt) (header_get r ''Origin''))"

definition refused :: "writer \<Rightarrow> writer \<Rightarrow> bool" where
  "refused w w' \<longleftrightarrow> status w' \<in> {401, 403} \<and> (\<exists>c m. w_body w' = w_body w @ [ErrorResponse c m])"

lemma refused_writeError:
  "w_sent w = None \<Longrightarrow> n \<in> {401, 403} \<Longrightarrow> refused w (writeError n c m w)"
  by (auto simp: refused_def writeError_fresh)

lemma TokenAuth_passes:
  assumes "header_get r ''X-Token'' \<noteq> ''''" and "admits pt r"
    and "GetProjectTokenByToken st (header_get r ''X-Token'') s = (Inr pt, s1)"
  shows "\<exists>w1. w_sent w1 = w_sent w \<and>
    TokenAuth st next r w s = next (r\<lparr>rq_project_id := Some (tok_project_id pt)\<rparr>) w1 s1"
proof (cases "tok_allowed_origins pt = []")
  case True
  with assms show ?thesis by (auto simp: TokenAuth_def Let_def admits_def)
next
  case False
  with assms show ?thesis
    by (intro exI [of _ "set_header ''Vary'' ''Origin''
          (set_header ''Access-Control-Allow-Origin'' (header_get r ''Origin'') w)"])
       (auto simp: TokenAuth_def Let_def admits_def)
qed

context token_store
begin

lemma token_auth_cases:
  assumes "TokenAuth st next r w s = (w', s')" and "wf s" and "w_sent w = None"
  shows "(refused w w' \<and> wf s' \<and> token_of s' = token_of s) \<or>
    (\<exists>pt w1 s1. token_of s (header_get r ''X-Token'') = Some pt \<and> admits pt r \<and>
       wf s1 \<and> token_of s1 = token_of s \<and> w_sent w1 = None \<and>
       next (r\<lparr>rq_project_id := Some (tok_project_id pt)\<rparr>) w1 s1 = (w', s'))"
proof -
  let ?t = "header_get r ''X-Token''"
  obtain res s1 where g: "GetProjectTokenByToken st ?t s = (res, s1)" by fastforce
  have s1: "wf s1" "token_of s1 = token_of s"
    using get_token_wf [OF g assms(2)] get_token_view [OF g] by auto
  show ?thesis
  proof (cases "?t = ''''")
    case True
    then show ?thesis using assms by (auto simp: TokenAuth_def intro: refused_writeError)
  next
    case nonempty: False
    show ?thesis
    proof (cases res)
      case (Inl e)
      then show ?thesis using assms nonempty g s1
        by (auto simp: TokenAuth_def Let_def intro: refused_writeError)
    next
      case (Inr pt)
      have tok: "token_of s ?t = Some pt" using get_token_found g assms(2) Inr by blast
      show ?thesis
      proof (cases "admits pt r")
        case True
        from TokenAuth_passes [OF nonempty this] g Inr obtain w1 where
          "w_sent w1 = w_sent w" "next (r\<lparr>rq_project_id := Some (tok_project_id pt)\<rparr>) w1 s1 = (w', s')"
          using assms(1) by metis
        with True tok s1 assms(3) show ?thesis by metis
      next
        case False
        with assms nonempty g Inr s1 show ?thesis
          by (auto simp: TokenAuth_def Let_def admits_def intro: refused_writeError split: if_splits)
      qed
    qed
  qed
qed

end

lemma sqlite_get_token_same:
  "GetProjectTokenByToken SQLiteStore t d = (r, d') \<Longrightarrow> d' = tick_db d"
  by (auto simp: SQLiteStore_def sqlite_GetProjectTokenByToken_def dest: query_Pair)

text \<open>
  C8. A request reaches the tracking handlers only with the value of a stored, active token whose
  origins admit it, and it reaches them with that token's project; every other request is answered
  with 401 or 403 and leaves the database as it was.
\<close>

theorem TokenAuth_sound:
  assumes "TokenAuth SQLiteStore next r w d = (w', d')" and "db_ok d" and "w_sent w = None"
  shows "(refused w w' \<and> token_of d' = token_of d \<and> db_ok d') \<or>
    (\<exists>pt w1 d1. token_of d (header_get r ''X-Token'') = Some pt \<and> admits pt r \<and> db_ok d1 \<and>
       w_sent w1 = None \<and> next (r\<lparr>rq_project_id := Some (tok_project_id pt)\<rparr>) w1 d1 = (w', d'))"
  using sqlite_tokens.token_auth_cases [OF assms] by blast

text \<open>A request for the examples, with token and origin.\<close>

definition sample_request :: "string \<Rightarrow> string \<Rightarrow> request" where
  "sample_request token origin =
     \<lparr>rq_method = ''POST'', rq_path = ''/api/v1/track'', rq_segments = [''api'', ''v1'', ''track''],
      rq_canonical = True, rq_remote_addr = ''10.0.0.1:4711'',
      rq_header = [(''X-Token'', token), (''Origin'', origin)], rq_body = '''', rq_max_body = None,
      rq_clock = (\<lambda>_. 0), rq_path_values = [], rq_query = [], rq_project_id = None, rq_claims = None\<rparr>"

lemma TokenAuth_sound_witness:
  "status (fst (TokenAuth SQLiteStore (\<lambda>r w s. (write_header 202 w, s)) (sample_request ''abc'' '''') new_writer sample_db)) = 202 \<and>
   (\<exists>pt. token_of sample_db ''abc'' = Some pt \<and> admits pt (sample_request ''abc'' ''''))"
proof -
  let ?next = "\<lambda>r w s. (write_header 202 w, s)"
  let ?res = "TokenAuth SQLiteStore ?next (sample_request ''abc'' '''') new_writer sample_db"
  have st: "status (fst ?res) = 202" by code_simp
  have "w_sent new_writer = None" by (simp add: new_writer_def)
  from TokenAuth_sound [OF surjective_pairing sample_db_ok this, of ?next "sample_request ''abc'' ''''"]
  have "\<exists>pt. token_of sample_db (header_get (sample_request ''abc'' '''') ''X-Token'') = Some pt \<and>
      admits pt (sample_request ''abc'' '''')"
    using st by (auto simp: refused_def)
  then show ?thesis using st by (simp add: header_get_def sample_request_def)
qed

text \<open>
  C27. Conversely, when the lookup does not fail in the driver, a request with a non-empty token value
  that is stored, active and admits the origin is passed on.
\<close>

theorem TokenAuth_complete:
  assumes "token_of d (header_get r ''X-Token'') = Some pt" and "admits pt r" and "db_ok d"
    and "header_get r ''X-Token'' \<noteq> ''''" and "\<not> db_fault d (db_tick d)"
  shows "\<exists>w1. TokenAuth SQLiteStore next r w d =
    next (r\<lparr>rq_project_id := Some (tok_project_id pt)\<rparr>) w1 (tick_db d)"
proof -
  have "GetProjectTokenByToken SQLiteStore (header_get r ''X-Token'') d = (Inr pt, tick_db d)"
    using assms(1,5) query_row_key [OF db_okD(3) [OF assms(3)], of d "header_get r ''X-Token''"]
    by (auto simp: SQLiteStore_def sqlite_GetProjectTokenByToken_def query_run token_of_def)
  with TokenAuth_passes [OF assms(4,2)] show ?thesis by metis
qed

lemma TokenAuth_complete_witness:
  "\<exists>w1. TokenAuth SQLiteStore (\<lambda>r w s. (w, s)) (sample_request ''abc'' '''') new_writer sample_db =
     (w1, tick_db sample_db)"
proof -
  let ?r = "sample_request ''abc'' ''''"
  have t: "header_get ?r ''X-Token'' = ''abc''" by code_simp
  obtain pt where pt: "token_of sample_db ''abc'' = Some pt" "admits pt ?r"
    using TokenAuth_sound_witness by blast
  have "\<not> db_fault sample_db (db_tick sample_db)" by (simp add: sample_db_def)
  from TokenAuth_complete [of sample_db ?r pt "\<lambda>r w s. (w, s)" new_writer] this t pt sample_db_ok
  show ?thesis by auto
qed

subsection \<open>Roles\<close>

lemma role_rank_simps [simp]:
  "role_rank ''viewer'' = 1" "role_rank ''manager'' = 2" "role_rank ''admin'' = 3"
  by (simp_all add: role_rank_def)

lemma role_rank_pos_iff: "0 < role_rank x \<longleftrightarrow> x \<in> set roles"
  by (auto simp: role_rank_def roles_def)

text \<open>
  C26. An endpoint behind \<open>JWTAuth\<close> and \<open>RequireRole\<close> runs exactly for requests with a Bearer token that
  validates to claims whose role is one of the three and at least the required one; all others are
  answered with 401 or 403 without touching the state.
\<close>

theorem role_gate:
  assumes "w_sent w = None" and "m \<in> set roles"
  shows "let hd = header_get r ''Authorization'';
             c = (if has_prefix hd ''Bearer '' then validate (trim_prefix hd ''Bearer '') else None);
             res = JWTAuth validate (RequireRole m next) r w s
         in if (case c of None \<Rightarrow> False | Some cl \<Rightarrow> cl_role cl \<in> set roles \<and> role_rank m \<le> role_rank (cl_role cl))
            then res = next (r\<lparr>rq_claims := c\<rparr>) w s
            else refused w (fst res) \<and> snd res = s"
proof -
  have m: "0 < role_rank m" using assms(2) by (simp add: role_rank_pos_iff)
  have known: "x \<in> set roles" if "role_rank m \<le> role_rank x" for x
    using m that by (simp add: role_rank_pos_iff [symmetric])
  show ?thesis
    using assms(1) known
    by (auto simp: Let_def JWTAuth_def RequireRole_def GetClaims_def hasMinRole_def
        intro: refused_writeError split: option.split)
qed

lemma role_gate_witness:
  "JWTAuth (\<lambda>t. Some \<lparr>cl_user_id = 2, cl_username = ''bob'', cl_role = ''viewer''\<rparr>)
     (RequireRole ''admin'' (\<lambda>r w s. (write_header 200 w, Suc s)))
     ((sample_request '''' '''')\<lparr>rq_header := [(''Authorization'', ''Bearer t'')]\<rparr>) new_writer 5
   = (writeError 403 ''FORBIDDEN'' ''insufficient permissions'' new_writer, 5)"
proof -
  let ?r = "(sample_request '''' '''')\<lparr>rq_header := [(''Authorization'', ''Bearer t'')]\<rparr>"
  let ?v = "\<lambda>t. Some \<lparr>cl_user_id = 2, cl_username = ''bob'', cl_role = ''viewer''\<rparr>"
  let ?next = "\<lambda>r w s. (write_header 200 w, Suc s)"
  let ?res = "JWTAuth ?v (RequireRole ''admin'' ?next) ?r new_writer 5"
  have h: "w_sent new_writer = None" "''admin'' \<in> set roles" "header_get ?r ''Authorization'' = ''Bearer t''"
    "has_prefix ''Bearer t'' ''Bearer ''"
    by code_simp+
  have "snd ?res = 5"
    using role_gate [OF h(1,2), of ?r ?v ?next 5] by (simp add: h Let_def)
  moreover have "fst ?res = writeError 403 ''FORBIDDEN'' ''insufficient permissions'' new_writer"
    by code_simp
  ultimately show ?thesis by (metis prod.collapse)
qed

subsection \<open>Preflight\<close>

text \<open>
  A CORS preflight of the tracking endpoints is answered with 204 and without a token: no
  authentication runs, no handler runs, the state is untouched, and the asking origin is echoed
  whatever any token allows; without an \<open>Origin\<close> header the same request has to authenticate.
\<close>

theorem preflight_unauthenticated:
  assumes "rq_method r = ''OPTIONS''" and "w_sent w = None"
  shows "if header_get r ''Origin'' \<noteq> ''''
    then status (fst (CORS (TokenAuth st next) r w s)) = 204 \<and> snd (CORS (TokenAuth st next) r w s) = s \<and>
         w_body (fst (CORS (TokenAuth st next) r w s)) = w_body w \<and>
         map_of (w_header (fst (CORS (TokenAuth st next) r w s))) ''Access-Control-Allow-Origin''
           = Some (header_get r ''Origin'')
    else CORS (TokenAuth st next) r w s = TokenAuth st next r w s"
proof -
  have put: "map_of (put_entry k v m) k' = (if k' = k then Some v else map_of m k')" for k k' :: string and v :: string and m
    by (induction k v m rule: put_entry.induct) auto
  show ?thesis
    using assms by (simp add: CORS_def Let_def status_def write_header_def send_status_def set_header_def put)
qed

lemma preflight_unauthenticated_witness:
  "status (fst (CORS (TokenAuth SQLiteStore (\<lambda>r w s. (w, s)))
     ((sample_request '''' ''https://evil.example'')\<lparr>rq_method := ''OPTIONS''\<rparr>) new_writer sample_db)) = 204"
proof -
  let ?r = "(sample_request '''' ''https://evil.example'')\<lparr>rq_method := ''OPTIONS''\<rparr>"
  have h: "rq_method ?r = ''OPTIONS''" "w_sent new_writer = None" "header_get ?r ''Origin'' \<noteq> ''''"
    by code_simp+
  from preflight_unauthenticated [OF h(1,2), of SQLiteStore "\<lambda>r w s. (w, s)" sample_db] h(3)
  show ?thesis by simp
qed

end
