(* ===== verification/Tracking.thy ===== *)
theory Tracking
  imports Geoip Middleware "HOL-Library.Sublist"
begin

text \<open>
  \<open>internal/handler/tracking.go\<close>: the endpoints \<open>/track\<close>, \<open>/device\<close> and \<open>/identify\<close>.  The handlers take
  a store of any kind; their lemmas are proved from the contracts \<open>event_store\<close> and \<open>identity_store\<close>
  and instantiated with SQLite.
\<close>

subsection \<open>The handler\<close>

definition maxEventsPerBatch :: nat where "maxEventsPerBatch = 100"
definition maxPropertiesPerEvent :: nat where "maxPropertiesPerEvent = 50"
definition maxEventNameLen :: nat where "maxEventNameLen = 256"
definition maxKeyLen :: nat where "maxKeyLen = 128"
definition maxStringValueLen :: nat where "maxStringValueLen = 4096"

text \<open>\<open>th_geo\<close> is the resolver's \<open>Lookup\<close>; the keys of the set of trusted proxies are a list.\<close>

record 's TrackingHandler =
  th_store :: "'s Store"
  th_geo :: "(string \<Rightarrow> Location) option"
  th_trustedProxies :: "string list"

definition NewTrackingHandler :: "'s Store \<Rightarrow> (string \<Rightarrow> Location) option \<Rightarrow> string list \<Rightarrow> 's TrackingHandler" where
  "NewTrackingHandler store geo trustedProxies =
     \<lparr>th_store = store, th_geo = geo, th_trustedProxies = remdups trustedProxies\<rparr>"

subsection \<open>The client's address\<close>

definition clientIP :: "request \<Rightarrow> string" where
  "clientIP r =
     (let host = rq_remote_addr r in
      case last_index_byte host (CHR '':'') of None \<Rightarrow> host | Some idx \<Rightarrow> take idx host)"

definition clientIPTrusted :: "'s TrackingHandler \<Rightarrow> request \<Rightarrow> string" where
  "clientIPTrusted h r =
     (let remoteIP = clientIP r;
          trusted = (th_trustedProxies h = [] \<or> remoteIP \<in> set (th_trustedProxies h));
          xff = header_get r ''X-Forwarded-For'';
          xri = header_get r ''X-Real-Ip''
      in if trusted \<and> xff \<noteq> '''' then trim_space (hd (splitn2 (CHR '','') xff))
         else if trusted \<and> xri \<noteq> '''' then xri
         else remoteIP)"

subsection \<open>Properties\<close>

definition in_int64 :: "int \<Rightarrow> bool" where
  "in_int64 i \<longleftrightarrow> - (2 ^ 63) \<le> i \<and> i < 2 ^ 63"

definition go_int64 :: "runtime \<Rightarrow> rat \<Rightarrow> int" where
  "go_int64 rt f = (if in_int64 (trunc64 f) then trunc64 f else rt_int64 rt f)"

definition build_property :: "runtime \<Rightarrow> string \<Rightarrow> string \<Rightarrow> TrackPropertyValue \<Rightarrow> EventProperty" where
  "build_property rt eventID key pv =
     (let ep = \<lparr>ep_id = 0, ep_event_id = eventID, ep_key = key, ep_value_type = tpv_type pv,
                ep_value_string = None, ep_value_int = None, ep_value_float = None,
                ep_value_bool = None, ep_value_datetime = None\<rparr>
      in if tpv_type pv = ''string'' then
           (case tpv_value pv of
              JString s \<Rightarrow> ep\<lparr>ep_value_string :=
                Some (if length s > maxStringValueLen then take maxStringValueLen s else s)\<rparr>
            | _ \<Rightarrow> ep)
         else if tpv_type pv = ''int'' then
           (case tpv_value pv of JNumber f \<Rightarrow> ep\<lparr>ep_value_int := Some (go_int64 rt f)\<rparr> | _ \<Rightarrow> ep)
         else if tpv_type pv = ''float'' then
           (case tpv_value pv of JNumber f \<Rightarrow> ep\<lparr>ep_value_float := Some f\<rparr> | _ \<Rightarrow> ep)
         else if tpv_type pv = ''bool'' then
           (case tpv_value pv of JBool b \<Rightarrow> ep\<lparr>ep_value_bool := Some b\<rparr> | _ \<Rightarrow> ep)
         else if tpv_type pv = ''datetime'' then
           (case tpv_value pv of
              JString s \<Rightarrow> (case rt_rfc3339 rt s of
                Some t \<Rightarrow> ep\<lparr>ep_value_datetime := Some t\<rparr> | None \<Rightarrow> ep)
            | _ \<Rightarrow> ep)
         else ep)"

definition buildProperties :: "runtime \<Rightarrow> string \<Rightarrow> (string \<times> TrackPropertyValue) list \<Rightarrow> EventProperty list" where
  "buildProperties rt eventID props =
     map (\<lambda>(key, pv). build_property rt eventID key pv)
       (filter (\<lambda>(key, pv). \<not> length key > maxKeyLen) (reorder (rt_map_order rt) props))"

subsection \<open>Track\<close>

definition skipped :: "TrackEventRequest \<Rightarrow> bool" where
  "skipped ev \<longleftrightarrow> ter_id ev = '''' \<or> ter_name ev = '''' \<or> length (ter_name ev) > maxEventNameLen
     \<or> length (ter_properties ev) > maxPropertiesPerEvent"

definition event_of :: "int \<Rightarrow> string \<Rightarrow> int option \<Rightarrow> string \<Rightarrow> string \<Rightarrow> string \<Rightarrow> TrackEventRequest \<Rightarrow> Event" where
  "event_of projectID deviceID userID ip country city ev =
     \<lparr>ev_id = ter_id ev, ev_project_id = projectID, ev_device_id = deviceID, ev_user_id = userID,
      ev_name = ter_name ev, ev_timestamp = ter_timestamp ev, ev_ip_address = ip,
      ev_country = country, ev_city = city, ev_created_at = go_zero_time\<rparr>"

text \<open>The loop over the batch; \<open>mk\<close> builds the event from the handler's locals.\<close>

fun track_loop ::
  "'s Store \<Rightarrow> runtime \<Rightarrow> (TrackEventRequest \<Rightarrow> Event) \<Rightarrow> TrackEventRequest list \<Rightarrow> nat \<Rightarrow> 's \<Rightarrow> nat \<times> 's" where
  "track_loop st rt mk [] accepted s = (accepted, s)"
| "track_loop st rt mk (ev # evs) accepted s =
     (if skipped ev then track_loop st rt mk evs accepted s
      else
        (case InsertEvent st (mk ev) s of
           (Inr True, s1) \<Rightarrow>
             (let s2 = (if ter_properties ev \<noteq> []
                        then snd (InsertEventProperties st (buildProperties rt (ter_id ev) (ter_properties ev)) s1)
                        else s1)
              in track_loop st rt mk evs (accepted + 1) s2)
         | (_, s1) \<Rightarrow> track_loop st rt mk evs accepted s1))"

definition Track :: "'s TrackingHandler \<Rightarrow> runtime \<Rightarrow> 's handler" where
  "Track h rt r w s =
     (let projectID = GetProjectID r in
      case decodeJSON rt decode_track r of
        None \<Rightarrow> (writeError 400 ''VALIDATION_ERROR'' ''invalid request body'' w, s)
      | Some req \<Rightarrow>
          if tr_device_id req = ''''
          then (writeError 400 ''VALIDATION_ERROR'' ''device_id is required'' w, s)
          else if tr_events req = []
          then (writeError 400 ''VALIDATION_ERROR'' ''events array is empty'' w, s)
          else if length (tr_events req) > maxEventsPerBatch
          then (writeError 400 ''VALIDATION_ERROR'' ''max 100 events per batch'' w, s)
          else
            (let ip = clientIPTrusted h r;
                 loc = (case th_geo h of None \<Rightarrow> \<lparr>loc_country = '''', loc_city = ''''\<rparr> | Some lookup \<Rightarrow> lookup ip);
                 (userID, s1) =
                   (case tr_user_id req of
                      Some u \<Rightarrow> (Some u, s)
                    | None \<Rightarrow> (case GetDeviceUserID (th_store h) (tr_device_id req) s of
                                 (Inr u, s') \<Rightarrow> (u, s') | (Inl _, s') \<Rightarrow> (None, s')));
                 (accepted, s2) = track_loop (th_store h) rt
                   (event_of projectID (tr_device_id req) userID ip (loc_country loc) (loc_city loc))
                   (tr_events req) 0 s1
             in (writeJSON 202 (TrackResponse accepted) w, s2)))"

subsection \<open>Device and Identify\<close>

definition Device_handler :: "'s TrackingHandler \<Rightarrow> runtime \<Rightarrow> 's handler" where
  "Device_handler h rt r w s =
     (let projectID = GetProjectID r in
      case decodeJSON rt decode_device r of
        None \<Rightarrow> (writeError 400 ''VALIDATION_ERROR'' ''invalid request body'' w, s)
      | Some req \<Rightarrow>
          if dr_device_id req = '''' \<or> dr_platform req = ''''
          then (writeError 400 ''VALIDATION_ERROR'' ''device_id and platform are required'' w, s)
          else
            (case UpsertDevice (th_store h)
                \<lparr>dev_id = dr_device_id req, dev_project_id = projectID, dev_user_id = None,
                 dev_platform = dr_platform req, dev_os_version = dr_os_version req,
                 dev_app_version = dr_app_version req, dev_locale = dr_locale req,
                 dev_first_seen_at = go_zero_time, dev_last_seen_at = go_zero_time\<rparr> s of
               (Inl _, s') \<Rightarrow> (writeError 500 ''INTERNAL_ERROR'' ''failed to register device'' w, s')
             | (Inr _, s') \<Rightarrow> (write_header 200 w, s')))"

definition Identify :: "'s TrackingHandler \<Rightarrow> runtime \<Rightarrow> 's handler" where
  "Identify h rt r w s =
     (let projectID = GetProjectID r in
      case decodeJSON rt decode_identify r of
        None \<Rightarrow> (writeError 400 ''VALIDATION_ERROR'' ''invalid request body'' w, s)
      | Some req \<Rightarrow>
          if ir_device_id req = '''' \<or> ir_anonymous_id req = ''''
          then (writeError 400 ''VALIDATION_ERROR'' ''device_id and anonymous_id are required'' w, s)
          else
            (case GetOrCreateAppUser (th_store h) projectID (ir_anonymous_id req) s of
               (Inl _, s1) \<Rightarrow> (writeError 500 ''INTERNAL_ERROR'' ''failed to create user'' w, s1)
             | (Inr user, s1) \<Rightarrow>
                 (case LinkDeviceToUser (th_store h) (ir_device_id req) (au_id user) s1 of
                    (Inl _, s2) \<Rightarrow> (writeError 500 ''INTERNAL_ERROR'' ''failed to link device'' w, s2)
                  | (Inr _, s2) \<Rightarrow> (writeJSON 200 (IdentifyResponse (au_id user)) w, s2))))"

subsection \<open>What a batch does, from the contract of the store\<close>

text \<open>One round of the loop: whether the event is accepted, and the state after it.\<close>

definition track_one ::
  "'s Store \<Rightarrow> runtime \<Rightarrow> (TrackEventRequest \<Rightarrow> Event) \<Rightarrow> TrackEventRequest \<Rightarrow> 's \<Rightarrow> bool \<times> 's" where
  "track_one st rt mk ev s =
     (if skipped ev then (False, s)
      else (case InsertEvent st (mk ev) s of
              (Inr True, s1) \<Rightarrow>
                (True, if ter_properties ev \<noteq> []
                       then snd (InsertEventProperties st (buildProperties rt (ter_id ev) (ter_properties ev)) s1)
                       else s1)
            | (_, s1) \<Rightarrow> (False, s1)))"

lemma track_loop_Cons:
  "track_loop st rt mk (ev # evs) n s =
     (case track_one st rt mk ev s of (b, s') \<Rightarrow> track_loop st rt mk evs (n + of_bool b) s')"
  by (auto simp: track_one_def Let_def split: prod.split sum.split bool.split)

lemmas track_loop_rec = track_loop.simps(1) track_loop_Cons

abbreviation wanted_props :: "runtime \<Rightarrow> TrackEventRequest \<Rightarrow> EventProperty list" where
  "wanted_props rt ev \<equiv> map strip_id (buildProperties rt (ter_id ev) (ter_properties ev))"

lemma buildProperties_Nil [simp]: "buildProperties rt i [] = []"
  by (simp add: buildProperties_def)

text \<open>
  What a batch amounts to, on the events \<open>E\<close> and the properties \<open>P\<close> of a store: the rows that were
  there stay, each new row is the image of a valid event of the batch, the count is that of the new rows,
  and properties come in complete sets of new events.
\<close>

definition ingests ::
  "runtime \<Rightarrow> (TrackEventRequest \<Rightarrow> Event) \<Rightarrow> TrackEventRequest list \<Rightarrow> nat \<Rightarrow>
   (string \<Rightarrow> EventRow option) \<Rightarrow> EventProperty list \<Rightarrow>
   (string \<Rightarrow> EventRow option) \<Rightarrow> EventProperty list \<Rightarrow> bool" where
  "ingests rt mk evs n E P E' P' \<longleftrightarrow>
     E \<subseteq>\<^sub>m E' \<and> finite (dom E' - dom E) \<and> n = card (dom E' - dom E) \<and>
     (\<forall>i e. E i = None \<longrightarrow> E' i = Some e \<longrightarrow>
        (\<exists>ev \<in> set evs. \<not> skipped ev \<and> ter_id ev = i \<and> stored_as (mk ev) e)) \<and>
     (\<exists>kept. subseq kept evs \<and> ter_id ` set kept \<subseteq> dom E' - dom E \<and>
        P' = P @ concat (map (wanted_props rt) kept))"

lemma ingests_Nil: "ingests rt mk [] 0 E P E P"
  unfolding ingests_def by (auto intro: exI [of _ "[]"])

lemma ingests_rejected:
  assumes "ingests rt mk evs n E P E' P'"
  shows "ingests rt mk (ev # evs) n E P E' P'"
proof -
  obtain kept where k: "subseq kept evs" "ter_id ` set kept \<subseteq> dom E' - dom E"
      "P' = P @ concat (map (wanted_props rt) kept)"
    using assms(1) unfolding ingests_def by blast
  have "subseq kept (ev # evs)" using k(1) by (rule list_emb_Cons)
  with assms k show ?thesis unfolding ingests_def by (auto intro!: exI [of _ kept])
qed

lemma ingests_accepted:
  assumes "ingests rt mk evs n E1 P1 E' P'" and new: "E (ter_id ev) = None" and "\<not> skipped ev"
    and e: "stored_as (mk ev) e" "E1 = E(ter_id ev \<mapsto> e)"
    and p: "P1 \<in> {P, P @ wanted_props rt ev}"
  shows "ingests rt mk (ev # evs) (Suc n) E P E' P'"
proof -
  let ?D = "dom E' - dom E" and ?D1 = "dom E' - dom E1"
  have I: "E1 \<subseteq>\<^sub>m E'" "finite ?D1" "n = card ?D1"
    and rows: "\<And>i e. E1 i = None \<Longrightarrow> E' i = Some e \<Longrightarrow>
        \<exists>ev \<in> set evs. \<not> skipped ev \<and> ter_id ev = i \<and> stored_as (mk ev) e"
    using assms(1) unfolding ingests_def by blast+
  obtain kept where k: "subseq kept evs" "ter_id ` set kept \<subseteq> ?D1"
      "P' = P1 @ concat (map (wanted_props rt) kept)"
    using assms(1) unfolding ingests_def by blast
  have at: "E' (ter_id ev) = Some e"
    using I(1) e(2) by (metis domI fun_upd_same map_le_def)
  have D: "?D = insert (ter_id ev) ?D1" "ter_id ev \<notin> ?D1" using e(2) new at by auto
  have "E \<subseteq>\<^sub>m E1" using new by (auto simp: e(2) map_le_def)
  then have le: "E \<subseteq>\<^sub>m E'" using I(1) by (rule map_le_trans)
  have ev: "\<exists>ev' \<in> set (ev # evs). \<not> skipped ev' \<and> ter_id ev' = i \<and> stored_as (mk ev') x"
    if "E i = None" "E' i = Some x" for i x
  proof (cases "i = ter_id ev")
    case True
    then show ?thesis using that at assms(3) e(1) by auto
  next
    case False
    then show ?thesis using rows [of i x] that e(2) by auto
  qed
  have props: "\<exists>kept. subseq kept (ev # evs) \<and> ter_id ` set kept \<subseteq> ?D \<and>
      P' = P @ concat (map (wanted_props rt) kept)"
  proof (cases "P1 = P")
    case True
    with k D show ?thesis by (intro exI [of _ kept]) auto
  next
    case False
    with k D p show ?thesis by (intro exI [of _ "ev # kept"]) auto
  qed
  show ?thesis
    unfolding ingests_def using I(2,3) le ev props D by (simp add: card_insert_if)
qed

context event_store
begin

lemma track_one_accepts:
  assumes "track_one st rt mk ev s = (True, s')" and "wf s" and id: "ev_id (mk ev) = ter_id ev"
  shows "\<not> skipped ev \<and> wf s' \<and> events_of s (ter_id ev) = None \<and>
    (\<exists>e. stored_as (mk ev) e \<and> events_of s' = (events_of s)(ter_id ev \<mapsto> e)) \<and>
    props_of s' \<in> {props_of s, props_of s @ wanted_props rt ev}"
proof -
  let ?ps = "buildProperties rt (ter_id ev) (ter_properties ev)"
  obtain s1 where ns: "\<not> skipped ev" and i: "InsertEvent st (mk ev) s = (Inr True, s1)"
    and s': "s' = (if ter_properties ev \<noteq> [] then snd (InsertEventProperties st ?ps s1) else s1)"
    using assms(1) by (auto simp: track_one_def split: if_splits prod.splits sum.splits bool.splits)
  have wf1: "wf s1" and p1: "props_of s1 = props_of s"
    using insert_event_wf [OF i assms(2)] insert_event_props [OF i assms(2)] by auto
  have new: "events_of s (ter_id ev) = None \<and>
      (\<exists>e. stored_as (mk ev) e \<and> events_of s1 = (events_of s)(ter_id ev \<mapsto> e))"
    using insert_event_new [OF i assms(2)] by (simp add: id)
  show ?thesis
  proof (cases "ter_properties ev = []")
    case True
    then show ?thesis using ns wf1 p1 new s' by simp
  next
    case False
    obtain q s2 where q: "InsertEventProperties st ?ps s1 = (q, s2)" by fastforce
    have "props_of s2 \<in> {props_of s1, props_of s1 @ wanted_props rt ev}"
      using insert_props_ok insert_props_err q wf1 by (cases q) auto
    moreover have "wf s2" "events_of s2 = events_of s1"
      using insert_props_wf [OF q wf1] insert_props_events [OF q wf1] by auto
    ultimately show ?thesis using False ns p1 new s' q by simp
  qed
qed

lemma track_one_rejects:
  assumes "track_one st rt mk ev s = (False, s')" and "wf s"
  shows "wf s' \<and> events_of s' = events_of s \<and> props_of s' = props_of s"
proof (cases "skipped ev")
  case False
  then obtain r where i: "InsertEvent st (mk ev) s = (r, s')" and r: "r \<noteq> Inr True"
    using assms(1) by (auto simp: track_one_def split: prod.splits sum.splits bool.splits)
  have "events_of s' = events_of s"
    using i r insert_event_dup insert_event_err assms(2) by (cases r) auto
  then show ?thesis using insert_event_wf [OF i assms(2)] insert_event_props [OF i assms(2)] by blast
qed (use assms in \<open>auto simp: track_one_def\<close>)

lemma track_loop_ingests:
  assumes "track_loop st rt mk evs n s = (n', s')" and "wf s" and id: "\<And>ev. ev_id (mk ev) = ter_id ev"
  shows "wf s' \<and> n \<le> n' \<and>
    ingests rt mk evs (n' - n) (events_of s) (props_of s) (events_of s') (props_of s')"
  using assms(1,2)
proof (induction evs arbitrary: n s)
  case Nil
  then show ?case by (simp add: ingests_Nil)
next
  case (Cons ev evs)
  obtain b s1 where one: "track_one st rt mk ev s = (b, s1)" by fastforce
  have rest: "track_loop st rt mk evs (n + of_bool b) s1 = (n', s')"
    using Cons.prems(1) one by (simp only: track_loop_Cons prod.case)
  show ?case
  proof (cases b)
    case False
    have r: "wf s1" "events_of s1 = events_of s" "props_of s1 = props_of s"
      using track_one_rejects [OF _ Cons.prems(2)] one False by auto
    have "wf s' \<and> n \<le> n' \<and>
        ingests rt mk evs (n' - n) (events_of s1) (props_of s1) (events_of s') (props_of s')"
      using Cons.IH [OF _ r(1)] rest False by simp
    with r show ?thesis using ingests_rejected by simp
  next
    case True
    obtain e where a: "\<not> skipped ev" "wf s1" "events_of s (ter_id ev) = None" "stored_as (mk ev) e"
        "events_of s1 = (events_of s)(ter_id ev \<mapsto> e)" "props_of s1 \<in> {props_of s, props_of s @ wanted_props rt ev}"
      using track_one_accepts [of rt mk ev s s1, OF _ Cons.prems(2) id] one True by auto
    have i: "wf s' \<and> n + 1 \<le> n' \<and>
        ingests rt mk evs (n' - (n + 1)) (events_of s1) (props_of s1) (events_of s') (props_of s')"
      using Cons.IH [OF _ a(2)] rest True by simp
    then have "ingests rt mk (ev # evs) (Suc (n' - (n + 1))) (events_of s) (props_of s) (events_of s') (props_of s')"
      using ingests_accepted a(1,3-6) by blast
    with i show ?thesis by (simp add: Suc_diff_Suc)
  qed
qed

text \<open>A batch whose valid events are all known adds nothing.\<close>

lemma track_loop_resend:
  assumes "track_loop st rt mk evs n s = (n', s')" and "wf s" and id: "\<And>ev. ev_id (mk ev) = ter_id ev"
    and "\<And>ev. ev \<in> set evs \<Longrightarrow> skipped ev \<or> events_of s (ter_id ev) \<noteq> None"
  shows "n' = n \<and> wf s' \<and> events_of s' = events_of s \<and> props_of s' = props_of s"
  using assms(1,2,4)
proof (induction evs arbitrary: n s)
  case (Cons ev evs)
  obtain b s1 where one: "track_one st rt mk ev s = (b, s1)" by fastforce
  have "skipped ev \<or> events_of s (ter_id ev) \<noteq> None" using Cons.prems(3) by simp
  then have "\<not> b" using track_one_accepts [of rt mk ev s s1, OF _ Cons.prems(2) id] one by (cases b) auto
  then have r: "wf s1" "events_of s1 = events_of s" "props_of s1 = props_of s"
    using track_one_rejects [OF _ Cons.prems(2)] one by auto
  have "track_loop st rt mk evs n s1 = (n', s')"
    using Cons.prems(1) one \<open>\<not> b\<close> by (simp only: track_loop_Cons prod.case) simp
  then show ?case using Cons.IH [OF _ r(1)] Cons.prems(3) r by simp
qed simp

end

definition rejected_body :: "writer \<Rightarrow> writer \<Rightarrow> bool" where
  "rejected_body w w' \<longleftrightarrow> status w' = 400 \<and>
     (\<exists>m. w_body w' = w_body w @ [ErrorResponse ''VALIDATION_ERROR'' m])"

lemma rejected_writeError:
  "w_sent w = None \<Longrightarrow> rejected_body w (writeError 400 ''VALIDATION_ERROR'' m w)"
  by (simp add: rejected_body_def writeError_fresh)

lemma event_of_id [simp]: "ev_id (event_of p dev u ip c t ev) = ter_id ev"
  by (simp add: event_of_def)

text \<open>The answers of \<open>Track\<close>: a rejected body without an effect, or 202 after the loop.\<close>

lemma Track_cases:
  assumes "Track h rt r w s = (w', s')" and "w_sent w = None"
  shows "rejected_body w w' \<and> s' = s \<or>
    (\<exists>req u s1 n c t. decodeJSON rt decode_track r = Some req \<and> tr_device_id req \<noteq> '''' \<and>
       tr_events req \<noteq> [] \<and> length (tr_events req) \<le> maxEventsPerBatch \<and>
       (s1 = s \<or> (\<exists>q. GetDeviceUserID (th_store h) (tr_device_id req) s = (q, s1))) \<and>
       track_loop (th_store h) rt (event_of (GetProjectID r) (tr_device_id req) u (clientIPTrusted h r) c t)
         (tr_events req) 0 s1 = (n, s') \<and>
       status w' = 202 \<and> w_body w' = w_body w @ [TrackResponse n])"
proof (cases "decodeJSON rt decode_track r")
  case None
  then show ?thesis using assms by (auto simp: Track_def Let_def intro: rejected_writeError)
next
  case (Some req)
  show ?thesis
  proof (cases "tr_device_id req = '''' \<or> tr_events req = [] \<or> length (tr_events req) > maxEventsPerBatch")
    case True
    then show ?thesis using assms Some
      by (auto simp: Track_def Let_def intro: rejected_writeError split: if_splits)
  next
    case False
    let ?loc = "case th_geo h of None \<Rightarrow> \<lparr>loc_country = '''', loc_city = ''''\<rparr>
        | Some lookup \<Rightarrow> lookup (clientIPTrusted h r)"
    obtain u s1 where us: "(case tr_user_id req of
                      Some u \<Rightarrow> (Some u, s)
                    | None \<Rightarrow> (case GetDeviceUserID (th_store h) (tr_device_id req) s of
                                 (Inr u, s') \<Rightarrow> (u, s') | (Inl _, s') \<Rightarrow> (None, s'))) = (u, s1)" by fastforce
    then have s1: "s1 = s \<or> (\<exists>q. GetDeviceUserID (th_store h) (tr_device_id req) s = (q, s1))"
      by (auto split: option.splits prod.splits sum.splits)
    obtain n s2 where l: "track_loop (th_store h) rt
        (event_of (GetProjectID r) (tr_device_id req) u (clientIPTrusted h r) (loc_country ?loc) (loc_city ?loc))
        (tr_events req) 0 s1 = (n, s2)" by fastforce
    have res: "w' = writeJSON 202 (TrackResponse n) w" "s' = s2"
      using assms(1) False unfolding Track_def Let_def Some by (simp_all add: us l Let_def)
    show ?thesis
      using False Some s1 l assms(2) res
      by (intro disjI2 exI [of _ req] exI [of _ u] exI [of _ s1] exI [of _ n]
          exI [of _ "loc_country ?loc"] exI [of _ "loc_city ?loc"]) (auto simp: writeJSON_fresh)
  qed
qed

context event_store
begin

lemma Track_ingests:
  assumes "Track h rt r w s = (w', s')" and "th_store h = st" and "wf s" and "w_sent w = None"
  shows "rejected_body w w' \<and> s' = s \<or>
    (\<exists>req u n c t. decodeJSON rt decode_track r = Some req \<and> length (tr_events req) \<le> maxEventsPerBatch \<and>
       status w' = 202 \<and> w_body w' = w_body w @ [TrackResponse n] \<and> wf s' \<and>
       ingests rt (event_of (GetProjectID r) (tr_device_id req) u (clientIPTrusted h r) c t) (tr_events req) n
         (events_of s) (props_of s) (events_of s') (props_of s'))"
  using Track_cases [OF assms(1,4)]
proof (rule disjE; (elim exE conjE)?)
  fix req u s1 n c t
  assume d: "decodeJSON rt decode_track r = Some req" "length (tr_events req) \<le> maxEventsPerBatch"
    and s1: "s1 = s \<or> (\<exists>q. GetDeviceUserID (th_store h) (tr_device_id req) s = (q, s1))"
    and l: "track_loop (th_store h) rt (event_of (GetProjectID r) (tr_device_id req) u (clientIPTrusted h r) c t)
         (tr_events req) 0 s1 = (n, s')"
    and w: "status w' = 202" "w_body w' = w_body w @ [TrackResponse n]"
  have "wf s1" "events_of s1 = events_of s" "props_of s1 = props_of s"
    using s1 assms(2,3) device_user_wf device_user_events device_user_props by auto
  with track_loop_ingests [OF l [unfolded assms(2)]] d w show ?thesis by fastforce
qed blast

lemma Track_resend:
  assumes "Track h rt r w s = (w', s')" and "th_store h = st" and "wf s" and "w_sent w = None"
    and "decodeJSON rt decode_track r = Some req"
    and known: "\<And>ev. ev \<in> set (tr_events req) \<Longrightarrow> skipped ev \<or> events_of s (ter_id ev) \<noteq> None"
  shows "events_of s' = events_of s \<and> props_of s' = props_of s \<and>
    (rejected_body w w' \<or> status w' = 202 \<and> w_body w' = w_body w @ [TrackResponse 0])"
  using Track_cases [OF assms(1,4)]
proof (rule disjE; (elim exE conjE)?)
  fix req' u s1 n c t
  assume "decodeJSON rt decode_track r = Some req'"
    and s1: "s1 = s \<or> (\<exists>q. GetDeviceUserID (th_store h) (tr_device_id req') s = (q, s1))"
    and l: "track_loop (th_store h) rt (event_of (GetProjectID r) (tr_device_id req') u (clientIPTrusted h r) c t)
         (tr_events req') 0 s1 = (n, s')"
    and w: "status w' = 202" "w_body w' = w_body w @ [TrackResponse n]"
  then have [simp]: "req' = req" using assms(5) by simp
  have v: "wf s1" "events_of s1 = events_of s" "props_of s1 = props_of s"
    using s1 assms(2,3) device_user_wf device_user_events device_user_props by auto
  from track_loop_resend [OF l [unfolded assms(2)] v(1)] known v w show ?thesis by simp
qed blast

end

subsection \<open>Tracking into SQLite\<close>


text \<open>A handler and a request of project 1.\<close>

definition sample_handler :: "db TrackingHandler" where
  "sample_handler = NewTrackingHandler SQLiteStore None []"

definition track_request :: request where
  "track_request = (sample_request ''abc'' '''')\<lparr>rq_project_id := Some 1\<rparr>"

text \<open>A batch of a new event, the same event again, one already stored and one without a name.\<close>

definition sample_property :: "string \<Rightarrow> json_tree" where
  "sample_property typ = TObject [(''type'', TString typ), (''value'', TNumber ''7'')]"

definition sample_event :: "string \<Rightarrow> string \<Rightarrow> (string \<times> json_tree) list \<Rightarrow> json_tree" where
  "sample_event i nm ps = TObject [(''id'', TString i), (''name'', TString nm), (''properties'', TObject ps)]"

definition sample_batch :: json_tree where
  "sample_batch = TObject [(''device_id'', TString ''phone''), (''events'', TArray
     [sample_event ''n1'' ''open'' [(''level'', sample_property ''int'')],
      sample_event ''n1'' ''open'' [(''level'', sample_property ''int'')],
      sample_event ''e1'' ''open'' [], sample_event ''n2'' '''' []])]"



definition known_batch :: json_tree where
  "known_batch = TObject [(''device_id'', TString ''phone''), (''events'', TArray
     [sample_event ''e1'' ''open'' [(''level'', sample_property ''int'')], sample_event ''e2'' ''view'' []])]"


subsection \<open>Unchecked property types\<close>

lemma insert_properties_bad_type:
  "p \<in> set ps \<Longrightarrow> ep_value_type p \<notin> set value_types \<Longrightarrow> \<exists>e d'. sqlite_insert_properties ps d = (Inl e, d')"
proof (induction ps arbitrary: d)
  case (Cons q ps)
  obtain r d1 where q: "sqlite_insert_property q d = (r, d1)" by fastforce
  show ?case
  proof (cases r)
    case (Inl e)
    then show ?thesis using q by simp
  next
    case (Inr u)
    then have "q \<noteq> p" using q Cons.prems(2) insert_property_Inr by blast
    then show ?thesis using Cons.IH [of d1] Cons.prems q Inr by simp
  qed
qed simp

text \<open>
  A property type outside the five of the schema makes the whole transaction fail: the event's other
  properties are not stored either (\<open>Track\<close> ignores this error and counts the event as accepted).
\<close>

theorem bad_property_type_loses_all:
  assumes "sqlite_InsertEventProperties ps d = (q, d')" and "p \<in> set ps" and "ep_value_type p \<notin> set value_types"
  shows "\<not> is_ok q \<and> event_properties d' = event_properties d"
proof -
  have "\<not> is_ok q"
  proof
    assume "is_ok q"
    then obtain d3 where "sqlite_insert_properties ps (tick_db (tick_db d)) = (Inr (), d3)"
      using assms(1) unfolding sqlite_InsertEventProperties_def
      by (auto split: prod.splits sum.splits dest!: nop_stmt_state)
    then show False using insert_properties_bad_type [OF assms(2,3), of "tick_db (tick_db d)"] by auto
  qed
  then show ?thesis using insert_event_properties_atomic(3) [OF assms(1)] by blast
qed

lemma bad_property_type_loses_all_witness:
  "event_properties (snd (sqlite_InsertEventProperties
     (buildProperties (sample_runtime TNull) ''e1''
        [(''level'', \<lparr>tpv_type = ''int'', tpv_value = JNumber 7\<rparr>), (''tint'', \<lparr>tpv_type = ''colour'', tpv_value = JNull\<rparr>)])
     sample_db)) = event_properties sample_db"
proof -
  let ?ps = "buildProperties (sample_runtime TNull) ''e1''
        [(''level'', \<lparr>tpv_type = ''int'', tpv_value = JNumber 7\<rparr>), (''tint'', \<lparr>tpv_type = ''colour'', tpv_value = JNull\<rparr>)]"
  have "ep_value_type (last ?ps) \<notin> set value_types" by code_simp
  moreover have "last ?ps \<in> set ?ps" by (rule last_in_set) (simp add: buildProperties_def sample_runtime_def maxKeyLen_def)
  ultimately show ?thesis using bad_property_type_loses_all [OF surjective_pairing] by blast
qed

definition mixed_batch :: json_tree where
  "mixed_batch = TObject [(''device_id'', TString ''phone''), (''events'', TArray
     [sample_event ''n1'' ''open'' [(''level'', sample_property ''int''), (''tint'', sample_property ''colour'')]])]"

text \<open>
  The request level of the same: an event with one property of an unknown type is reported as
  accepted, and its well-typed property is silently dropped.
\<close>

theorem Track_drops_properties_silently:
  "(case Track sample_handler (sample_runtime mixed_batch) track_request new_writer sample_db of
      (w', d') \<Rightarrow> status w' = 202 \<and> w_body w' = [TrackResponse 1] \<and>
        map e_id (events d') = [''e1'', ''e2'', ''e3'', ''n1''] \<and>
        map ep_event_id (event_properties d') = [''e1'', ''e2''])"
  by code_simp

text \<open>
  An \<open>int\<close> property travels through a \<open>float64\<close>: from \<open>2 ^ 53\<close> on the stored integer differs from the
  one sent.
\<close>

theorem int_property_loses_precision:
  "map_option (\<lambda>v. ep_value_int (build_property (sample_runtime TNull) ''e1'' ''n'' \<lparr>tpv_type = ''int'', tpv_value = v\<rparr>))
     (into_any (TNumber ''9007199254740993'')) = Some (Some 9007199254740992)"
  by code_simp

subsection \<open>Identify\<close>

context identity_store
begin

lemma Identify_ok:
  assumes "Identify h rt r w s = (w', s')" and "th_store h = st" and "wf s" and "w_sent w = None"
    and "decodeJSON rt decode_identify r = Some req" and "status w' = 200"
  shows "\<exists>uid. w_body w' = w_body w @ [IdentifyResponse uid] \<and> wf s' \<and>
    user_of s' = (user_of s)((GetProjectID r, ir_anonymous_id req) \<mapsto> uid) \<and>
    (case user_of s (GetProjectID r, ir_anonymous_id req) of Some i \<Rightarrow> uid = i | None \<Rightarrow> uid \<notin> ran (user_of s)) \<and>
    link_of s' = (if link_of s (ir_device_id req) = None then link_of s
                  else (link_of s)(ir_device_id req \<mapsto> Some uid))"
proof -
  let ?p = "GetProjectID r" and ?a = "ir_anonymous_id req" and ?dev = "ir_device_id req"
  have ne: "?dev \<noteq> ''''" "?a \<noteq> ''''"
    using assms(1,4-6) by (auto simp: Identify_def Let_def writeError_fresh)
  obtain x s1 where g: "GetOrCreateAppUser st ?p ?a s = (x, s1)" by fastforce
  obtain user where x: "x = Inr user"
    using assms(1,2,4-6) ne g by (cases x) (auto simp: Identify_def Let_def writeError_fresh)
  obtain y s2 where l: "LinkDeviceToUser st ?dev (au_id user) s1 = (y, s2)" by fastforce
  obtain v where y: "y = Inr v"
    using assms(1,2,4-6) ne g x l by (cases y) (auto simp: Identify_def Let_def writeError_fresh)
  have res: "w' = writeJSON 200 (IdentifyResponse (au_id user)) w" "s' = s2"
    using assms(1,2,5) ne g x l y by (auto simp: Identify_def Let_def)
  have g': "GetOrCreateAppUser st ?p ?a s = (Inr user, s1)" and l': "LinkDeviceToUser st ?dev (au_id user) s1 = (Inr v, s2)"
    using g x l y by simp_all
  have wf1: "wf s1" using get_or_create_wf [OF g' assms(3)] .
  show ?thesis
    using get_or_create_ok [OF g' assms(3)] get_or_create_links [OF g' assms(3)]
      link_wf [OF l' wf1] link_users [OF l' wf1] link_ok [OF l' wf1] res assms(4)
    by (intro exI [of _ "au_id user"]) (simp add: writeJSON_fresh)
qed

end

text \<open>
  C11. Identify: a request answered with 200 returns the one user of its project's anonymous id (created
  under a fresh id on first use, the same one ever after), registers no other user, and links the device
  to that user and no other device; a device that was never registered stays unknown.
\<close>

theorem Identify_links:
  assumes "Identify h rt r w d = (w', d')" and "th_store h = SQLiteStore" and "db_ok d" and "w_sent w = None"
    and "decodeJSON rt decode_identify r = Some req" and "status w' = 200"
  shows "\<exists>uid. w_body w' = w_body w @ [IdentifyResponse uid] \<and> db_ok d' \<and>
    user_of d' = (user_of d)((GetProjectID r, ir_anonymous_id req) \<mapsto> uid) \<and>
    (case user_of d (GetProjectID r, ir_anonymous_id req) of Some i \<Rightarrow> uid = i | None \<Rightarrow> uid \<notin> ran (user_of d)) \<and>
    link_of d' = (if link_of d (ir_device_id req) = None then link_of d
                  else (link_of d)(ir_device_id req \<mapsto> Some uid))"
  by (rule sqlite_users.Identify_ok [OF assms])

definition identify_body :: json_tree where
  "identify_body = TObject [(''device_id'', TString ''web''), (''anonymous_id'', TString ''u1'')]"

lemma Identify_links_witness:
  "\<exists>uid. w_body (fst (Identify sample_handler (sample_runtime identify_body) track_request new_writer sample_db))
       = [IdentifyResponse uid] \<and>
     user_of sample_db (1, ''u1'') = Some uid \<and>
     link_of (snd (Identify sample_handler (sample_runtime identify_body) track_request new_writer sample_db)) ''web''
       = Some (Some uid)"
proof -
  let ?rt = "sample_runtime identify_body" and ?req = "\<lparr>ir_device_id = ''web'', ir_anonymous_id = ''u1''\<rparr>"
  have h: "th_store sample_handler = SQLiteStore" "w_sent new_writer = None"
    "GetProjectID track_request = 1" "w_body new_writer = []"
    by (simp_all add: sample_handler_def NewTrackingHandler_def new_writer_def GetProjectID_def track_request_def)
  have q: "decodeJSON ?rt decode_identify track_request = Some ?req"
    "status (fst (Identify sample_handler ?rt track_request new_writer sample_db)) = 200"
    "user_of sample_db (1, ''u1'') = Some 1" "link_of sample_db ''web'' = Some None"
    by code_simp+
  from Identify_links [OF surjective_pairing h(1) sample_db_ok h(2) q(1,2)] h(3,4) q(3,4)
  show ?thesis by auto
qed

subsection \<open>Addresses\<close>

text \<open>
  With a list of trusted proxies, a peer that is not on it cannot choose the address it is recorded
  under: the forwarding headers are ignored.  (Without a list every peer can.)
\<close>

theorem untrusted_headers_ignored:
  assumes "proxies \<noteq> []" and "clientIP r \<notin> set proxies"
  shows "clientIPTrusted (NewTrackingHandler st geo proxies) r = clientIP r"
  using assms by (simp add: clientIPTrusted_def NewTrackingHandler_def Let_def)

definition forwarded_request :: "string \<Rightarrow> request" where
  "forwarded_request addr = track_request\<lparr>rq_remote_addr := addr,
     rq_header := [(''X-Forwarded-For'', ''192.0.2.9, 10.0.0.2''), (''X-Real-Ip'', ''192.0.2.8'')]\<rparr>"

lemma untrusted_headers_ignored_witness:
  "clientIPTrusted (NewTrackingHandler SQLiteStore None [''10.0.0.2'']) (forwarded_request ''203.0.113.5:99'')
     = ''203.0.113.5''"
proof -
  have "clientIP (forwarded_request ''203.0.113.5:99'') = ''203.0.113.5''" by code_simp
  with untrusted_headers_ignored [of "[''10.0.0.2'']" "forwarded_request ''203.0.113.5:99''" SQLiteStore None]
  show ?thesis by simp
qed

text \<open>
  The address of an IPv6 peer keeps its brackets, so a trusted proxy reached over IPv6 is not
  recognised under the address an operator lists.
\<close>

theorem ipv6_peer_keeps_brackets:
  "clientIP (forwarded_request ''[2001:db8::1]:443'') = ''[2001:db8::1]'' \<and>
   clientIPTrusted (NewTrackingHandler SQLiteStore None [''2001:db8::1'']) (forwarded_request ''[2001:db8::1]:443'')
     = ''[2001:db8::1]''"
  by code_simp

text \<open>
  For an address of the form host:port with a port free of colons, the recorded address is the host.
\<close>

theorem clientIP_host:
  assumes "CHR '':'' \<notin> set port"
  shows "clientIP (r\<lparr>rq_remote_addr := host @ CHR '':'' # port\<rparr>) = host"
proof -
  have "last_index_byte (host @ CHR '':'' # port) (CHR '':'') = Some (length host)"
    using last_index_byte_None [of port "CHR '':''"] assms by (induction host) simp_all
  then show ?thesis by (simp add: clientIP_def)
qed

lemma clientIP_host_witness: "clientIP (track_request\<lparr>rq_remote_addr := ''10.0.0.1'' @ CHR '':'' # ''4711''\<rparr>) = ''10.0.0.1''"
  by (rule clientIP_host) simp

subsection \<open>Projects share devices\<close>

text \<open>
  Nothing ties an event's project to its device's: with a token of project 2 a client records events
  on a device that project 1 registered, and deleting project 1 then deletes project 2's events.
\<close>

theorem foreign_device_events_lost:
  "(case Track sample_handler (sample_runtime sample_batch) (track_request\<lparr>rq_project_id := Some 2\<rparr>) new_writer sample_db of
      (w', d') \<Rightarrow> w_body w' = [TrackResponse 1] \<and>
        map_option e_project_id (events_of d' ''n1'') = Some 2 \<and>
        map_option d_project_id (row_at d_id (devices d') ''phone'') = Some 1 \<and>
        events_of (snd (sqlite_DeleteProject 1 d')) ''n1'' = None)"
  by code_simp

end
