(* ===== verification/Auth_Service.thy ===== *)
theory Auth_Service
  imports Http
begin

text \<open>
  \<open>internal/auth/auth.go\<close>.  bcrypt, golang-jwt and the TOTP library are third-party code: what the
  service calls of them is the record \<open>auth_lib\<close>.  The checks \<open>jwt.ParseWithClaims\<close> is documented to make
  (parse, ask the key function, verify the signature, validate the expiry) are written out around the
  library's parser and signature check.  Times in tokens have a resolution of one second.
\<close>

datatype sig_method = HMAC | OtherMethod string

record jwt_token =
  jt_method :: sig_method
  jt_claims :: Claims
  jt_expires :: "instant option"
  jt_issued :: "instant option"

record auth_lib =
  al_bcrypt :: "string \<Rightarrow> string option"
  al_bcrypt_matches :: "string \<Rightarrow> string \<Rightarrow> bool"
  al_sign :: "string \<Rightarrow> jwt_token \<Rightarrow> string option"
  al_parse :: "string \<Rightarrow> jwt_token option"
  al_verify :: "string \<Rightarrow> string \<Rightarrow> bool"
  al_totp_generate :: "string \<Rightarrow> (string \<times> string) option"
  al_totp_matches :: "string \<Rightarrow> string \<Rightarrow> bool"
  al_random :: "nat list option"

subsection \<open>JSON Web Tokens\<close>

record Service =
  jwtSecret :: string

definition NewService :: "string \<Rightarrow> Service" where
  "NewService secret = \<lparr>jwtSecret = secret\<rparr>"

definition second :: int where "second = 1000000000"

definition numeric_date :: "instant \<Rightarrow> instant" where
  "numeric_date t = (t div second) * second"

definition GenerateJWT :: "auth_lib \<Rightarrow> Service \<Rightarrow> instant \<Rightarrow> int \<Rightarrow> string \<Rightarrow> string \<Rightarrow> string option" where
  "GenerateJWT lib svc now userID username role =
     al_sign lib (jwtSecret svc)
       \<lparr>jt_method = HMAC, jt_claims = \<lparr>cl_user_id = userID, cl_username = username, cl_role = role\<rparr>,
        jt_expires = Some (numeric_date (now + 4 * 3600 * second)), jt_issued = Some (numeric_date now)\<rparr>"

definition ValidateJWT :: "auth_lib \<Rightarrow> Service \<Rightarrow> instant \<Rightarrow> string \<Rightarrow> Claims option" where
  "ValidateJWT lib svc now tokenStr =
     (case al_parse lib tokenStr of
        None \<Rightarrow> None
      | Some t \<Rightarrow>
          if jt_method t \<noteq> HMAC then None
          else if \<not> al_verify lib (jwtSecret svc) tokenStr then None
          else if (case jt_expires t of None \<Rightarrow> False | Some e \<Rightarrow> \<not> now < e) then None
          else Some (jt_claims t))"

subsection \<open>Passwords, tokens, one-time codes\<close>

definition HashPassword :: "auth_lib \<Rightarrow> string \<Rightarrow> string option" where
  "HashPassword lib password = al_bcrypt lib password"

definition CheckPassword :: "auth_lib \<Rightarrow> string \<Rightarrow> string \<Rightarrow> bool" where
  "CheckPassword lib hash password = al_bcrypt_matches lib hash password"

definition hex_digit :: "nat \<Rightarrow> char" where
  "hex_digit n = ''0123456789abcdef'' ! n"

definition hex_encode :: "nat list \<Rightarrow> string" where
  "hex_encode bs = concat (map (\<lambda>b. [hex_digit (b div 16), hex_digit (b mod 16)]) bs)"

text \<open>\<open>rand.Read\<close> fills the 32 bytes or fails.\<close>

definition GenerateToken :: "auth_lib \<Rightarrow> string option" where
  "GenerateToken lib = map_option hex_encode (al_random lib)"

definition GenerateTOTPSecret :: "auth_lib \<Rightarrow> string \<Rightarrow> (string \<times> string) option" where
  "GenerateTOTPSecret lib username = al_totp_generate lib username"

definition ValidateTOTPCode :: "auth_lib \<Rightarrow> string \<Rightarrow> string \<Rightarrow> bool" where
  "ValidateTOTPCode lib secret code = al_totp_matches lib code secret"

subsection \<open>What the service guarantees\<close>

text \<open>
  C40. A token the service issues is accepted with exactly the claims it was issued for until four hours
  after its issue (in whole seconds), and by no later time; it needs that the library parses and verifies
  what it signs.
\<close>

theorem issued_token_valid_four_hours:
  assumes "GenerateJWT lib svc now i u r = Some tok"
    and sound: "\<And>t s. al_sign lib (jwtSecret svc) t = Some s \<Longrightarrow>
      al_parse lib s = Some t \<and> al_verify lib (jwtSecret svc) s"
  shows "ValidateJWT lib svc now' tok =
    (if now' < numeric_date (now + 4 * 3600 * second)
     then Some \<lparr>cl_user_id = i, cl_username = u, cl_role = r\<rparr> else None)"
  using sound [OF assms(1) [unfolded GenerateJWT_def]] by (simp add: ValidateJWT_def)

text \<open>A library for the examples: a token is its user name, hashes and codes are the texts themselves.\<close>

definition sample_lib :: auth_lib where
  "sample_lib =
     \<lparr>al_bcrypt = (\<lambda>p. if length p > 72 then None else Some (''h'' @ p)),
      al_bcrypt_matches = (\<lambda>h p. h = ''h'' @ p),
      al_sign = (\<lambda>k t. if t = \<lparr>jt_method = HMAC, jt_claims = \<lparr>cl_user_id = 1, cl_username = ''ann'', cl_role = ''admin''\<rparr>,
                          jt_expires = Some (14400 * second), jt_issued = Some 0\<rparr> then Some ''tok'' else None),
      al_parse = (\<lambda>s. Some \<lparr>jt_method = HMAC, jt_claims = \<lparr>cl_user_id = 1, cl_username = ''ann'', cl_role = ''admin''\<rparr>,
                          jt_expires = Some (14400 * second), jt_issued = Some 0\<rparr>),
      al_verify = (\<lambda>k s. s = ''tok''),
      al_totp_generate = (\<lambda>u. Some (''s'', ''otpauth'')),
      al_totp_matches = (\<lambda>c s. c = ''123456''),
      al_random = Some (map nat [0..31])\<rparr>"

lemma issued_token_valid_four_hours_witness:
  "ValidateJWT sample_lib (NewService ''k'') (14399 * second) ''tok'' =
     Some \<lparr>cl_user_id = 1, cl_username = ''ann'', cl_role = ''admin''\<rparr> \<and>
   ValidateJWT sample_lib (NewService ''k'') (14400 * second) ''tok'' = None"
proof -
  have g: "GenerateJWT sample_lib (NewService ''k'') 5 1 ''ann'' ''admin'' = Some ''tok''"
    by code_simp
  have s: "al_parse sample_lib s = Some t \<and> al_verify sample_lib (jwtSecret (NewService ''k'')) s"
    if "al_sign sample_lib (jwtSecret (NewService ''k'')) t = Some s" for t s
    using that by (auto simp: sample_lib_def split: if_splits)
  have "numeric_date (5 + 4 * 3600 * second) = 14400 * second" "14399 * second < 14400 * second"
    by code_simp+
  with issued_token_valid_four_hours [OF g s, of "14399 * second"]
    issued_token_valid_four_hours [OF g s, of "14400 * second"]
  show ?thesis by simp
qed

text \<open>
  Only tokens the secret's HMAC signature verifies are accepted: whatever the header of a token claims
  its algorithm to be, validation yields claims only after the signature check, and never after expiry.
\<close>

theorem ValidateJWT_only_signed:
  assumes "ValidateJWT lib svc now s = Some c"
  shows "\<exists>t. al_parse lib s = Some t \<and> jt_claims t = c \<and> jt_method t = HMAC \<and>
    al_verify lib (jwtSecret svc) s \<and> (case jt_expires t of None \<Rightarrow> True | Some e \<Rightarrow> now < e)"
  using assms by (auto simp: ValidateJWT_def split: option.splits if_splits)

lemma ValidateJWT_only_signed_witness:
  "al_verify sample_lib (jwtSecret (NewService ''k'')) ''tok''"
proof -
  have "ValidateJWT sample_lib (NewService ''k'') 0 ''tok'' =
      Some \<lparr>cl_user_id = 1, cl_username = ''ann'', cl_role = ''admin''\<rparr>" by code_simp
  from ValidateJWT_only_signed [OF this] show ?thesis by blast
qed

lemma hex_encode_length: "length (hex_encode bs) = 2 * length bs"
  by (induction bs) (auto simp: hex_encode_def)

lemma hex_digit_inj: "m < 16 \<Longrightarrow> n < 16 \<Longrightarrow> hex_digit m = hex_digit n \<Longrightarrow> m = n"
proof -
  assume "m < 16" "n < 16" "hex_digit m = hex_digit n"
  moreover have "distinct ''0123456789abcdef''" "length ''0123456789abcdef'' = 16" by code_simp+
  ultimately show ?thesis by (simp add: hex_digit_def nth_eq_iff_index_eq)
qed

lemma hex_encode_inj:
  "length bs = length cs \<Longrightarrow> list_all (\<lambda>b. b < 256) bs \<Longrightarrow> list_all (\<lambda>b. b < 256) cs \<Longrightarrow>
     hex_encode bs = hex_encode cs \<Longrightarrow> bs = cs"
proof (induction bs cs rule: list_induct2)
  case (Cons b bs c cs)
  have d: "hex_digit (b div 16) = hex_digit (c div 16)" "hex_digit (b mod 16) = hex_digit (c mod 16)"
    "hex_encode bs = hex_encode cs"
    using Cons.prems(3) by (simp_all add: hex_encode_def)
  have "b div 16 < 16" "c div 16 < 16" using Cons.prems(1,2) by (simp_all add: less_mult_imp_div_less)
  then have "b div 16 = c div 16" "b mod 16 = c mod 16" using hex_digit_inj d by auto
  then have "b = c" by (metis div_mult_mod_eq)
  then show ?case using Cons d(3) by simp
qed simp

end
