(* ===== verification/Sqlite_Users.thy ===== *)
theory Sqlite_Users
  imports Sqlite_Reach
begin

text \<open>The SQLite store's methods on console users fulfil the contract \<open>console_store\<close>.\<close>

definition users_of :: "db \<Rightarrow> int \<Rightarrow> ConsoleUser option" where
  "users_of d = row_at cu_id (console_users d)"

lemma users_of_tick [simp]: "users_of (tick_db d) = users_of d"
  by (simp add: users_of_def)

lemma same_tables_users: "same_tables d d' \<Longrightarrow> users_of d' = users_of d"
  by (cases d; cases d') (simp add: same_tables_def users_of_def)

lemma row_at_delete:
  "row_at key (filter (\<lambda>r. key r \<noteq> k) rows) = (row_at key rows)(k := None)"
  by (induction rows) (auto simp: row_at_def fun_eq_iff)

lemma get_by_login_found:
  assumes "sqlite_GetConsoleUserByLogin l d = (Inr u, d')" and "db_ok d"
  shows "users_of d (cu_id u) = Some u \<and> (cu_username u = l \<or> cu_email u = Some l)"
proof -
  have "u \<in> set (filter (\<lambda>u. cu_username u = l \<or> cu_email u = Some l) (console_users d))"
    using assms(1) query_row_Inr [of "scan d _" u]
    by (fastforce simp: sqlite_GetConsoleUserByLogin_def query_Inr)
  then show ?thesis using row_at_in [OF db_okD(4) [OF assms(2)], of u] by (auto simp: users_of_def)
qed

lemma get_by_login_none:
  assumes "sqlite_GetConsoleUserByLogin l d = (Inl ErrNoRows, d')" and "users_of d i = Some u"
  shows "cu_username u \<noteq> l \<and> cu_email u \<noteq> Some l"
proof -
  have "filter (\<lambda>u. cu_username u = l \<or> cu_email u = Some l) (console_users d) = []"
    using assms(1) by (auto simp: sqlite_GetConsoleUserByLogin_def query_run query_row_NoRows split: if_splits)
  then show ?thesis using row_at_Some [OF assms(2) [unfolded users_of_def]] by (auto simp: filter_empty_conv)
qed

lemma create_user_view:
  assumes "sqlite_CreateConsoleUser u d = (r, d')"
  shows "r = Inr u' \<Longrightarrow> users_of d (cu_id u') = None \<and> u' = u\<lparr>cu_id := cu_id u'\<rparr> \<and>
           (\<exists>t. users_of d' = (users_of d)(cu_id u' \<mapsto> u'\<lparr>cu_created_at := t\<rparr>))"
    and "r = Inl e \<Longrightarrow> users_of d' = users_of d"
proof -
  let ?i = "next_id (map cu_id (console_users d))"
  let ?row = "u\<lparr>cu_id := ?i, cu_created_at := sqlite_now d\<rparr>"
  have new: "?i \<notin> cu_id ` set (console_users d)" using next_id_notin [of "map cu_id (console_users d)"] by simp
  show "r = Inr u' \<Longrightarrow> users_of d (cu_id u') = None \<and> u' = u\<lparr>cu_id := cu_id u'\<rparr> \<and>
           (\<exists>t. users_of d' = (users_of d)(cu_id u' \<mapsto> u'\<lparr>cu_created_at := t\<rparr>))"
    using assms row_at_snoc [of cu_id ?row "console_users d"] new
    by (auto simp: sqlite_CreateConsoleUser_def run_stmt_Inr Let_def users_of_def row_at_None split: if_splits)
qed (use assms in \<open>auto simp: sqlite_CreateConsoleUser_def run_stmt_def Let_def users_of_def split: if_splits\<close>)

lemma update_user_view:
  assumes "sqlite_UpdateConsoleUser u d = (r, d')"
  shows "r = Inr x \<Longrightarrow> users_of d' = (case users_of d (cu_id u) of None \<Rightarrow> users_of d
            | Some old \<Rightarrow> (users_of d)(cu_id u \<mapsto> u\<lparr>cu_created_at := cu_created_at old\<rparr>))"
    and "r = Inl e \<Longrightarrow> users_of d' = users_of d"
proof -
  let ?g = "\<lambda>v. v\<lparr>cu_username := cu_username u, cu_email := cu_email u,
                     cu_password_hash := cu_password_hash u, cu_role := cu_role u,
                     cu_totp_secret := cu_totp_secret u, cu_totp_enabled := cu_totp_enabled u\<rparr>"
  have up: "row_at cu_id (map (\<lambda>v. if cu_id v = cu_id u then ?g v else v) (console_users d)) =
    (case row_at cu_id (console_users d) (cu_id u) of None \<Rightarrow> row_at cu_id (console_users d)
     | Some v \<Rightarrow> (row_at cu_id (console_users d))(cu_id u \<mapsto> ?g v))"
    by (rule row_at_update) simp
  have g: "?g v = u\<lparr>cu_created_at := cu_created_at v\<rparr>" if "cu_id v = cu_id u" for v
    using that by simp
  show "r = Inr x \<Longrightarrow> users_of d' = (case users_of d (cu_id u) of None \<Rightarrow> users_of d
            | Some old \<Rightarrow> (users_of d)(cu_id u \<mapsto> u\<lparr>cu_created_at := cu_created_at old\<rparr>))"
  proof (cases "row_at cu_id (console_users d) (cu_id u)")
    case None
    assume "r = Inr x"
    with None assms show ?thesis using row_at_None [of cu_id "console_users d" "cu_id u"]
      by (auto simp: sqlite_UpdateConsoleUser_def run_stmt_Inr Let_def users_of_def split: if_splits)
  next
    case (Some v)
    assume "r = Inr x"
    have "cu_id u \<in> cu_id ` set (console_users d)" "cu_id v = cu_id u"
      using row_at_Some [OF Some] by (metis image_eqI, metis)
    with \<open>r = Inr x\<close> assms Some show ?thesis
      by (auto simp: sqlite_UpdateConsoleUser_def run_stmt_Inr Let_def users_of_def up split: if_splits)
  qed
qed (use assms in \<open>auto simp: sqlite_UpdateConsoleUser_def run_stmt_def Let_def users_of_def split: if_splits\<close>)

lemma delete_user_view:
  assumes "sqlite_DeleteConsoleUser i d = (r, d')"
  shows "r = Inr x \<Longrightarrow> users_of d' = (users_of d)(i := None)" and "r = Inl e \<Longrightarrow> users_of d' = users_of d"
  using assms
  by (auto simp: sqlite_DeleteConsoleUser_def run_stmt_def users_of_def row_at_delete split: if_splits)

interpretation sqlite_console: console_store SQLiteStore db_ok users_of
proof
  fix i s r s'
  assume "GetConsoleUserByID SQLiteStore i s = (r, s')"
  then have g: "same_tables s s'" by (auto simp: SQLiteStore_def dest: reads_same)
  then show "db_ok s \<Longrightarrow> db_ok s'" "users_of s' = users_of s" by (blast intro: same_tables_ok same_tables_users)+
next
  fix i s u s'
  assume g: "GetConsoleUserByID SQLiteStore i s = (Inr u, s')" and ok: "db_ok s"
  then show "users_of s i = Some u"
    using query_row_key [OF db_okD(4) [OF ok], of s i]
    by (auto simp: SQLiteStore_def sqlite_GetConsoleUserByID_def query_Inr users_of_def split: option.splits)
next
  fix l s r s'
  assume "GetConsoleUserByLogin SQLiteStore l s = (r, s')"
  then have g: "same_tables s s'" by (auto simp: SQLiteStore_def dest: reads_same)
  then show "db_ok s \<Longrightarrow> db_ok s'" "users_of s' = users_of s" by (blast intro: same_tables_ok same_tables_users)+
next
  fix s i u assume "users_of s i = Some u"
  then show "cu_id u = i" by (auto simp: users_of_def dest: row_at_Some)
qed (auto simp: SQLiteStore_def dest: create_user_ok update_user_ok delete_user_ok get_by_login_found
    get_by_login_none create_user_view update_user_view delete_user_view)

end
