(* ===== verification/Auth_Handler.thy ===== *)
theory Auth_Handler
  imports Auth_Service Middleware Sqlite_Users
begin

text \<open>
  \<open>internal/handler/auth.go\<close>: login with its limiter for one-time codes, password change, and the set-up of
  two-factor authentication.  The handler's own state is the map of trackers; a handler of this part works
  on the pair of that map and the store's state.  The log lines are not modelled.
\<close>

subsection \<open>The limiter for one-time codes\<close>

record totpTracker =
  tt_failures :: int
  tt_resetAt :: instant

type_synonym trackers = "string \<Rightarrow> totpTracker option"

definition checkTOTPLimit :: "trackers \<Rightarrow> instant \<Rightarrow> string \<Rightarrow> bool" where
  "checkTOTPLimit att now key =
     (case att key of
        None \<Rightarrow> True
      | Some t \<Rightarrow> if now > tt_resetAt t then True else tt_failures t < 5)"

definition recordTOTPFailure :: "trackers \<Rightarrow> instant \<Rightarrow> instant \<Rightarrow> string \<Rightarrow> trackers" where
  "recordTOTPFailure att now now' key =
     (case att key of
        None \<Rightarrow> att(key \<mapsto> \<lparr>tt_failures = 1, tt_resetAt = now' + 5 * 60 * second\<rparr>)
      | Some t \<Rightarrow>
          if now > tt_resetAt t then att(key \<mapsto> \<lparr>tt_failures = 1, tt_resetAt = now' + 5 * 60 * second\<rparr>)
          else att(key \<mapsto> t\<lparr>tt_failures := tt_failures t + 1\<rparr>))"

subsection \<open>The handlers\<close>

record 's AuthHandler =
  ah_store :: "'s Store"
  ah_svc :: Service
  ah_lib :: auth_lib

text \<open>
  \<open>rq_clock\<close> readings: 0 for the check, 1 and 2 for the record of a failure, 3 for the token.  The last
  step of \<open>Login\<close>, issuing the token, is a function of its own.
\<close>

definition login_issue :: "'s AuthHandler \<Rightarrow> request \<Rightarrow> writer \<Rightarrow> ConsoleUser \<Rightarrow> writer" where
  "login_issue h r w user =
     (case GenerateJWT (ah_lib h) (ah_svc h) (rq_clock r 3) (cu_id user) (cu_username user) (cu_role user) of
        None \<Rightarrow> writeError 500 ''INTERNAL_ERROR'' ''failed to generate token'' w
      | Some token \<Rightarrow>
          writeJSON 200 (LoginReply \<lparr>lo_token = token, lo_user = Some user, lo_totp_required = False\<rparr>) w)"

definition Login :: "'s AuthHandler \<Rightarrow> runtime \<Rightarrow> (trackers \<times> 's) handler" where
  "Login h rt r w as =
     (case as of (att, s) \<Rightarrow>
      case decodeJSON rt decode_login r of
        None \<Rightarrow> (writeError 400 ''VALIDATION_ERROR'' ''invalid request body'' w, (att, s))
      | Some req \<Rightarrow>
        if lr_login req = '''' \<or> lr_password req = ''''
        then (writeError 400 ''VALIDATION_ERROR'' ''login and password are required'' w, (att, s))
        else
          (case GetConsoleUserByLogin (ah_store h) (lr_login req) s of
             (Inl _, s1) \<Rightarrow> (writeError 401 ''UNAUTHORIZED'' ''invalid credentials'' w, (att, s1))
           | (Inr user, s1) \<Rightarrow>
             if \<not> CheckPassword (ah_lib h) (cu_password_hash user) (lr_password req)
             then (writeError 401 ''UNAUTHORIZED'' ''invalid credentials'' w, (att, s1))
             else
               (case cu_totp_secret user of
                  None \<Rightarrow> (login_issue h r w user, (att, s1))
                | Some secret \<Rightarrow>
                    if \<not> cu_totp_enabled user then (login_issue h r w user, (att, s1))
                    else if lr_totp_code req = ''''
                    then (writeJSON 200 (LoginReply \<lparr>lo_token = '''', lo_user = None, lo_totp_required = True\<rparr>) w, (att, s1))
                    else if \<not> checkTOTPLimit att (rq_clock r 0) (lr_login req)
                    then (writeError 429 ''RATE_LIMITED'' ''too many TOTP attempts, try again later'' w, (att, s1))
                    else if \<not> ValidateTOTPCode (ah_lib h) secret (lr_totp_code req)
                    then (writeError 401 ''UNAUTHORIZED'' ''invalid TOTP code'' w,
                          (recordTOTPFailure att (rq_clock r 1) (rq_clock r 2) (lr_login req), s1))
                    else (login_issue h r w user, (att, s1)))))"

definition Logout :: "'s handler" where
  "Logout r w s = (write_header 200 w, s)"

definition Me :: "'s AuthHandler \<Rightarrow> 's handler" where
  "Me h r w s =
     (case GetClaims r of
        None \<Rightarrow> (panic w, s)
      | Some claims \<Rightarrow>
          (case GetConsoleUserByID (ah_store h) (cl_user_id claims) s of
             (Inl _, s1) \<Rightarrow> (writeError 404 ''NOT_FOUND'' ''user not found'' w, s1)
           | (Inr user, s1) \<Rightarrow> (writeJSON 200 (UserReply user) w, s1)))"

definition ChangePassword :: "'s AuthHandler \<Rightarrow> runtime \<Rightarrow> 's handler" where
  "ChangePassword h rt r w s =
     (case decodeJSON rt decode_password_change r of
        None \<Rightarrow> (writeError 400 ''VALIDATION_ERROR'' ''invalid request body'' w, s)
      | Some req \<Rightarrow>
        if length (pcr_new_password req) < 8
        then (writeError 400 ''VALIDATION_ERROR'' ''password must be at least 8 characters'' w, s)
        else
          (case GetClaims r of
             None \<Rightarrow> (panic w, s)
           | Some claims \<Rightarrow>
             (case GetConsoleUserByID (ah_store h) (cl_user_id claims) s of
                (Inl _, s1) \<Rightarrow> (writeError 404 ''NOT_FOUND'' ''user not found'' w, s1)
              | (Inr user, s1) \<Rightarrow>
                if \<not> CheckPassword (ah_lib h) (cu_password_hash user) (pcr_current_password req)
                then (writeError 401 ''UNAUTHORIZED'' ''current password is incorrect'' w, s1)
                else
                  (case HashPassword (ah_lib h) (pcr_new_password req) of
                     None \<Rightarrow> (writeError 500 ''INTERNAL_ERROR'' ''failed to hash password'' w, s1)
                   | Some hash \<Rightarrow>
                     (case UpdateConsoleUser (ah_store h) (user\<lparr>cu_password_hash := hash\<rparr>) s1 of
                        (Inl _, s2) \<Rightarrow> (writeError 500 ''INTERNAL_ERROR'' ''failed to update password'' w, s2)
                      | (Inr _, s2) \<Rightarrow> (write_header 200 w, s2))))))"

definition TOTPSetup :: "'s AuthHandler \<Rightarrow> 's handler" where
  "TOTPSetup h r w s =
     (case GetClaims r of
        None \<Rightarrow> (panic w, s)
      | Some claims \<Rightarrow>
        (case GenerateTOTPSecret (ah_lib h) (cl_username claims) of
           None \<Rightarrow> (writeError 500 ''INTERNAL_ERROR'' ''failed to generate TOTP secret'' w, s)
         | Some (secret, uri) \<Rightarrow>
           (case GetConsoleUserByID (ah_store h) (cl_user_id claims) s of
              (Inl _, s1) \<Rightarrow> (writeError 404 ''NOT_FOUND'' ''user not found'' w, s1)
            | (Inr user, s1) \<Rightarrow>
              (case UpdateConsoleUser (ah_store h) (user\<lparr>cu_totp_secret := Some secret\<rparr>) s1 of
                 (Inl _, s2) \<Rightarrow> (writeError 500 ''INTERNAL_ERROR'' ''failed to save TOTP secret'' w, s2)
               | (Inr _, s2) \<Rightarrow> (writeJSON 200 (TOTPSetupReply \<lparr>tsr_secret = secret, tsr_uri = uri\<rparr>) w, s2)))))"

definition TOTPEnable :: "'s AuthHandler \<Rightarrow> runtime \<Rightarrow> 's handler" where
  "TOTPEnable h rt r w s =
     (case decodeJSON rt decode_totp_enable r of
        None \<Rightarrow> (writeError 400 ''VALIDATION_ERROR'' ''invalid request body'' w, s)
      | Some req \<Rightarrow>
        (case GetClaims r of
           None \<Rightarrow> (panic w, s)
         | Some claims \<Rightarrow>
           (case GetConsoleUserByID (ah_store h) (cl_user_id claims) s of
              (Inl _, s1) \<Rightarrow> (writeError 404 ''NOT_FOUND'' ''user not found'' w, s1)
            | (Inr user, s1) \<Rightarrow>
              if \<not> CheckPassword (ah_lib h) (cu_password_hash user) (toe_password req)
              then (writeError 401 ''UNAUTHORIZED'' ''incorrect password'' w, s1)
              else
                (case cu_totp_secret user of
                   None \<Rightarrow> (writeError 400 ''VALIDATION_ERROR'' ''call /auth/totp/setup first'' w, s1)
                 | Some secret \<Rightarrow>
                   if \<not> ValidateTOTPCode (ah_lib h) secret (toe_code req)
                   then (writeError 400 ''VALIDATION_ERROR'' ''invalid TOTP code'' w, s1)
                   else
                     (case UpdateConsoleUser (ah_store h) (user\<lparr>cu_totp_enabled := True\<rparr>) s1 of
                        (Inl _, s2) \<Rightarrow> (writeError 500 ''INTERNAL_ERROR'' ''failed to enable TOTP'' w, s2)
                      | (Inr _, s2) \<Rightarrow> (write_header 200 w, s2))))))"

definition TOTPDisable :: "'s AuthHandler \<Rightarrow> runtime \<Rightarrow> 's handler" where
  "TOTPDisable h rt r w s =
     (case decodeJSON rt decode_totp_disable r of
        None \<Rightarrow> (writeError 400 ''VALIDATION_ERROR'' ''invalid request body'' w, s)
      | Some req \<Rightarrow>
        (case GetClaims r of
           None \<Rightarrow> (panic w, s)
         | Some claims \<Rightarrow>
           (case GetConsoleUserByID (ah_store h) (cl_user_id claims) s of
              (Inl _, s1) \<Rightarrow> (writeError 404 ''NOT_FOUND'' ''user not found'' w, s1)
            | (Inr user, s1) \<Rightarrow>
              if \<not> CheckPassword (ah_lib h) (cu_password_hash user) (tod_password req)
              then (writeError 401 ''UNAUTHORIZED'' ''incorrect password'' w, s1)
              else
                (case UpdateConsoleUser (ah_store h) (user\<lparr>cu_totp_enabled := False, cu_totp_secret := None\<rparr>) s1 of
                   (Inl _, s2) \<Rightarrow> (writeError 500 ''INTERNAL_ERROR'' ''failed to disable TOTP'' w, s2)
                 | (Inr _, s2) \<Rightarrow> (write_header 200 w, s2)))))"

subsection \<open>Login\<close>

context console_store
begin

lemma Login_effect:
  assumes "Login h rt r w (att, s) = (w', (att', s'))" and "ah_store h = st" and "wf s"
  shows "wf s' \<and> users_of s' = users_of s"
proof (cases "decodeJSON rt decode_login r")
  case None
  then show ?thesis using assms by (auto simp: Login_def)
next
  case (Some req)
  obtain res s1 where g: "GetConsoleUserByLogin st (lr_login req) s = (res, s1)" by fastforce
  then have "wf s1 \<and> users_of s1 = users_of s" using get_login_wf get_login_view assms(3) by blast
  moreover have "s' = s1 \<or> s' = s"
    using assms(1,2) Some g
    by (auto simp: Login_def Let_def split: if_splits sum.splits option.splits bool.splits)
  ultimately show ?thesis using assms(3) by auto
qed

lemma Login_issues:
  assumes "Login h rt r w (att, s) = (w', (att', s'))" and "ah_store h = st" and "wf s" and "fresh w"
    and "w_body w' = w_body w @ [LoginReply \<lparr>lo_token = tok, lo_user = Some u, lo_totp_required = b\<rparr>]"
  shows "\<exists>req. decodeJSON rt decode_login r = Some req \<and>
    users_of s (cu_id u) = Some u \<and> (cu_username u = lr_login req \<or> cu_email u = Some (lr_login req)) \<and>
    CheckPassword (ah_lib h) (cu_password_hash u) (lr_password req) \<and>
    (case cu_totp_secret u of
       None \<Rightarrow> True
     | Some secret \<Rightarrow> \<not> cu_totp_enabled u \<or>
         checkTOTPLimit att (rq_clock r 0) (lr_login req) \<and>
         ValidateTOTPCode (ah_lib h) secret (lr_totp_code req)) \<and>
    GenerateJWT (ah_lib h) (ah_svc h) (rq_clock r 3) (cu_id u) (cu_username u) (cu_role u) = Some tok"
proof (cases "decodeJSON rt decode_login r")
  case None
  then show ?thesis using assms by (auto simp: Login_def fresh_replies)
next
  case (Some req)
  obtain res s1 where g: "GetConsoleUserByLogin st (lr_login req) s = (res, s1)" by fastforce
  show ?thesis
  proof (cases res)
    case (Inl e)
    then show ?thesis using assms Some g by (auto simp: Login_def fresh_replies split: if_splits)
  next
    case (Inr user)
    note found = get_login_found [OF g [unfolded Inr] assms(3)]
    show ?thesis
      using assms Some g Inr found
      by (auto simp: Login_def login_issue_def fresh_replies split: if_splits option.splits)
  qed
qed

lemma update_found:
  assumes "UpdateConsoleUser st v s = (Inr x, s')" and "wf s" and "users_of s (cu_id v) = Some u"
    and "cu_created_at v = cu_created_at u"
  shows "users_of s' = (users_of s)(cu_id v \<mapsto> v)"
proof -
  have "v\<lparr>cu_created_at := cu_created_at u\<rparr> = v" using assms(4) by (cases v) simp
  then show ?thesis using update_user_ok [OF assms(1,2)] assms(3) by simp
qed

lemma user_handler_step:
  assumes "GetConsoleUserByID st i s = (Inr u, s1)" and "wf s"
    and "UpdateConsoleUser st v s1 = (q, s2)" and "cu_id v = cu_id u" and "cu_created_at v = cu_created_at u"
  shows "wf s2" and "users_of s i = Some u"
    and "users_of s2 = (case q of Inl _ \<Rightarrow> users_of s | Inr _ \<Rightarrow> (users_of s)(i \<mapsto> v))"
proof -
  have wf1: "wf s1" and view: "users_of s1 = users_of s"
    using get_user_wf [OF assms(1,2)] get_user_view [OF assms(1)] by auto
  show f: "users_of s i = Some u" using get_user_found [OF assms(1,2)] .
  have i: "cu_id u = i" using users_of_id [OF assms(2) f] .
  show "wf s2" using update_user_wf [OF assms(3) wf1] .
  show "users_of s2 = (case q of Inl _ \<Rightarrow> users_of s | Inr _ \<Rightarrow> (users_of s)(i \<mapsto> v))"
    using update_user_err [of v s1 _ s2] update_found [of v s1 _ s2 u] assms(3-5) wf1 view f i
    by (cases q) auto
qed

text \<open>The two outcomes of loading the user of the claims, and what saving a change of it does.\<close>

lemma load_user_cases:
  assumes "wf s"
  obtains (missing) e s1 where "GetConsoleUserByID st i s = (Inl e, s1)" "wf s1" "users_of s1 = users_of s"
  | (loaded) u s1 where "GetConsoleUserByID st i s = (Inr u, s1)" "wf s1" "users_of s1 = users_of s"
      "users_of s i = Some u"
proof -
  obtain r s1 where g: "GetConsoleUserByID st i s = (r, s1)" by fastforce
  show thesis
    using that g get_user_wf [OF g assms] get_user_view [OF g] get_user_found [of i s _ s1] assms
    by (cases r) auto
qed

lemma save_user_cases:
  assumes "GetConsoleUserByID st i s = (Inr u, s1)" "wf s" "cu_id v = cu_id u" "cu_created_at v = cu_created_at u"
  obtains (failed) e s2 where "UpdateConsoleUser st v s1 = (Inl e, s2)" "wf s2" "users_of s2 = users_of s"
  | (saved) x s2 where "UpdateConsoleUser st v s1 = (Inr x, s2)" "wf s2" "users_of s2 = (users_of s)(i \<mapsto> v)"
proof -
  obtain q s2 where up: "UpdateConsoleUser st v s1 = (q, s2)" by fastforce
  show thesis using that up user_handler_step [OF assms(1,2) up assms(3,4)] by (cases q) auto
qed

lemma ChangePassword_effect:
  assumes "ChangePassword h rt r w s = (w', s')" and "ah_store h = st" and "wf s" and "fresh w"
  shows "wf s' \<and>
    (if succeeded w' then
       \<exists>cl req u hash. rq_claims r = Some cl \<and> decodeJSON rt decode_password_change r = Some req \<and>
         users_of s (cl_user_id cl) = Some u \<and> 8 \<le> length (pcr_new_password req) \<and>
         CheckPassword (ah_lib h) (cu_password_hash u) (pcr_current_password req) \<and>
         HashPassword (ah_lib h) (pcr_new_password req) = Some hash \<and>
         users_of s' = (users_of s)(cl_user_id cl \<mapsto> u\<lparr>cu_password_hash := hash\<rparr>)
     else users_of s' = users_of s)"
proof (cases "decodeJSON rt decode_password_change r")
  case None
  then show ?thesis using assms by (auto simp: ChangePassword_def fresh_replies)
next
  case dec: (Some req)
  show ?thesis
  proof (cases "rq_claims r")
    case None
    then show ?thesis using assms dec
      by (auto simp: ChangePassword_def GetClaims_def fresh_replies split: if_splits)
  next
    case (Some cl)
    from assms(3) show ?thesis
    proof (cases rule: load_user_cases [where i = "cl_user_id cl"])
      case missing
      then show ?thesis using assms dec Some
        by (auto simp: ChangePassword_def GetClaims_def fresh_replies split: if_splits)
    next
      case (loaded u s1)
      show ?thesis
      proof (cases "HashPassword (ah_lib h) (pcr_new_password req)")
        case None
        then show ?thesis using assms dec Some loaded
          by (auto simp: ChangePassword_def GetClaims_def fresh_replies split: if_splits)
      next
        case hash: (Some hash)
        let ?v = "u\<lparr>cu_password_hash := hash\<rparr>"
        have "cu_id ?v = cu_id u" "cu_created_at ?v = cu_created_at u" by simp_all
        with loaded(1) assms(3) show ?thesis
          by (cases rule: save_user_cases)
             (use assms dec Some loaded hash in \<open>auto simp: ChangePassword_def GetClaims_def fresh_replies
                split: if_splits\<close>)
      qed
    qed
  qed
qed

end

subsection \<open>Two-factor set-up\<close>

context console_store
begin

lemma TOTPSetup_effect:
  assumes "TOTPSetup h r w s = (w', s')" and "ah_store h = st" and "wf s" and "fresh w"
  shows "wf s' \<and>
    (if succeeded w' then
       \<exists>cl u secret uri. rq_claims r = Some cl \<and> users_of s (cl_user_id cl) = Some u \<and>
         GenerateTOTPSecret (ah_lib h) (cl_username cl) = Some (secret, uri) \<and>
         w_body w' = w_body w @ [TOTPSetupReply \<lparr>tsr_secret = secret, tsr_uri = uri\<rparr>] \<and>
         users_of s' = (users_of s)(cl_user_id cl \<mapsto> u\<lparr>cu_totp_secret := Some secret\<rparr>)
     else users_of s' = users_of s)"
proof (cases "rq_claims r")
  case None
  then show ?thesis using assms by (auto simp: TOTPSetup_def GetClaims_def fresh_replies)
next
  case (Some cl)
  show ?thesis
  proof (cases "GenerateTOTPSecret (ah_lib h) (cl_username cl)")
    case None
    then show ?thesis using assms Some by (auto simp: TOTPSetup_def GetClaims_def fresh_replies)
  next
    case gen: (Some p)
    obtain secret uri where p: "p = (secret, uri)" by (cases p)
    from assms(3) show ?thesis
    proof (cases rule: load_user_cases [where i = "cl_user_id cl"])
      case missing
      then show ?thesis using assms Some gen p by (auto simp: TOTPSetup_def GetClaims_def fresh_replies)
    next
      case (loaded u s1)
      let ?v = "u\<lparr>cu_totp_secret := Some secret\<rparr>"
      have "cu_id ?v = cu_id u" "cu_created_at ?v = cu_created_at u" by simp_all
      with loaded(1) assms(3) show ?thesis
        by (cases rule: save_user_cases)
           (use assms Some gen p loaded in \<open>auto simp: TOTPSetup_def GetClaims_def fresh_replies\<close>)
    qed
  qed
qed

lemma TOTPEnable_effect:
  assumes "TOTPEnable h rt r w s = (w', s')" and "ah_store h = st" and "wf s" and "fresh w"
  shows "wf s' \<and>
    (if succeeded w' then
       \<exists>cl req u secret. rq_claims r = Some cl \<and> decodeJSON rt decode_totp_enable r = Some req \<and>
         users_of s (cl_user_id cl) = Some u \<and> CheckPassword (ah_lib h) (cu_password_hash u) (toe_password req) \<and>
         cu_totp_secret u = Some secret \<and> ValidateTOTPCode (ah_lib h) secret (toe_code req) \<and>
         users_of s' = (users_of s)(cl_user_id cl \<mapsto> u\<lparr>cu_totp_enabled := True\<rparr>)
     else users_of s' = users_of s)"
proof (cases "decodeJSON rt decode_totp_enable r")
  case None
  then show ?thesis using assms by (auto simp: TOTPEnable_def fresh_replies)
next
  case dec: (Some req)
  show ?thesis
  proof (cases "rq_claims r")
    case None
    then show ?thesis using assms dec by (auto simp: TOTPEnable_def GetClaims_def fresh_replies)
  next
    case (Some cl)
    from assms(3) show ?thesis
    proof (cases rule: load_user_cases [where i = "cl_user_id cl"])
      case missing
      then show ?thesis using assms Some dec by (auto simp: TOTPEnable_def GetClaims_def fresh_replies)
    next
      case (loaded u s1)
      let ?v = "u\<lparr>cu_totp_enabled := True\<rparr>"
      have "cu_id ?v = cu_id u" "cu_created_at ?v = cu_created_at u" by simp_all
      with loaded(1) assms(3) show ?thesis
        by (cases rule: save_user_cases)
           (use assms Some dec loaded in \<open>auto simp: TOTPEnable_def GetClaims_def fresh_replies
              split: if_splits option.splits\<close>)
    qed
  qed
qed

lemma TOTPDisable_effect:
  assumes "TOTPDisable h rt r w s = (w', s')" and "ah_store h = st" and "wf s" and "fresh w"
  shows "wf s' \<and>
    (if succeeded w' then
       \<exists>cl req u. rq_claims r = Some cl \<and> decodeJSON rt decode_totp_disable r = Some req \<and>
         users_of s (cl_user_id cl) = Some u \<and> CheckPassword (ah_lib h) (cu_password_hash u) (tod_password req) \<and>
         users_of s' = (users_of s)(cl_user_id cl \<mapsto> u\<lparr>cu_totp_enabled := False, cu_totp_secret := None\<rparr>)
     else users_of s' = users_of s)"
proof (cases "decodeJSON rt decode_totp_disable r")
  case None
  then show ?thesis using assms by (auto simp: TOTPDisable_def fresh_replies)
next
  case dec: (Some req)
  show ?thesis
  proof (cases "rq_claims r")
    case None
    then show ?thesis using assms dec by (auto simp: TOTPDisable_def GetClaims_def fresh_replies)
  next
    case (Some cl)
    from assms(3) show ?thesis
    proof (cases rule: load_user_cases [where i = "cl_user_id cl"])
      case missing
      then show ?thesis using assms Some dec by (auto simp: TOTPDisable_def GetClaims_def fresh_replies)
    next
      case (loaded u s1)
      let ?v = "u\<lparr>cu_totp_enabled := False, cu_totp_secret := None\<rparr>"
      have "cu_id ?v = cu_id u" "cu_created_at ?v = cu_created_at u" by simp_all
      with loaded(1) assms(3) show ?thesis
        by (cases rule: save_user_cases)
           (use assms Some dec loaded in \<open>auto simp: TOTPDisable_def GetClaims_def fresh_replies
              split: if_splits\<close>)
    qed
  qed
qed

end


subsection \<open>What the limiter for one-time codes guarantees\<close>

definition totp_window :: int where "totp_window = 5 * 60 * second"

lemma totp_window_pos: "0 < totp_window"
  by (simp add: totp_window_def second_def)

text \<open>
  How many more wrong codes of a key can be checked up to the time \<open>T\<close>: what is left of a running window,
  and five for every window that can still be opened.
\<close>

definition windows_left :: "instant \<Rightarrow> instant \<Rightarrow> int" where
  "windows_left T now = (T - now) div totp_window + 1"

definition guesses_left :: "instant \<Rightarrow> totpTracker option \<Rightarrow> instant \<Rightarrow> int" where
  "guesses_left T tr now =
     (case tr of
        None \<Rightarrow> 5 * windows_left T now
      | Some t \<Rightarrow>
          if now > tt_resetAt t then 5 * windows_left T now
          else max 0 (5 - tt_failures t) + (if T > tt_resetAt t then 5 * windows_left T (tt_resetAt t) else 0))"

lemma windows_left_mono: "now \<le> now' \<Longrightarrow> windows_left T now' \<le> windows_left T now"
  using totp_window_pos by (simp add: windows_left_def zdiv_mono1)

lemma windows_left_pos: "now \<le> T \<Longrightarrow> 1 \<le> windows_left T now"
  using totp_window_pos by (simp add: windows_left_def pos_imp_zdiv_nonneg_iff)

lemma windows_left_next: "windows_left T (now + totp_window) = windows_left T now - 1"
proof -
  have "(T - now - totp_window) div totp_window = (T - now) div totp_window - 1"
    using totp_window_pos div_mult_self3 [of totp_window "-1" "T - now"] by (simp add: algebra_simps)
  then show ?thesis by (simp add: windows_left_def algebra_simps)
qed

lemma guesses_left_mono:
  assumes "now \<le> now'" and "now' \<le> T"
  shows "guesses_left T tr now' \<le> guesses_left T tr now"
proof (cases tr)
  case None
  then show ?thesis using windows_left_mono [OF assms(1), of T] by (simp add: guesses_left_def)
next
  case (Some t)
  show ?thesis
    using windows_left_mono [OF assms(1), of T] windows_left_mono [of "tt_resetAt t" now' T] assms Some
    by (simp add: guesses_left_def) linarith
qed

lemma guesses_left_nonneg: "now \<le> T \<Longrightarrow> 0 \<le> guesses_left T tr now"
proof (cases tr)
  case (Some t)
  assume "now \<le> T"
  then show ?thesis
    using windows_left_pos [of now T] windows_left_pos [of "tt_resetAt t" T] Some
    by (simp add: guesses_left_def) linarith
qed (use windows_left_pos [of now T] in \<open>simp add: guesses_left_def\<close>)

lemma record_opens:
  assumes "now \<le> now'" and "now' \<le> T" and "guesses_left T tr now = 5 * windows_left T now"
  shows "guesses_left T (Some \<lparr>tt_failures = 1, tt_resetAt = now' + totp_window\<rparr>) now' + 1
    \<le> guesses_left T tr now"
proof -
  have "0 \<le> windows_left T now' - 1" "windows_left T now' \<le> windows_left T now"
    using windows_left_pos [OF assms(2)] windows_left_mono [OF assms(1)] by simp_all
  then show ?thesis
    using assms(3) totp_window_pos by (simp add: guesses_left_def windows_left_next)
qed

lemma record_uses_guess:
  assumes "checkTOTPLimit att c0 k" and "c0 \<le> c1" and "c1 \<le> c2" and "c2 \<le> T"
  shows "guesses_left T (recordTOTPFailure att c1 c2 k k) c2 + 1 \<le> guesses_left T (att k) c0"
proof -
  have m1: "guesses_left T (att k) c1 \<le> guesses_left T (att k) c0"
    using guesses_left_mono [OF assms(2)] assms(3,4) by simp
  show ?thesis
  proof (cases "\<exists>t. att k = Some t \<and> \<not> c1 > tt_resetAt t")
    case False
    then have rec: "recordTOTPFailure att c1 c2 k k = Some \<lparr>tt_failures = 1, tt_resetAt = c2 + totp_window\<rparr>"
      and left: "guesses_left T (att k) c1 = 5 * windows_left T c1"
      by (auto simp: recordTOTPFailure_def totp_window_def guesses_left_def split: option.split)
    show ?thesis unfolding rec using record_opens [OF assms(3,4) left] m1 by linarith
  next
    case True
    then obtain t where t: "att k = Some t" "c1 \<le> tt_resetAt t" by auto
    then have rec: "recordTOTPFailure att c1 c2 k k = Some (t\<lparr>tt_failures := tt_failures t + 1\<rparr>)"
      by (simp add: recordTOTPFailure_def)
    have f: "tt_failures t < 5" using assms(1,2) t by (auto simp: checkTOTPLimit_def split: if_splits)
    have "guesses_left T (Some (t\<lparr>tt_failures := tt_failures t + 1\<rparr>)) c1 + 1 = guesses_left T (att k) c1"
      using t f by (simp add: guesses_left_def)
    then show ?thesis using rec m1 guesses_left_mono [OF assms(3,4)] by (metis add_le_cancel_right order_trans)
  qed
qed

lemma record_other: "k \<noteq> k' \<Longrightarrow> recordTOTPFailure att c1 c2 k' k = att k"
  by (simp add: recordTOTPFailure_def split: option.split)

text \<open>Login requests served one after the other, each with a writer of its own.\<close>

fun login_run :: "'s AuthHandler \<Rightarrow> runtime \<Rightarrow> request list \<Rightarrow> trackers \<times> 's \<Rightarrow> writer list \<times> trackers \<times> 's" where
  "login_run h rt [] as = ([], as)"
| "login_run h rt (r # rs) as =
     (case Login h rt r new_writer as of (w, as1) \<Rightarrow>
      case login_run h rt rs as1 of (ws, as2) \<Rightarrow> (w # ws, as2))"

definition bad_code :: "writer \<Rightarrow> bool" where
  "bad_code w \<longleftrightarrow> w_body w = [ErrorResponse ''UNAUTHORIZED'' ''invalid TOTP code'']"

definition login_name :: "runtime \<Rightarrow> request \<Rightarrow> string option" where
  "login_name rt r = map_option lr_login (decodeJSON rt decode_login r)"

definition wrong_guesses :: "runtime \<Rightarrow> string \<Rightarrow> request list \<Rightarrow> writer list \<Rightarrow> int" where
  "wrong_guesses rt k rs ws =
     int (length (filter (\<lambda>(r, w). login_name rt r = Some k \<and> bad_code w) (zip rs ws)))"

fun served_within :: "instant \<Rightarrow> instant \<Rightarrow> request list \<Rightarrow> bool" where
  "served_within t0 T [] = (t0 \<le> T)"
| "served_within t0 T (r # rs) =
     (t0 \<le> rq_clock r 0 \<and> rq_clock r 0 \<le> rq_clock r 1 \<and> rq_clock r 1 \<le> rq_clock r 2 \<and>
      served_within (rq_clock r 2) T rs)"

lemma served_within_end: "served_within t0 T rs \<Longrightarrow> t0 \<le> T"
  by (induction rs arbitrary: t0) fastforce+

lemma Login_trackers:
  assumes "Login h rt r new_writer (att, s) = (w', (att', s'))"
  shows "if bad_code w'
    then \<exists>k. login_name rt r = Some k \<and> checkTOTPLimit att (rq_clock r 0) k \<and>
           att' = recordTOTPFailure att (rq_clock r 1) (rq_clock r 2) k
    else att' = att"
  using assms
  by (auto simp: Login_def login_issue_def bad_code_def login_name_def fresh_replies
      split: if_splits option.splits prod.splits sum.splits)

text \<open>
  C13. Requests served one after the other test at most five wrong one-time codes per login name in any five
  minutes: among any sequence of login requests, on any store, the number of those for the name that
  are told their code is wrong is at most five for each started window of the time they span.
\<close>

theorem totp_guesses_bounded:
  assumes "login_run h rt rs (\<lambda>_. None, s) = (ws, as')" and "served_within t0 T rs"
  shows "wrong_guesses rt k rs ws \<le> 5 * ((T - t0) div (5 * 60 * second) + 1)"
proof -
  have "wrong_guesses rt k rs ws \<le> guesses_left T (att k) t"
    if "login_run h rt rs (att, s) = (ws, as')" and "served_within t T rs" for att s t rs ws
    using that
  proof (induction rs arbitrary: att s t ws)
    case Nil
    then show ?case using guesses_left_nonneg by (simp add: wrong_guesses_def)
  next
    case (Cons r rs)
    obtain w att1 s1 where step: "Login h rt r new_writer (att, s) = (w, (att1, s1))"
      by (metis surj_pair)
    obtain ws1 where run: "login_run h rt rs (att1, s1) = (ws1, as')" and ws: "ws = w # ws1"
      using Cons.prems(1) step by (auto split: prod.splits)
    have t: "t \<le> rq_clock r 0" "rq_clock r 0 \<le> rq_clock r 1" "rq_clock r 1 \<le> rq_clock r 2"
      and rest: "served_within (rq_clock r 2) T rs"
      using Cons.prems(2) by simp_all
    note T = served_within_end [OF rest]
    have ih: "wrong_guesses rt k rs ws1 \<le> guesses_left T (att1 k) (rq_clock r 2)"
      using Cons.IH [OF run rest] .
    have m: "guesses_left T (att k) (rq_clock r 0) \<le> guesses_left T (att k) t"
      "guesses_left T (att k) (rq_clock r 2) \<le> guesses_left T (att k) t"
      using guesses_left_mono t T by (auto intro!: guesses_left_mono)
    have split: "wrong_guesses rt k (r # rs) ws =
        wrong_guesses rt k rs ws1 + (if login_name rt r = Some k \<and> bad_code w then 1 else 0)"
      by (simp add: wrong_guesses_def ws)
    show ?case
    proof (cases "login_name rt r = Some k \<and> bad_code w")
      case True
      then have "checkTOTPLimit att (rq_clock r 0) k"
        "att1 = recordTOTPFailure att (rq_clock r 1) (rq_clock r 2) k"
        using Login_trackers [OF step] by auto
      then show ?thesis using record_uses_guess [OF _ t(2,3) T] ih m(1) split True by fastforce
    next
      case False
      then have "att1 k = att k" using Login_trackers [OF step] record_other [of k] by (auto split: if_splits)
      then show ?thesis using ih m(2) split False by auto
    qed
  qed
  from this [OF assms] show ?thesis by (simp add: guesses_left_def windows_left_def totp_window_def)
qed


text \<open>An account with a second factor, and login requests for it: the body is the name, the code is wrong.\<close>

definition totp_user :: ConsoleUser where
  "totp_user = \<lparr>cu_id = 1, cu_username = ''ann'', cu_email = Some ''ann@x'', cu_password_hash = ''h1'',
     cu_role = ''admin'', cu_totp_secret = Some ''s'', cu_totp_enabled = True, cu_created_at = 0\<rparr>"

definition totp_db :: db where
  "totp_db = sample_db\<lparr>console_users := [totp_user]\<rparr>"

definition login_runtime :: "string \<Rightarrow> runtime" where
  "login_runtime code = (sample_runtime TNull)\<lparr>rt_json := \<lambda>b. Some (TObject
     [(''login'', TString b), (''password'', TString ''1''), (''totp_code'', TString code)])\<rparr>"

definition sample_auth :: "db AuthHandler" where
  "sample_auth = \<lparr>ah_store = SQLiteStore, ah_svc = NewService ''k'', ah_lib = sample_lib\<rparr>"

definition login_request :: "string \<Rightarrow> instant \<Rightarrow> request" where
  "login_request name t = (sample_request '''' '''')\<lparr>rq_body := name, rq_clock := \<lambda>_. t\<rparr>"

lemma totp_db_ok: "db_ok totp_db"
  by code_simp

lemma totp_guesses_bounded_witness:
  "wrong_guesses (login_runtime ''000000'') ''ann'' (map (login_request ''ann'') [1..7])
     (fst (login_run sample_auth (login_runtime ''000000'') (map (login_request ''ann'') [1..7])
       (\<lambda>_. None, totp_db))) \<le> 5 \<and>
   map status (fst (login_run sample_auth (login_runtime ''000000'') (map (login_request ''ann'') [1..7])
       (\<lambda>_. None, totp_db))) = [401, 401, 401, 401, 401, 429, 429]"
proof -
  let ?rt = "login_runtime ''000000''" and ?rs = "map (login_request ''ann'') [1..7]"
  have s: "served_within 0 7 ?rs" by code_simp
  have q: "5 * ((7 - 0) div (5 * 60 * second) + 1) = 5" by (simp add: second_def)
  have st: "map status (fst (login_run sample_auth ?rt ?rs (\<lambda>_. None, totp_db))) =
      [401, 401, 401, 401, 401, 429, 429]" by code_simp
  from totp_guesses_bounded [OF surjective_pairing s, of ?rt "''ann''" sample_auth totp_db] st
  show ?thesis unfolding q by (intro conjI)
qed

text \<open>
  The limiter counts per name typed, not per account: of twelve wrong codes for one account in twelve
  nanoseconds, ten are checked, five with the user name and five with the email.
\<close>

theorem totp_limit_per_name_not_account:
  "(let rs = map (login_request ''ann'') [1..6] @ map (login_request ''ann@x'') [7..12];
        ws = fst (login_run sample_auth (login_runtime ''000000'') rs (\<lambda>_. None, totp_db))
    in served_within 0 12 rs \<and>
       map (\<lambda>w. if bad_code w then 401 else status w) ws =
         [401, 401, 401, 401, 401, 429, 401, 401, 401, 401, 401, 429])"
  by code_simp

subsection \<open>Logging in\<close>



end
