(* ===== verification/Users_Handler.thy ===== *)
theory Users_Handler
  imports Auth_Handler
begin

text \<open>
  \<open>internal/handler/users.go\<close>: the administration of console accounts.  The handlers run behind \<open>JWTAuth\<close>
  and \<open>RequireRole\<close>; without claims they dereference a nil pointer where the code does.  The log lines are
  not modelled beyond that.
\<close>

record 's UsersHandler =
  uh_store :: "'s Store"
  uh_lib :: auth_lib

definition Users_List :: "'s UsersHandler \<Rightarrow> 's handler" where
  "Users_List h r w s =
     (case ListConsoleUsers (uh_store h) s of
        (Inl _, s1) \<Rightarrow> (writeError 500 ''INTERNAL_ERROR'' ''failed to list users'' w, s1)
      | (Inr users, s1) \<Rightarrow> (writeJSON 200 (UsersReply users) w, s1))"

definition valid_role :: "string \<Rightarrow> bool" where
  "valid_role role \<longleftrightarrow> \<not> (role \<noteq> ''admin'' \<and> role \<noteq> ''manager'' \<and> role \<noteq> ''viewer'')"

definition Users_Create :: "'s UsersHandler \<Rightarrow> runtime \<Rightarrow> 's handler" where
  "Users_Create h rt r w s =
     (case decodeJSON rt decode_create_user r of
        None \<Rightarrow> (writeError 400 ''VALIDATION_ERROR'' ''invalid request body'' w, s)
      | Some req \<Rightarrow>
        if cur_username req = '''' \<or> cur_password req = '''' \<or> cur_role req = ''''
        then (writeError 400 ''VALIDATION_ERROR'' ''username, password, and role are required'' w, s)
        else if length (cur_password req) < 8
        then (writeError 400 ''VALIDATION_ERROR'' ''password must be at least 8 characters'' w, s)
        else if \<not> valid_role (cur_role req)
        then (writeError 400 ''VALIDATION_ERROR'' ''role must be admin, manager, or viewer'' w, s)
        else
          (case HashPassword (uh_lib h) (cur_password req) of
             None \<Rightarrow> (writeError 500 ''INTERNAL_ERROR'' ''failed to hash password'' w, s)
           | Some hash \<Rightarrow>
             (let user = \<lparr>cu_id = 0, cu_username = cur_username req, cu_email = cur_email req,
                          cu_password_hash = hash, cu_role = cur_role req, cu_totp_secret = None,
                          cu_totp_enabled = False, cu_created_at = go_zero_time\<rparr>
              in case CreateConsoleUser (uh_store h) user s of
                   (Inl _, s1) \<Rightarrow> (writeError 500 ''INTERNAL_ERROR'' ''failed to create user'' w, s1)
                 | (Inr user', s1) \<Rightarrow>
                     (case GetClaims r of
                        None \<Rightarrow> (panic w, s1)
                      | Some claims \<Rightarrow> (writeJSON 201 (UserReply user') w, s1)))))"

text \<open>The fields of the request that are not nil replace the user's; the role is checked.\<close>

definition apply_user_update :: "UpdateUserRequest \<Rightarrow> ConsoleUser \<Rightarrow> ConsoleUser option" where
  "apply_user_update req user =
     (let u1 = (case uur_username req of None \<Rightarrow> user | Some n \<Rightarrow> user\<lparr>cu_username := n\<rparr>);
          u2 = (case uur_email req of None \<Rightarrow> u1 | Some e \<Rightarrow> u1\<lparr>cu_email := Some e\<rparr>)
      in case uur_role req of
           None \<Rightarrow> Some u2
         | Some role \<Rightarrow> if \<not> valid_role role then None else Some (u2\<lparr>cu_role := role\<rparr>))"

definition Users_Update :: "'s UsersHandler \<Rightarrow> runtime \<Rightarrow> 's handler" where
  "Users_Update h rt r w s =
     (case pathInt r ''id'' of
        None \<Rightarrow> (writeError 400 ''VALIDATION_ERROR'' ''invalid user id'' w, s)
      | Some i \<Rightarrow>
        (case GetClaims r of
           None \<Rightarrow> (panic w, s)
         | Some claims \<Rightarrow>
           if i = cl_user_id claims
           then (writeError 403 ''FORBIDDEN'' ''cannot modify your own account here, use Account settings'' w, s)
           else
             (case GetConsoleUserByID (uh_store h) i s of
                (Inl _, s1) \<Rightarrow> (writeError 404 ''NOT_FOUND'' ''user not found'' w, s1)
              | (Inr user, s1) \<Rightarrow>
                (case decodeJSON rt decode_update_user r of
                   None \<Rightarrow> (writeError 400 ''VALIDATION_ERROR'' ''invalid request body'' w, s1)
                 | Some req \<Rightarrow>
                   (case apply_user_update req user of
                      None \<Rightarrow> (writeError 400 ''VALIDATION_ERROR'' ''role must be admin, manager, or viewer'' w, s1)
                    | Some user' \<Rightarrow>
                      (case UpdateConsoleUser (uh_store h) user' s1 of
                         (Inl _, s2) \<Rightarrow> (writeError 500 ''INTERNAL_ERROR'' ''failed to update user'' w, s2)
                       | (Inr _, s2) \<Rightarrow> (writeJSON 200 (UserReply user') w, s2)))))))"

definition Users_Delete :: "'s UsersHandler \<Rightarrow> 's handler" where
  "Users_Delete h r w s =
     (case pathInt r ''id'' of
        None \<Rightarrow> (writeError 400 ''VALIDATION_ERROR'' ''invalid user id'' w, s)
      | Some i \<Rightarrow>
        (case GetClaims r of
           None \<Rightarrow> (panic w, s)
         | Some claims \<Rightarrow>
           if i = cl_user_id claims
           then (writeError 403 ''FORBIDDEN'' ''cannot delete your own account'' w, s)
           else
             (case DeleteConsoleUser (uh_store h) i s of
                (Inl _, s1) \<Rightarrow> (writeError 500 ''INTERNAL_ERROR'' ''failed to delete user'' w, s1)
              | (Inr _, s1) \<Rightarrow> (write_header 200 w, s1))))"

subsection \<open>Effects, over the contract of the accounts\<close>

lemma valid_role_roles: "valid_role r \<longleftrightarrow> r \<in> set roles"
  by (auto simp: valid_role_def roles_def)

lemma apply_user_update_frame:
  assumes "apply_user_update req user = Some v"
  shows "cu_id v = cu_id user" "cu_created_at v = cu_created_at user"
    "cu_password_hash v = cu_password_hash user" "cu_totp_secret v = cu_totp_secret user"
    "cu_totp_enabled v = cu_totp_enabled user" "cu_role v = cu_role user \<or> cu_role v \<in> set roles"
  using assms by (auto simp: apply_user_update_def Let_def valid_role_roles split: option.splits if_splits)

context console_store
begin

lemma Users_Create_effect:
  assumes "Users_Create h rt r w s = (w', s')" and "uh_store h = st" and "wf s" and "fresh w"
  shows "wf s' \<and> (users_of s' = users_of s \<and> \<not> succeeded w' \<or>
    (\<exists>req u hash t. decodeJSON rt decode_create_user r = Some req \<and> cur_username req \<noteq> '''' \<and>
       8 \<le> length (cur_password req) \<and> cur_role req \<in> set roles \<and>
       HashPassword (uh_lib h) (cur_password req) = Some hash \<and> users_of s (cu_id u) = None \<and>
       u = \<lparr>cu_id = cu_id u, cu_username = cur_username req, cu_email = cur_email req, cu_password_hash = hash,
            cu_role = cur_role req, cu_totp_secret = None, cu_totp_enabled = False, cu_created_at = go_zero_time\<rparr> \<and>
       users_of s' = (users_of s)(cu_id u \<mapsto> u\<lparr>cu_created_at := t\<rparr>)))"
proof (cases "decodeJSON rt decode_create_user r")
  case None
  then show ?thesis using assms by (auto simp: Users_Create_def fresh_replies)
next
  case dec: (Some req)
  show ?thesis
  proof (cases "HashPassword (uh_lib h) (cur_password req)")
    case None
    then show ?thesis using assms dec by (auto simp: Users_Create_def fresh_replies split: if_splits)
  next
    case hash: (Some hash)
    let ?u = "\<lparr>cu_id = 0, cu_username = cur_username req, cu_email = cur_email req, cu_password_hash = hash,
      cu_role = cur_role req, cu_totp_secret = None, cu_totp_enabled = False, cu_created_at = go_zero_time\<rparr>"
    obtain q s1 where c: "CreateConsoleUser st ?u s = (q, s1)" by fastforce
    note wf1 = create_user_wf [OF c assms(3)]
    show ?thesis
    proof (cases q)
      case (Inl e)
      then show ?thesis using assms dec hash c wf1 create_user_err [OF c [unfolded Inl] assms(3)]
        by (auto simp: Users_Create_def fresh_replies split: if_splits)
    next
      case (Inr u)
      obtain t where "users_of s (cu_id u) = None" "u = ?u\<lparr>cu_id := cu_id u\<rparr>"
        "users_of s1 = (users_of s)(cu_id u \<mapsto> u\<lparr>cu_created_at := t\<rparr>)"
        using create_user_ok [OF c [unfolded Inr] assms(3)] by blast
      then show ?thesis using assms dec hash c wf1 Inr
        by (auto simp: Users_Create_def fresh_replies valid_role_roles split: if_splits option.splits
            intro!: exI [of _ u] exI [of _ t])
    qed
  qed
qed

lemma Users_Update_effect:
  assumes "Users_Update h rt r w s = (w', s')" and "uh_store h = st" and "wf s" and "fresh w"
  shows "wf s' \<and>
    (if succeeded w' then
       \<exists>i cl u req v. pathInt r ''id'' = Some i \<and> rq_claims r = Some cl \<and> i \<noteq> cl_user_id cl \<and>
         users_of s i = Some u \<and> decodeJSON rt decode_update_user r = Some req \<and>
         apply_user_update req u = Some v \<and> users_of s' = (users_of s)(i \<mapsto> v)
     else users_of s' = users_of s)"
proof (cases "pathInt r ''id''")
  case None
  then show ?thesis using assms by (auto simp: Users_Update_def fresh_replies)
next
  case i: (Some i)
  show ?thesis
  proof (cases "rq_claims r")
    case None
    then show ?thesis using assms i by (auto simp: Users_Update_def GetClaims_def fresh_replies)
  next
    case cl: (Some cl)
    from assms(3) show ?thesis
    proof (cases rule: load_user_cases [where i = i])
      case missing
      then show ?thesis using assms i cl
        by (auto simp: Users_Update_def GetClaims_def fresh_replies split: if_splits)
    next
      case (loaded u s1)
      show ?thesis
      proof (cases "decodeJSON rt decode_update_user r")
        case None
        then show ?thesis using assms i cl loaded
          by (auto simp: Users_Update_def GetClaims_def fresh_replies split: if_splits)
      next
        case dec: (Some req)
        show ?thesis
        proof (cases "apply_user_update req u")
          case None
          then show ?thesis using assms i cl loaded dec
            by (auto simp: Users_Update_def GetClaims_def fresh_replies split: if_splits)
        next
          case v: (Some v)
          note frame = apply_user_update_frame(1,2) [OF v]
          from loaded(1) assms(3) frame show ?thesis
            by (cases rule: save_user_cases)
               (use assms i cl loaded dec v in \<open>auto simp: Users_Update_def GetClaims_def fresh_replies
                  split: if_splits\<close>)
        qed
      qed
    qed
  qed
qed

lemma Users_Delete_effect:
  assumes "Users_Delete h r w s = (w', s')" and "uh_store h = st" and "wf s" and "fresh w"
  shows "wf s' \<and>
    (if succeeded w' then
       \<exists>i cl. pathInt r ''id'' = Some i \<and> rq_claims r = Some cl \<and> i \<noteq> cl_user_id cl \<and>
         users_of s' = (users_of s)(i := None)
     else users_of s' = users_of s)"
proof (cases "pathInt r ''id''")
  case None
  then show ?thesis using assms by (auto simp: Users_Delete_def fresh_replies)
next
  case i: (Some i)
  obtain q s1 where d: "DeleteConsoleUser st i s = (q, s1)" by fastforce
  show ?thesis
    using assms i d delete_user_wf [OF d assms(3)] delete_user_ok [of i s _ s1] delete_user_err [of i s _ s1]
    by (auto simp: Users_Delete_def GetClaims_def fresh_replies split: if_splits option.splits sum.splits)
qed

end

end
