(* ===== verification/Projects_Handler.thy ===== *)
theory Projects_Handler
  imports Auth_Service Middleware
begin

text \<open>
  \<open>internal/handler/projects.go\<close>: projects and their tracking tokens.  The claims are dereferenced only in
  \<open>Create\<close>, for the log, after the project is stored.
\<close>

record 's ProjectsHandler =
  ph_store :: "'s Store"
  ph_lib :: auth_lib

definition Projects_List :: "'s ProjectsHandler \<Rightarrow> 's handler" where
  "Projects_List h r w s =
     (case ListProjects (ph_store h) s of
        (Inl _, s1) \<Rightarrow> (writeError 500 ''INTERNAL_ERROR'' ''failed to list projects'' w, s1)
      | (Inr ps, s1) \<Rightarrow> (writeJSON 200 (ProjectsReply ps) w, s1))"

definition Projects_Create :: "'s ProjectsHandler \<Rightarrow> runtime \<Rightarrow> 's handler" where
  "Projects_Create h rt r w s =
     (case decodeJSON rt decode_create_project r of
        None \<Rightarrow> (writeError 400 ''VALIDATION_ERROR'' ''invalid request body'' w, s)
      | Some req \<Rightarrow>
        if cpr_name req = '''' then (writeError 400 ''VALIDATION_ERROR'' ''name is required'' w, s)
        else
          (case CreateProject (ph_store h)
                  \<lparr>prj_id = 0, prj_name = cpr_name req, prj_retention_days = 0, prj_created_at = go_zero_time\<rparr> s of
             (Inl _, s1) \<Rightarrow> (writeError 500 ''INTERNAL_ERROR'' ''failed to create project'' w, s1)
           | (Inr project, s1) \<Rightarrow>
               (case GetClaims r of
                  None \<Rightarrow> (panic w, s1)
                | Some claims \<Rightarrow> (writeJSON 201 (ProjectReply project) w, s1))))"

definition Projects_Update :: "'s ProjectsHandler \<Rightarrow> runtime \<Rightarrow> 's handler" where
  "Projects_Update h rt r w s =
     (case pathInt r ''id'' of
        None \<Rightarrow> (writeError 400 ''VALIDATION_ERROR'' ''invalid project id'' w, s)
      | Some i \<Rightarrow>
        (case GetProject (ph_store h) i s of
           (Inl _, s1) \<Rightarrow> (writeError 404 ''NOT_FOUND'' ''project not found'' w, s1)
         | (Inr p0, s1) \<Rightarrow>
           (case decodeJSON rt decode_update_project r of
              None \<Rightarrow> (writeError 400 ''VALIDATION_ERROR'' ''invalid request body'' w, s1)
            | Some req \<Rightarrow>
              (let p1 = (case upr_name req of None \<Rightarrow> p0 | Some n \<Rightarrow> p0\<lparr>prj_name := n\<rparr>);
                   p2 = (case upr_retention_days req of None \<Rightarrow> p1 | Some n \<Rightarrow> p1\<lparr>prj_retention_days := n\<rparr>)
               in case UpdateProject (ph_store h) p2 s1 of
                    (Inl _, s2) \<Rightarrow> (writeError 500 ''INTERNAL_ERROR'' ''failed to update project'' w, s2)
                  | (Inr _, s2) \<Rightarrow> (writeJSON 200 (ProjectReply p2) w, s2)))))"

definition Projects_Delete :: "'s ProjectsHandler \<Rightarrow> 's handler" where
  "Projects_Delete h r w s =
     (case pathInt r ''id'' of
        None \<Rightarrow> (writeError 400 ''VALIDATION_ERROR'' ''invalid project id'' w, s)
      | Some i \<Rightarrow>
        (case DeleteProject (ph_store h) i s of
           (Inl _, s1) \<Rightarrow> (writeError 500 ''INTERNAL_ERROR'' ''failed to delete project'' w, s1)
         | (Inr _, s1) \<Rightarrow> (write_header 200 w, s1)))"

subsection \<open>Tokens\<close>

definition ListTokens :: "'s ProjectsHandler \<Rightarrow> 's handler" where
  "ListTokens h r w s =
     (case pathInt r ''id'' of
        None \<Rightarrow> (writeError 400 ''VALIDATION_ERROR'' ''invalid project id'' w, s)
      | Some i \<Rightarrow>
        (case ListProjectTokens (ph_store h) i s of
           (Inl _, s1) \<Rightarrow> (writeError 500 ''INTERNAL_ERROR'' ''failed to list tokens'' w, s1)
         | (Inr tokens, s1) \<Rightarrow> (writeJSON 200 (TokensReply tokens) w, s1)))"

text \<open>\<open>err.Error()\<close> of an error of \<open>normalizeOrigins\<close>.\<close>

definition origin_error_text :: "runtime \<Rightarrow> origin_error \<Rightarrow> string" where
  "origin_error_text rt e =
     (case e of
        NotSchemeHost raw \<Rightarrow> ''invalid origin '' @ rt_quote rt raw @ '': must be scheme://host[:port]''
      | NotHttpScheme raw \<Rightarrow> ''invalid origin '' @ rt_quote rt raw @ '': scheme must be http or https'')"

abbreviation normalized :: "runtime \<Rightarrow> string list \<Rightarrow> (origin_error, string list) result" where
  "normalized rt \<equiv> normalizeOrigins (url_parse (rt_ip_literal rt))"

definition CreateToken :: "'s ProjectsHandler \<Rightarrow> runtime \<Rightarrow> 's handler" where
  "CreateToken h rt r w s =
     (case pathInt r ''id'' of
        None \<Rightarrow> (writeError 400 ''VALIDATION_ERROR'' ''invalid project id'' w, s)
      | Some i \<Rightarrow>
        (case decodeJSON rt decode_create_token r of
           None \<Rightarrow> (writeError 400 ''VALIDATION_ERROR'' ''invalid request body'' w, s)
         | Some req \<Rightarrow>
           (case GenerateToken (ph_lib h) of
              None \<Rightarrow> (writeError 500 ''INTERNAL_ERROR'' ''failed to generate token'' w, s)
            | Some tokenStr \<Rightarrow>
              (case normalized rt (ctr_allowed_origins req) of
                 Inl e \<Rightarrow> (writeError 400 ''VALIDATION_ERROR'' (origin_error_text rt e) w, s)
               | Inr origins \<Rightarrow>
                 (case CreateProjectToken (ph_store h)
                         \<lparr>tok_id = 0, tok_project_id = i, tok_token = tokenStr, tok_label = ctr_label req,
                          tok_active = True, tok_allowed_origins = origins, tok_created_at = go_zero_time,
                          tok_disabled_at = None\<rparr> s of
                    (Inl _, s1) \<Rightarrow> (writeError 500 ''INTERNAL_ERROR'' ''failed to create token'' w, s1)
                  | (Inr token, s1) \<Rightarrow> (writeJSON 201 (TokenReply token) w, s1))))))"

text \<open>
  The common beginning of \<open>UpdateToken\<close>, \<open>DisableToken\<close> and \<open>EnableToken\<close>: read both ids, list the
  tokens of the project (whose id is read with its error ignored) and look for the token among them;
  \<open>k\<close> is what the handler does with the token found.
\<close>

definition with_token :: "'s ProjectsHandler \<Rightarrow> (ProjectToken \<Rightarrow> 's handler) \<Rightarrow> 's handler" where
  "with_token h k r w s =
     (case pathInt r ''token_id'' of
        None \<Rightarrow> (writeError 400 ''VALIDATION_ERROR'' ''invalid token id'' w, s)
      | Some tokenID \<Rightarrow>
        (case ListProjectTokens (ph_store h) (atoi_value (path_value r ''id'')) s of
           (Inl _, s1) \<Rightarrow> (writeError 500 ''INTERNAL_ERROR'' ''failed to find token'' w, s1)
         | (Inr tokens, s1) \<Rightarrow>
           (case find (\<lambda>t. tok_id t = tokenID) tokens of
              None \<Rightarrow> (writeError 404 ''NOT_FOUND'' ''token not found'' w, s1)
            | Some found \<Rightarrow> k found r w s1)))"

definition UpdateToken :: "'s ProjectsHandler \<Rightarrow> runtime \<Rightarrow> 's handler" where
  "UpdateToken h rt = with_token h (\<lambda>found r w s.
     case decodeJSON rt decode_update_token r of
       None \<Rightarrow> (writeError 400 ''VALIDATION_ERROR'' ''invalid request body'' w, s)
     | Some req \<Rightarrow>
       (let t1 = (case utr_label req of None \<Rightarrow> found | Some l \<Rightarrow> found\<lparr>tok_label := l\<rparr>)
        in case (case utr_allowed_origins req of
                   None \<Rightarrow> Inr t1
                 | Some os \<Rightarrow> map_sum id (\<lambda>origins. t1\<lparr>tok_allowed_origins := origins\<rparr>) (normalized rt os)) of
             Inl e \<Rightarrow> (writeError 400 ''VALIDATION_ERROR'' (origin_error_text rt e) w, s)
           | Inr t2 \<Rightarrow>
             (case UpdateProjectToken (ph_store h) t2 s of
                (Inl _, s2) \<Rightarrow> (writeError 500 ''INTERNAL_ERROR'' ''failed to update token'' w, s2)
              | (Inr _, s2) \<Rightarrow> (writeJSON 200 (TokenReply t2) w, s2))))"

definition DisableToken :: "'s ProjectsHandler \<Rightarrow> 's handler" where
  "DisableToken h = with_token h (\<lambda>found r w s.
     let now = rq_clock r 0
     in case UpdateProjectToken (ph_store h) (found\<lparr>tok_active := False, tok_disabled_at := Some now\<rparr>) s of
          (Inl _, s2) \<Rightarrow> (writeError 500 ''INTERNAL_ERROR'' ''failed to disable token'' w, s2)
        | (Inr _, s2) \<Rightarrow> (write_header 200 w, s2))"

definition EnableToken :: "'s ProjectsHandler \<Rightarrow> 's handler" where
  "EnableToken h = with_token h (\<lambda>found r w s.
     case UpdateProjectToken (ph_store h) (found\<lparr>tok_active := True, tok_disabled_at := None\<rparr>) s of
       (Inl _, s2) \<Rightarrow> (writeError 500 ''INTERNAL_ERROR'' ''failed to enable token'' w, s2)
     | (Inr _, s2) \<Rightarrow> (write_header 200 w, s2))"

definition DeleteToken :: "'s ProjectsHandler \<Rightarrow> 's handler" where
  "DeleteToken h r w s =
     (case pathInt r ''token_id'' of
        None \<Rightarrow> (writeError 400 ''VALIDATION_ERROR'' ''invalid token id'' w, s)
      | Some tokenID \<Rightarrow>
        (case DeleteProjectToken (ph_store h) tokenID s of
           (Inl _, s1) \<Rightarrow> (writeError 500 ''INTERNAL_ERROR'' ''failed to delete token'' w, s1)
         | (Inr _, s1) \<Rightarrow> (write_header 200 w, s1)))"

end
