(* ===== verification/Analytics_Handler.thy ===== *)
theory Analytics_Handler
  imports Middleware
begin

text \<open>
  \<open>internal/handler/analytics.go\<close>, \<open>internal/handler/health.go\<close> and \<open>parseAnalyticsParams\<close> of
  \<open>internal/handler/handler.go\<close>: the reading endpoints of the console.
\<close>

subsection \<open>Query parameters\<close>

record analyticsParams =
  ap_from :: instant
  ap_to :: instant
  ap_interval :: string
  ap_limit :: int
  ap_offset :: int

text \<open>
  \<open>t.AddDate(0, 0, n)\<close> in the local time zone: the clock on the wall moves by whole days, and
  \<open>time.Date\<close> looks the offset up for the new wall time, then for the instant that offset gives.
\<close>

definition nanos_per_day :: int where "nanos_per_day = 24 * 3600 * 1000000000"

definition local_instant :: "(instant \<Rightarrow> int) \<Rightarrow> int \<Rightarrow> instant" where
  "local_instant zone wall = (let off = zone wall in if off = 0 then wall else wall - zone (wall - off))"

definition add_days :: "runtime \<Rightarrow> int \<Rightarrow> instant \<Rightarrow> instant" where
  "add_days rt n t = local_instant (rt_zone rt) (t + rt_zone rt t + n * nanos_per_day)"

text \<open>\<open>if v := r.URL.Query().Get(name); v != ""\<close>, and a value that is kept when the parser rejects it.\<close>

definition query_or :: "request \<Rightarrow> string \<Rightarrow> (string \<Rightarrow> 'a option) \<Rightarrow> 'a \<Rightarrow> 'a" where
  "query_or r name parse dflt =
     (let v = query_get r name
      in if v = '''' then dflt else (case parse v of None \<Rightarrow> dflt | Some x \<Rightarrow> x))"

definition parseAnalyticsParams :: "runtime \<Rightarrow> request \<Rightarrow> analyticsParams" where
  "parseAnalyticsParams rt r =
     \<lparr>ap_from = query_or r ''from'' (rt_rfc3339 rt) (add_days rt (- 30) (rq_clock r 0)),
      ap_to = query_or r ''to'' (rt_rfc3339 rt) (rq_clock r 1),
      ap_interval = query_or r ''interval'' Some ''day'',
      ap_limit = query_or r ''limit''
        (\<lambda>v. case atoi v of None \<Rightarrow> None | Some n \<Rightarrow> if n > 0 \<and> n \<le> 1000 then Some n else None) 50,
      ap_offset = query_or r ''offset''
        (\<lambda>v. case atoi v of None \<Rightarrow> None | Some n \<Rightarrow> if n \<ge> 0 then Some n else None) 0\<rparr>"

subsection \<open>The endpoints\<close>

text \<open>What the seven handlers share: the project id, the query, the answer or the error message.\<close>

definition analytics_reply ::
  "string \<Rightarrow> ('a \<Rightarrow> reply) \<Rightarrow> (int \<Rightarrow> ('a, 's) op) \<Rightarrow> 's handler" where
  "analytics_reply what reply_of get r w s =
     (case pathInt r ''project_id'' of
        None \<Rightarrow> (writeError 400 ''VALIDATION_ERROR'' ''invalid project_id'' w, s)
      | Some projectID \<Rightarrow>
        (case get projectID s of
           (Inl _, s1) \<Rightarrow> (writeError 500 ''INTERNAL_ERROR'' (''failed to get '' @ what) w, s1)
         | (Inr result, s1) \<Rightarrow> (writeJSON 200 (reply_of result) w, s1)))"

record 's AnalyticsHandler =
  an_store :: "'s Store"

definition Overview :: "'s AnalyticsHandler \<Rightarrow> runtime \<Rightarrow> 's handler" where
  "Overview h rt r =
     (let p = parseAnalyticsParams rt r in analytics_reply ''overview'' OverviewReply
        (\<lambda>i. GetOverview (an_store h) i (ap_from p) (ap_to p)) r)"

definition Events_handler :: "'s AnalyticsHandler \<Rightarrow> runtime \<Rightarrow> 's handler" where
  "Events_handler h rt r =
     (let p = parseAnalyticsParams rt r in analytics_reply ''events analytics'' EventsReply
        (\<lambda>i. GetEventsAnalytics (an_store h) i (ap_from p) (ap_to p) (ap_interval p) (ap_limit p) (ap_offset p)) r)"

definition EventProperties :: "'s AnalyticsHandler \<Rightarrow> runtime \<Rightarrow> 's handler" where
  "EventProperties h rt r =
     (let p = parseAnalyticsParams rt r in analytics_reply ''event properties'' PropertiesReply
        (\<lambda>i. GetEventProperties (an_store h) i (path_value r ''name'') (ap_from p) (ap_to p)
               (ap_limit p) (ap_offset p)) r)"

definition Devices_handler :: "'s AnalyticsHandler \<Rightarrow> runtime \<Rightarrow> 's handler" where
  "Devices_handler h rt r =
     (let p = parseAnalyticsParams rt r in analytics_reply ''devices analytics'' DevicesReply
        (\<lambda>i. GetDevicesAnalytics (an_store h) i (ap_from p) (ap_to p)) r)"

definition Geo :: "'s AnalyticsHandler \<Rightarrow> runtime \<Rightarrow> 's handler" where
  "Geo h rt r =
     (let p = parseAnalyticsParams rt r in analytics_reply ''geo analytics'' GeoReply
        (\<lambda>i. GetGeoAnalytics (an_store h) i (ap_from p) (ap_to p) (ap_limit p) (ap_offset p)) r)"

definition Users_handler :: "'s AnalyticsHandler \<Rightarrow> runtime \<Rightarrow> 's handler" where
  "Users_handler h rt r =
     (let p = parseAnalyticsParams rt r in analytics_reply ''users analytics'' UsersAnalyticsReply
        (\<lambda>i. GetUsersAnalytics (an_store h) i (ap_from p) (ap_to p) (ap_interval p)) r)"

definition Retention :: "'s AnalyticsHandler \<Rightarrow> runtime \<Rightarrow> 's handler" where
  "Retention h rt r =
     (let p = parseAnalyticsParams rt r in analytics_reply ''retention analytics'' RetentionReply
        (\<lambda>i. GetRetentionAnalytics (an_store h) i (ap_from p) (ap_to p)) r)"

subsection \<open>Health\<close>

text \<open>\<open>hh_geoip\<close>: whether the resolver is not nil.\<close>

record 's HealthHandler =
  hh_store :: "'s Store"
  hh_geoip :: bool
  hh_version :: string

definition Health :: "'s HealthHandler \<Rightarrow> 's handler" where
  "Health h r w s =
     (let resp0 = \<lparr>hr_status = ''ok'', hr_database = ''ok'', hr_geoip = ''ok'', hr_version = hh_version h\<rparr>
      in case Ping (hh_store h) s of
           (res, s1) \<Rightarrow>
             (let resp1 = (case res of
                    Inl _ \<Rightarrow> resp0\<lparr>hr_status := ''degraded'', hr_database := ''error''\<rparr> | Inr _ \<Rightarrow> resp0);
                  resp2 = (if \<not> hh_geoip h then resp1\<lparr>hr_status := ''degraded'', hr_geoip := ''unavailable''\<rparr>
                           else resp1);
                  code = (if hr_status resp2 \<noteq> ''ok'' then 503 else 200)
              in (writeJSON code (HealthReply resp2) w, s1)))"

subsection \<open>Properties of the parameters\<close>

lemma query_or_cases:
  "(query_get r name = '''' \<or> parse (query_get r name) = None) \<and> query_or r name parse dflt = dflt \<or>
   parse (query_get r name) = Some (query_or r name parse dflt)"
  by (auto simp: query_or_def Let_def split: option.splits)

text \<open>
  Whatever the query string says, the page size handed to the store is between 1 and 1000 and the
  offset is not negative and fits an \<open>int64\<close>.
\<close>

theorem analytics_page_bounds:
  "1 \<le> ap_limit (parseAnalyticsParams rt r) \<and> ap_limit (parseAnalyticsParams rt r) \<le> 1000 \<and>
   0 \<le> ap_offset (parseAnalyticsParams rt r) \<and> ap_offset (parseAnalyticsParams rt r) < 2 ^ 63"
proof -
  have l: "ap_limit (parseAnalyticsParams rt r) = query_or r ''limit''
      (\<lambda>v. case atoi v of None \<Rightarrow> None | Some n \<Rightarrow> if n > 0 \<and> n \<le> 1000 then Some n else None) 50"
    and o: "ap_offset (parseAnalyticsParams rt r) = query_or r ''offset''
      (\<lambda>v. case atoi v of None \<Rightarrow> None | Some n \<Rightarrow> if n \<ge> 0 then Some n else None) 0"
    by (simp_all add: parseAnalyticsParams_def)
  have "1 \<le> ap_limit (parseAnalyticsParams rt r) \<and> ap_limit (parseAnalyticsParams rt r) \<le> 1000"
    unfolding l by (auto simp: query_or_def Let_def split: option.split)
  moreover have "0 \<le> ap_offset (parseAnalyticsParams rt r) \<and> ap_offset (parseAnalyticsParams rt r) < 2 ^ 63"
    unfolding o by (auto simp: query_or_def Let_def split: option.split dest: atoi_range)
  ultimately show ?thesis by blast
qed

text \<open>In a zone whose offset does not change, a default window is exactly thirty days long.\<close>

lemma add_days_constant_zone:
  assumes "\<And>t. rt_zone rt t = z"
  shows "add_days rt n t = t + n * nanos_per_day"
  using assms by (simp add: add_days_def local_instant_def Let_def)

end
