(* ===== verification/Frames.thy ===== *)
theory Frames
  imports Tracking Users_Handler Projects_Handler Analytics_Handler
begin

text \<open>
  Which part of the state a handler can touch.  The handlers are grouped by the store methods they call; a
  locale per group says that these methods keep a predicate \<open>I\<close>, and its lemmas that the handlers do.  The
  interpretations on SQLite take for \<open>I\<close> the relations ``differs from a given database only in \<dots>''.
\<close>

subsection \<open>Reading\<close>

locale reading_methods =
  fixes st :: "'s Store" and I :: "'s \<Rightarrow> bool"
  assumes ping_keeps: "Ping st s = (r1, s') \<Longrightarrow> I s \<Longrightarrow> I s'"
    and get_user_keeps: "GetConsoleUserByID st i s = (r2, s') \<Longrightarrow> I s \<Longrightarrow> I s'"
    and get_login_keeps: "GetConsoleUserByLogin st l s = (r2, s') \<Longrightarrow> I s \<Longrightarrow> I s'"
    and list_users_keeps: "ListConsoleUsers st s = (r3, s') \<Longrightarrow> I s \<Longrightarrow> I s'"
    and get_project_keeps: "GetProject st i s = (r4, s') \<Longrightarrow> I s \<Longrightarrow> I s'"
    and list_projects_keeps: "ListProjects st s = (r5, s') \<Longrightarrow> I s \<Longrightarrow> I s'"
    and get_token_keeps: "GetProjectTokenByToken st t s = (r6, s') \<Longrightarrow> I s \<Longrightarrow> I s'"
    and list_tokens_keeps: "ListProjectTokens st i s = (r7, s') \<Longrightarrow> I s \<Longrightarrow> I s'"
    and device_user_keeps: "GetDeviceUserID st dev s = (r8, s') \<Longrightarrow> I s \<Longrightarrow> I s'"
    and overview_keeps: "GetOverview st i lo hi s = (r9, s') \<Longrightarrow> I s \<Longrightarrow> I s'"
    and events_analytics_keeps: "GetEventsAnalytics st i lo hi iv n m s = (r10, s') \<Longrightarrow> I s \<Longrightarrow> I s'"
    and event_properties_keeps: "GetEventProperties st i nm lo hi n m s = (r11, s') \<Longrightarrow> I s \<Longrightarrow> I s'"
    and devices_analytics_keeps: "GetDevicesAnalytics st i lo hi s = (r12, s') \<Longrightarrow> I s \<Longrightarrow> I s'"
    and geo_analytics_keeps: "GetGeoAnalytics st i lo hi n m s = (r13, s') \<Longrightarrow> I s \<Longrightarrow> I s'"
    and users_analytics_keeps: "GetUsersAnalytics st i lo hi iv s = (r14, s') \<Longrightarrow> I s \<Longrightarrow> I s'"
    and retention_keeps: "GetRetentionAnalytics st i lo hi s = (r15, s') \<Longrightarrow> I s \<Longrightarrow> I s'"
begin

lemma analytics_reply_keeps:
  assumes "analytics_reply what f get r w s = (w', s')" and "I s"
    and "\<And>i res s'. get i s = (res, s') \<Longrightarrow> I s'"
  shows "I s'"
  using assms by (auto simp: analytics_reply_def split: option.splits prod.splits sum.splits)

lemma analytics_keep:
  "an_store h = st \<Longrightarrow> I s \<Longrightarrow> Overview h rt r w s = (w', s') \<Longrightarrow> I s'"
  "an_store h = st \<Longrightarrow> I s \<Longrightarrow> Events_handler h rt r w s = (w', s') \<Longrightarrow> I s'"
  "an_store h = st \<Longrightarrow> I s \<Longrightarrow> EventProperties h rt r w s = (w', s') \<Longrightarrow> I s'"
  "an_store h = st \<Longrightarrow> I s \<Longrightarrow> Devices_handler h rt r w s = (w', s') \<Longrightarrow> I s'"
  "an_store h = st \<Longrightarrow> I s \<Longrightarrow> Geo h rt r w s = (w', s') \<Longrightarrow> I s'"
  "an_store h = st \<Longrightarrow> I s \<Longrightarrow> Users_handler h rt r w s = (w', s') \<Longrightarrow> I s'"
  "an_store h = st \<Longrightarrow> I s \<Longrightarrow> Retention h rt r w s = (w', s') \<Longrightarrow> I s'"
  unfolding Overview_def Events_handler_def EventProperties_def Devices_handler_def Geo_def
    Users_handler_def Retention_def Let_def
  by (erule analytics_reply_keeps, assumption, simp, (erule overview_keeps events_analytics_keeps
      event_properties_keeps devices_analytics_keeps geo_analytics_keeps users_analytics_keeps
      retention_keeps), assumption)+

lemma lists_keep:
  "uh_store u = st \<Longrightarrow> I s \<Longrightarrow> Users_List u r w s = (w', s') \<Longrightarrow> I s'"
  "ph_store p = st \<Longrightarrow> I s \<Longrightarrow> Projects_List p r w s = (w', s') \<Longrightarrow> I s'"
  "ph_store p = st \<Longrightarrow> I s \<Longrightarrow> ListTokens p r w s = (w', s') \<Longrightarrow> I s'"
  "hh_store hh = st \<Longrightarrow> I s \<Longrightarrow> Health hh r w s = (w', s') \<Longrightarrow> I s'"
  "ah_store h = st \<Longrightarrow> I s \<Longrightarrow> Me h r w s = (w', s') \<Longrightarrow> I s'"
  by (auto simp: Users_List_def Projects_List_def ListTokens_def Health_def Me_def Let_def
      split: prod.splits sum.splits option.splits
      intro: list_users_keeps list_projects_keeps list_tokens_keeps ping_keeps get_user_keeps)

lemma Login_keeps:
  assumes "ah_store h = st" and "I s" and "Login h rt r w (att, s) = (w', (att', s'))"
  shows "I s'"
  using assms
  by (auto simp: Login_def split: prod.splits sum.splits option.splits if_splits intro: get_login_keeps)

lemma with_token_keeps:
  assumes "ph_store h = st" and "I s" and "with_token h k r w s = (w', s')"
    and "\<And>t s1. I s1 \<Longrightarrow> k t r w s1 = (w', s') \<Longrightarrow> I s'"
  shows "I s'"
  using assms(2-4) unfolding with_token_def assms(1)
  by (auto split: prod.splits sum.splits option.splits dest: list_tokens_keeps)

end

subsection \<open>The tracking handlers\<close>

locale tracking_methods = reading_methods st I for st :: "'s Store" and I +
  assumes upsert_keeps: "UpsertDevice st x s = (r16, s') \<Longrightarrow> I s \<Longrightarrow> I s'"
    and link_keeps: "LinkDeviceToUser st dev uid s = (r16, s') \<Longrightarrow> I s \<Longrightarrow> I s'"
    and get_or_create_keeps: "GetOrCreateAppUser st i a s = (r17, s') \<Longrightarrow> I s \<Longrightarrow> I s'"
    and insert_event_keeps: "InsertEvent st ev s = (r18, s') \<Longrightarrow> I s \<Longrightarrow> I s'"
    and insert_properties_keeps: "InsertEventProperties st ps s = (r16, s') \<Longrightarrow> I s \<Longrightarrow> I s'"
begin

lemma track_one_keeps: "track_one st rt mk ev s = (b, s') \<Longrightarrow> I s \<Longrightarrow> I s'"
  by (auto simp: track_one_def Let_def split: prod.splits sum.splits if_splits bool.splits
      dest: insert_event_keeps intro: insert_properties_keeps [OF surjective_pairing])

lemma track_loop_keeps: "track_loop st rt mk evs n s = (n', s') \<Longrightarrow> I s \<Longrightarrow> I s'"
proof (induction evs arbitrary: n s)
  case (Cons ev evs)
  then show ?case
    by (auto simp: track_loop_Cons simp del: track_loop.simps(2) split: prod.splits dest: track_one_keeps)
qed simp

lemma tracking_keep:
  assumes h0: "th_store h = st" and "I s"
  shows "Track h rt r w s = (w', s') \<Longrightarrow> I s'"
    and "Device_handler h rt r w s = (w', s') \<Longrightarrow> I s'"
    and "Identify h rt r w s = (w', s') \<Longrightarrow> I s'"
  using \<open>I s\<close> unfolding Track_def Device_handler_def Identify_def h0
  by (auto simp: Let_def split: prod.splits sum.splits option.splits if_splits
      dest: track_loop_keeps device_user_keeps upsert_keeps get_or_create_keeps link_keeps)

end

subsection \<open>The project handlers\<close>

locale project_methods = reading_methods st I for st :: "'s Store" and I +
  assumes create_project_keeps: "CreateProject st p s = (r16, s') \<Longrightarrow> I s \<Longrightarrow> I s'"
    and update_project_keeps: "UpdateProject st p s = (r17, s') \<Longrightarrow> I s \<Longrightarrow> I s'"
    and create_token_keeps: "CreateProjectToken st t s = (r18, s') \<Longrightarrow> I s \<Longrightarrow> I s'"
    and update_token_keeps: "UpdateProjectToken st t s = (r17, s') \<Longrightarrow> I s \<Longrightarrow> I s'"
begin

lemma project_keep:
  assumes h0: "ph_store h = st" and "I s"
  shows "Projects_Create h rt r w s = (w', s') \<Longrightarrow> I s'"
    and "Projects_Update h rt r w s = (w', s') \<Longrightarrow> I s'"
    and "CreateToken h rt r w s = (w', s') \<Longrightarrow> I s'"
  using \<open>I s\<close> unfolding Projects_Create_def Projects_Update_def CreateToken_def h0
  by (auto simp: Let_def split: prod.splits sum.splits option.splits if_splits
      dest: create_project_keeps update_project_keeps get_project_keeps create_token_keeps)

lemma token_change_keeps:
  assumes h: "ph_store h = st" and s: "I s"
  shows "UpdateToken h rt r w s = (w', s') \<Longrightarrow> I s'"
    and "DisableToken h r w s = (w', s') \<Longrightarrow> I s'"
    and "EnableToken h r w s = (w', s') \<Longrightarrow> I s'"
  unfolding UpdateToken_def DisableToken_def EnableToken_def Let_def
  by (erule with_token_keeps [OF h s],
      auto simp: h split: prod.splits sum.splits option.splits dest: update_token_keeps)+

end

locale project_deletion = project_methods st I for st :: "'s Store" and I +
  assumes delete_project_keeps: "DeleteProject st i s = (r19, s') \<Longrightarrow> I s \<Longrightarrow> I s'"
    and delete_token_keeps: "DeleteProjectToken st i s = (r19, s') \<Longrightarrow> I s \<Longrightarrow> I s'"
begin

lemma deletion_keeps:
  assumes h0: "ph_store h = st" and "I s"
  shows "Projects_Delete h r w s = (w', s') \<Longrightarrow> I s'"
    and "DeleteToken h r w s = (w', s') \<Longrightarrow> I s'"
  using \<open>I s\<close> unfolding Projects_Delete_def DeleteToken_def h0
  by (auto simp: Let_def split: prod.splits sum.splits option.splits if_splits
      dest: delete_project_keeps delete_token_keeps)

end

subsection \<open>The account handlers\<close>

locale account_methods = reading_methods st I for st :: "'s Store" and I +
  assumes update_user_keeps: "UpdateConsoleUser st u s = (r16, s') \<Longrightarrow> I s \<Longrightarrow> I s'"
begin

lemma own_account_keeps:
  assumes h0: "ah_store h = st" and "I s"
  shows "ChangePassword h rt r w s = (w', s') \<Longrightarrow> I s'"
    and "TOTPSetup h r w s = (w', s') \<Longrightarrow> I s'"
    and "TOTPEnable h rt r w s = (w', s') \<Longrightarrow> I s'"
    and "TOTPDisable h rt r w s = (w', s') \<Longrightarrow> I s'"
  using \<open>I s\<close> unfolding ChangePassword_def TOTPSetup_def TOTPEnable_def TOTPDisable_def h0
  by (auto simp: Let_def split: prod.splits sum.splits option.splits if_splits
      dest: get_user_keeps update_user_keeps)

end

locale account_administration = account_methods st I for st :: "'s Store" and I +
  assumes create_user_keeps: "CreateConsoleUser st u s = (r17, s') \<Longrightarrow> I s \<Longrightarrow> I s'"
    and delete_user_keeps: "DeleteConsoleUser st i s = (r16, s') \<Longrightarrow> I s \<Longrightarrow> I s'"
begin

lemma administration_keeps:
  assumes h0: "uh_store h = st" and "I s"
  shows "Users_Create h rt r w s = (w', s') \<Longrightarrow> I s'"
    and "Users_Update h rt r w s = (w', s') \<Longrightarrow> I s'"
    and "Users_Delete h r w s = (w', s') \<Longrightarrow> I s'"
  using \<open>I s\<close> unfolding Users_Create_def Users_Update_def Users_Delete_def h0
  by (auto simp: Let_def split: prod.splits sum.splits option.splits if_splits
      dest: create_user_keeps delete_user_keeps get_user_keeps update_user_keeps)

end


subsection \<open>SQLite\<close>

text \<open>What tracking, the management of projects and that of accounts may change.\<close>

definition keeps_ok :: "db \<Rightarrow> db \<Rightarrow> bool" where
  "keeps_ok d0 d \<longleftrightarrow> (db_ok d0 \<longrightarrow> db_ok d)"

definition tracking_change :: "db \<Rightarrow> db \<Rightarrow> bool" where
  "tracking_change d0 d \<longleftrightarrow> keeps_ok d0 d \<and> console_users d = console_users d0 \<and>
     projects d = projects d0 \<and> project_tokens d = project_tokens d0"

definition management_change :: "db \<Rightarrow> db \<Rightarrow> bool" where
  "management_change d0 d \<longleftrightarrow> keeps_ok d0 d \<and> console_users d = console_users d0 \<and>
     app_users d = app_users d0 \<and> devices d = devices d0 \<and> events d = events d0 \<and>
     event_properties d = event_properties d0"

definition deletion_change :: "db \<Rightarrow> db \<Rightarrow> bool" where
  "deletion_change d0 d \<longleftrightarrow> keeps_ok d0 d \<and> console_users d = console_users d0"

definition account_change :: "db \<Rightarrow> db \<Rightarrow> bool" where
  "account_change d0 d \<longleftrightarrow> keeps_ok d0 d \<and> projects d = projects d0 \<and>
     project_tokens d = project_tokens d0 \<and> app_users d = app_users d0 \<and> devices d = devices d0 \<and>
     events d = events d0 \<and> event_properties d = event_properties d0"

lemmas change_defs = tracking_change_def management_change_def deletion_change_def account_change_def
  keeps_ok_def

lemma same_tables_rows:
  "same_tables d d' \<Longrightarrow> console_users d' = console_users d \<and> projects d' = projects d \<and>
     project_tokens d' = project_tokens d \<and> app_users d' = app_users d \<and> devices d' = devices d \<and>
     events d' = events d \<and> event_properties d' = event_properties d"
  by (cases d; cases d') (simp add: same_tables_def)

lemma change_same_tables:
  assumes "same_tables d d'"
  shows "same_tables d0 d \<Longrightarrow> same_tables d0 d'" "tracking_change d0 d \<Longrightarrow> tracking_change d0 d'"
    "management_change d0 d \<Longrightarrow> management_change d0 d'" "deletion_change d0 d \<Longrightarrow> deletion_change d0 d'"
    "account_change d0 d \<Longrightarrow> account_change d0 d'"
  using same_tables_rows [OF assms] same_tables_ok [OF assms] same_tables_trans [OF _ assms]
  by (simp_all add: change_defs)

lemma change_refl [simp]:
  "tracking_change d d" "management_change d d" "deletion_change d d" "account_change d d"
  by (simp_all add: change_defs)

interpretation sqlite_reads: reading_methods SQLiteStore "same_tables d0" for d0
  by unfold_locales (auto simp: SQLiteStore_def dest: read_same intro: same_tables_trans)

lemma sqlite_reading:
  assumes "\<And>d d'. same_tables d d' \<Longrightarrow> I d \<Longrightarrow> I d'"
  shows "reading_methods SQLiteStore I"
  by unfold_locales (auto simp: SQLiteStore_def dest!: read_same intro: assms)

abbreviation console_rows :: "db \<Rightarrow> ConsoleUser list \<times> Project list \<times> TokenRow list" where
  "console_rows d \<equiv> (console_users d, projects d, project_tokens d)"

abbreviation tracking_data :: "db \<Rightarrow> AppUser list \<times> DeviceRow list \<times> EventRow list \<times> EventProperty list" where
  "tracking_data d \<equiv> (app_users d, devices d, events d, event_properties d)"

lemma same_but_props_rows: "same_but_props d d' \<Longrightarrow> console_rows d' = console_rows d"
  by (cases d; cases d') (simp add: same_but_props_def)

lemma rollback_rows [simp]: "console_rows (rollback_to d d') = console_rows d"
  by (simp add: rollback_to_def)

lemma insert_properties_console:
  assumes "sqlite_InsertEventProperties ps d = (r, d')"
  shows "console_rows d' = console_rows d"
  using assms
  by (auto simp: sqlite_InsertEventProperties_def rollback_to_def split: prod.splits sum.splits
      dest!: nop_stmt_state insert_properties_same same_but_props_rows)

lemma tracking_writes:
  "sqlite_UpsertDevice x d = (r1, d') \<Longrightarrow> console_rows d' = console_rows d"
  "sqlite_LinkDeviceToUser dev uid d = (r1, d') \<Longrightarrow> console_rows d' = console_rows d"
  "sqlite_InsertEvent ev d = (r2, d') \<Longrightarrow> console_rows d' = console_rows d"
  "sqlite_insert_app_user i a d = (r3, d') \<Longrightarrow> console_rows d' = console_rows d"
  by (auto simp: sqlite_UpsertDevice_def sqlite_LinkDeviceToUser_def sqlite_InsertEvent_def
      sqlite_insert_app_user_def run_stmt_def Let_def split: if_splits)

lemma get_or_create_console:
  "sqlite_GetOrCreateAppUser i a d = (r, d') \<Longrightarrow> console_rows d' = console_rows d"
  by (auto simp: sqlite_GetOrCreateAppUser_def split: prod.splits sum.splits if_splits
      dest!: query_Pair tracking_writes(4))

lemma management_writes:
  "sqlite_CreateProject p d = (r1, d') \<Longrightarrow> console_users d' = console_users d \<and> tracking_data d' = tracking_data d"
  "sqlite_UpdateProject p d = (r2, d') \<Longrightarrow> console_users d' = console_users d \<and> tracking_data d' = tracking_data d"
  "sqlite_CreateProjectToken t d = (r3, d') \<Longrightarrow> console_users d' = console_users d \<and> tracking_data d' = tracking_data d"
  "sqlite_UpdateProjectToken t d = (r2, d') \<Longrightarrow> console_users d' = console_users d \<and> tracking_data d' = tracking_data d"
  "sqlite_DeleteProjectToken i d = (r2, d') \<Longrightarrow> console_users d' = console_users d \<and> tracking_data d' = tracking_data d"
  by (auto simp: sqlite_CreateProject_def sqlite_UpdateProject_def sqlite_CreateProjectToken_def
      sqlite_UpdateProjectToken_def sqlite_DeleteProjectToken_def run_stmt_def Let_def split: if_splits)

lemma delete_project_users: "sqlite_DeleteProject i d = (r, d') \<Longrightarrow> console_users d' = console_users d"
  by (auto simp: sqlite_DeleteProject_def run_stmt_def delete_project_def delete_events_def delete_devices_def
      delete_app_users_def Let_def split: if_splits)

lemma account_writes:
  "sqlite_CreateConsoleUser u d = (r1, d') \<Longrightarrow>
     projects d' = projects d \<and> project_tokens d' = project_tokens d \<and> tracking_data d' = tracking_data d"
  "sqlite_UpdateConsoleUser u d = (r2, d') \<Longrightarrow>
     projects d' = projects d \<and> project_tokens d' = project_tokens d \<and> tracking_data d' = tracking_data d"
  "sqlite_DeleteConsoleUser i d = (r2, d') \<Longrightarrow>
     projects d' = projects d \<and> project_tokens d' = project_tokens d \<and> tracking_data d' = tracking_data d"
  by (auto simp: sqlite_CreateConsoleUser_def sqlite_UpdateConsoleUser_def sqlite_DeleteConsoleUser_def
      run_stmt_def Let_def split: if_splits)

interpretation sqlite_tracking: tracking_methods SQLiteStore "tracking_change d0" for d0
  by (rule tracking_methods.intro [OF sqlite_reading [OF change_same_tables(2)]]; (assumption | unfold_locales))
     (auto simp: SQLiteStore_def change_defs intro: write_ok dest: tracking_writes get_or_create_console
        insert_properties_console)

interpretation sqlite_management: project_methods SQLiteStore "management_change d0" for d0
  by (rule project_methods.intro [OF sqlite_reading [OF change_same_tables(3)]]; (assumption | unfold_locales))
     (auto simp: SQLiteStore_def change_defs intro: write_ok dest: management_writes)

interpretation sqlite_deletion: project_deletion SQLiteStore "deletion_change d0" for d0
  by (rule project_deletion.intro [OF project_methods.intro [OF sqlite_reading [OF change_same_tables(4)]]];
      (assumption | unfold_locales))
     (auto simp: SQLiteStore_def change_defs intro: write_ok dest: management_writes delete_project_users)

interpretation sqlite_accounts: account_administration SQLiteStore "account_change d0" for d0
  by (rule account_administration.intro [OF account_methods.intro [OF sqlite_reading [OF change_same_tables(5)]]];
      (assumption | unfold_locales))
     (auto simp: SQLiteStore_def change_defs intro: write_ok dest: account_writes)

end
