(* ===== verification/Rate_Limit.thy ===== *)
theory Rate_Limit
  imports Float64 Middleware
begin

text \<open>
  \<open>RateLimit\<close> of \<open>internal/middleware/middleware.go\<close>: one token bucket per key.  The critical
  section of the mutex is one step on the map of buckets; a run is the list of the steps in the order
  in which they take the lock.  Times are nanoseconds of the monotonic clock; the refill is computed in
  \<open>float64\<close> and truncated, as in the code.
\<close>

record bucket =
  b_tokens :: int
  b_last :: instant

type_synonym buckets = "string \<Rightarrow> bucket option"

text \<open>\<open>time.Duration.Minutes\<close> and the conversion \<open>int(f)\<close> of a \<open>float64\<close>.\<close>

definition minutes :: "int \<Rightarrow> rat" where
  "minutes ns = round64 (of_int (ns div 60000000000) + round64 (of_int (ns mod 60000000000) / 60000000000))"

definition refill :: "int \<Rightarrow> int \<Rightarrow> int" where
  "refill rpm elapsed = trunc64 (round64 (minutes elapsed * of_int rpm))"

text \<open>
  One pass of the critical section: \<open>t0\<close>, \<open>t1\<close>, \<open>t2\<close> are the clock readings that create a bucket,
  measure the elapsed time and set \<open>last\<close>.
\<close>

definition rl_step :: "int \<Rightarrow> string \<Rightarrow> instant \<Rightarrow> instant \<Rightarrow> instant \<Rightarrow> buckets \<Rightarrow> bool \<times> buckets" where
  "rl_step rpm key t0 t1 t2 bs =
     (let b = (case bs key of None \<Rightarrow> \<lparr>b_tokens = rpm, b_last = t0\<rparr> | Some b \<Rightarrow> b);
          elapsed = t1 - b_last b;
          tokens = b_tokens b + refill rpm elapsed;
          tokens = (if tokens > rpm then rpm else tokens)
      in if tokens \<le> 0 then (False, bs(key \<mapsto> \<lparr>b_tokens = tokens, b_last = t2\<rparr>))
         else (True, bs(key \<mapsto> \<lparr>b_tokens = tokens - 1, b_last = t2\<rparr>)))"

definition rl_key :: "request \<Rightarrow> string" where
  "rl_key r = (let key = header_get r ''X-Token'' in if key = '''' then rq_remote_addr r else key)"

text \<open>
  The middleware: \<open>get\<close> and \<open>put\<close> give this limiter's map of buckets, a closure variable of the code,
  its place in the server's state.
\<close>

definition RateLimit ::
  "int \<Rightarrow> ('s \<Rightarrow> buckets) \<Rightarrow> (buckets \<Rightarrow> 's \<Rightarrow> 's) \<Rightarrow> 's handler \<Rightarrow> 's handler" where
  "RateLimit requestsPerMinute get put next r w s =
     (case rl_step requestsPerMinute (rl_key r) (rq_clock r 0) (rq_clock r 1) (rq_clock r 2) (get s) of
        (ok, bs) \<Rightarrow>
          if \<not> ok then (writeError 429 ''RATE_LIMITED'' ''rate limit exceeded'' w, put bs s)
          else next r w (put bs s))"

subsection \<open>The refill\<close>

lemma trunc64_nonneg: "0 \<le> x \<Longrightarrow> trunc64 x = \<lfloor>x\<rfloor>"
  by (simp add: trunc64_def)

lemma minutes_nonneg: "0 \<le> ns \<Longrightarrow> 0 \<le> minutes ns"
  unfolding minutes_def by (intro round64_nonneg add_nonneg_nonneg) (simp_all add: div_int_pos_iff)

lemma refill_nonneg: "0 \<le> rpm \<Longrightarrow> 0 \<le> ns \<Longrightarrow> 0 \<le> refill rpm ns"
  by (simp add: refill_def trunc64_nonneg round64_nonneg minutes_nonneg)

text \<open>The refill grows with the elapsed time, rounding included.\<close>

lemma round64_le_1: "0 \<le> x \<Longrightarrow> x \<le> 1 \<Longrightarrow> round64 x \<le> 1"
  using round64_mono [of x 1] by (simp add: round64_1)

lemma minutes_mono:
  assumes "0 \<le> a" "a \<le> b"
  shows "minutes a \<le> minutes b"
proof -
  let ?q = "\<lambda>n. n div 60000000000 :: int" and ?r = "\<lambda>n. (of_int (n mod 60000000000) / 60000000000 :: rat)"
  have r: "0 \<le> ?r n" "?r n \<le> 1" for n by simp_all
  have "of_int (?q a) + round64 (?r a) \<le> of_int (?q b) + round64 (?r b)"
  proof (cases "?q a = ?q b")
    case True
    have "a mod 60000000000 \<le> b mod 60000000000"
      using True assms(2) by (metis add_le_cancel_left mult_div_mod_eq)
    then have "round64 (?r a) \<le> round64 (?r b)" by (intro round64_mono r) (simp add: divide_right_mono)
    then show ?thesis using True by simp
  next
    case False
    then have "?q a + 1 \<le> ?q b" using zdiv_mono1 [OF assms(2), of 60000000000] by simp
    then have "(of_int (?q a) + 1 :: rat) \<le> of_int (?q b)" by linarith
    then show ?thesis using round64_le_1 [OF r, of a] round64_nonneg [OF r(1), of b] by linarith
  qed
  moreover have "0 \<le> of_int (?q a) + round64 (?r a)"
    using assms(1) by (intro add_nonneg_nonneg round64_nonneg r) (simp add: div_int_pos_iff)
  ultimately show ?thesis unfolding minutes_def by (rule round64_mono [rotated])
qed

lemma refill_mono:
  assumes "0 \<le> rpm" "0 \<le> a" "a \<le> b"
  shows "refill rpm a \<le> refill rpm b"
proof -
  have p: "0 \<le> minutes a * of_int rpm" using assms by (intro mult_nonneg_nonneg minutes_nonneg) simp_all
  have "minutes a * of_int rpm \<le> minutes b * of_int rpm"
    using assms by (intro mult_right_mono minutes_mono) simp_all
  then have "round64 (minutes a * of_int rpm) \<le> round64 (minutes b * of_int rpm)"
    by (rule round64_mono [OF p])
  then show ?thesis
    unfolding refill_def using round64_nonneg [OF p] by (simp add: trunc64_nonneg floor_mono)
qed

text \<open>The two limits in use: below 6 s (login) and 60 ms (tracking) nothing is refilled, at them one token.\<close>

lemma minutes_endpoints:
  "minutes 5999999999 = 3602879701295917 / 36028797018963968"
  "minutes 6000000000 = 3602879701896397 / 36028797018963968"
  "minutes 59999999 = 2305842970782977 / 2305843009213693952"
  "minutes 60000000 = 1152921504606847 / 1152921504606846976"
  by code_simp+

lemma refill_endpoints:
  "refill 10 5999999999 = 0" "refill 10 6000000000 = 1"
  "refill 1000 59999999 = 0" "refill 1000 60000000 = 1"
  unfolding refill_def minutes_endpoints by code_simp+

lemma refill_login_zero: "0 \<le> g \<Longrightarrow> g < 6000000000 \<Longrightarrow> refill 10 g = 0"
  using refill_mono [of 10 g 5999999999] refill_nonneg [of 10 g] refill_endpoints(1) by simp

lemma refill_track_zero: "0 \<le> g \<Longrightarrow> g < 60000000 \<Longrightarrow> refill 1000 g = 0"
  using refill_mono [of 1000 g 59999999] refill_nonneg [of 1000 g] refill_endpoints(3) by simp

lemma refill_login_one: "6000000000 \<le> g \<Longrightarrow> 1 \<le> refill 10 g"
  using refill_mono [of 10 6000000000 g] refill_endpoints(2) by simp

text \<open>The three roundings exceed the exact refill by a relative error below \<open>2 ^ - 50\<close> at most.\<close>

lemma round64_upper:
  assumes "x = 0 \<or> 2 powi (- 1022) \<le> x"
  shows "round64 x \<le> x * (1 + 1 / 2 ^ 53)"
proof (cases "x = 0")
  case False
  then have "\<bar>round64 x - x\<bar> \<le> x / 2 ^ 53" using assms by (intro round64_error) blast
  then have "round64 x \<le> x + x / 2 ^ 53" by linarith
  also have "\<dots> = x * (1 + 1 / 2 ^ 53)" by (simp only: distrib_left mult_1_right times_divide_eq_right)
  finally show ?thesis .
qed simp

lemma tiny: "(2 :: rat) powi (- 1022) \<le> 1 / 120000000000" "(2 :: rat) powi (- 1022) \<le> 1 / 60000000000"
proof -
  have "(2 :: rat) powi (- 1022) \<le> 2 powi (- 37)" by (rule power_int_increasing) simp_all
  also have "\<dots> \<le> 1 / 120000000000" by (simp add: power_int_minus divide_simps)
  finally show "(2 :: rat) powi (- 1022) \<le> 1 / 120000000000" .
  then show "(2 :: rat) powi (- 1022) \<le> 1 / 60000000000" by (rule order_trans) simp
qed

lemma minutes_upper:
  assumes "0 \<le> ns"
  shows "minutes ns \<le> of_int ns / 60000000000 * (1 + 1 / 2 ^ 53) ^ 2"
proof -
  let ?q = "of_int (ns div 60000000000) :: rat" and ?r = "of_int (ns mod 60000000000) / 60000000000 :: rat"
  let ?e = "1 + 1 / 2 ^ 53 :: rat"
  have q: "0 \<le> ?q" "?q = 0 \<or> 1 \<le> ?q" using assms by (auto simp: pos_imp_zdiv_nonneg_iff)
  have r0: "0 \<le> ns mod 60000000000" by simp
  then have r: "?r = 0 \<or> 1 / 60000000000 \<le> ?r"
    by (cases "ns mod 60000000000 = 0") (auto simp: divide_right_mono)
  have rr: "round64 ?r \<le> ?r * ?e" using r tiny by (intro round64_upper) (meson order_trans)
  have rge: "?r = 0 \<or> 1 / 60000000000 \<le> round64 ?r * 2"
  proof (cases "?r = 0")
    case False
    then have lo: "1 / 60000000000 \<le> ?r" using r by blast
    then have "\<bar>round64 ?r - ?r\<bar> \<le> ?r / 2 ^ 53" by (intro round64_error order_trans [OF tiny(2)])
    moreover have "?r / 2 ^ 53 \<le> ?r / 2" using lo by (intro divide_left_mono) simp_all
    ultimately show ?thesis using lo by linarith
  qed simp
  have "?q + round64 ?r = 0 \<or> 2 powi (- 1022) \<le> ?q + round64 ?r"
    using q rge round64_nonneg [of ?r] by (cases "?r = 0") (auto intro: order_trans [OF tiny(1)])
  then have "minutes ns \<le> (?q + round64 ?r) * ?e" unfolding minutes_def by (rule round64_upper)
  also have "\<dots> \<le> (?q * ?e + ?r * ?e) * ?e"
  proof (rule mult_right_mono)
    have "?q * 1 \<le> ?q * ?e" by (rule mult_left_mono) (use q in auto)
    then show "?q + round64 ?r \<le> ?q * ?e + ?r * ?e" using rr by linarith
  qed simp
  also have "\<dots> = (?q + ?r) * ?e ^ 2" by (simp add: power2_eq_square algebra_simps)
  also have "?q + ?r = of_int ns / 60000000000"
  proof -
    have "(of_int ns :: rat) = of_int (60000000000 * (ns div 60000000000) + ns mod 60000000000)" by simp
    then show ?thesis by (simp only: of_int_add of_int_mult) (simp add: field_simps)
  qed
  finally show ?thesis .
qed

subsection \<open>Steps\<close>

definition buckets_ok :: "int \<Rightarrow> buckets \<Rightarrow> bool" where
  "buckets_ok rpm bs \<longleftrightarrow> (\<forall>k b. bs k = Some b \<longrightarrow> 0 \<le> b_tokens b \<and> b_tokens b \<le> rpm)"

definition level :: "int \<Rightarrow> string \<Rightarrow> buckets \<Rightarrow> int" where
  "level rpm k bs = (case bs k of None \<Rightarrow> rpm | Some b \<Rightarrow> b_tokens b)"

definition last_of :: "string \<Rightarrow> instant \<Rightarrow> buckets \<Rightarrow> instant" where
  "last_of k t bs = (case bs k of None \<Rightarrow> t | Some b \<Rightarrow> b_last b)"

lemma level_bounds: "buckets_ok rpm bs \<Longrightarrow> 0 \<le> rpm \<Longrightarrow> 0 \<le> level rpm k bs \<and> level rpm k bs \<le> rpm"
  by (auto simp: level_def buckets_ok_def split: option.split)

lemma rl_step_other: "rl_step rpm k t0 t1 t2 bs = (ok, bs') \<Longrightarrow> k' \<noteq> k \<Longrightarrow> bs' k' = bs k'"
  by (auto simp: rl_step_def Let_def split: if_splits)

lemma rl_step_result:
  assumes "rl_step rpm k t0 t1 t2 bs = (ok, bs')"
  shows "ok \<longleftrightarrow> 0 < min rpm (level rpm k bs + refill rpm (t1 - last_of k t0 bs))"
    and "level rpm k bs' = min rpm (level rpm k bs + refill rpm (t1 - last_of k t0 bs)) - (if ok then 1 else 0)"
    and "last_of k t bs' = t2"
  using assms by (auto simp: rl_step_def Let_def level_def last_of_def min_def split: if_splits option.splits)

lemma rl_step_ok:
  assumes s: "rl_step rpm k t0 t1 t2 bs = (ok, bs')" and "buckets_ok rpm bs" and "0 \<le> rpm"
    and "last_of k t0 bs \<le> t1"
  shows "buckets_ok rpm bs'"
  unfolding buckets_ok_def
proof (intro allI impI)
  fix k' b assume b: "bs' k' = Some b"
  show "0 \<le> b_tokens b \<and> b_tokens b \<le> rpm"
  proof (cases "k' = k")
    case True
    have "0 \<le> level rpm k bs + refill rpm (t1 - last_of k t0 bs)"
      using level_bounds [OF assms(2,3), of k] refill_nonneg [of rpm "t1 - last_of k t0 bs"] assms(3,4) by simp
    then have "0 \<le> level rpm k bs' \<and> level rpm k bs' \<le> rpm"
      using rl_step_result(1,2) [OF s] assms(3) by auto
    then show ?thesis using b True by (simp add: level_def)
  next
    case False
    then show ?thesis using rl_step_other [OF s False] b assms(2) by (simp add: buckets_ok_def)
  qed
qed

lemma refill_upper:
  assumes "0 \<le> ns" and "1 \<le> rpm"
  shows "of_int (refill rpm ns) \<le> (of_int rpm * of_int ns / 60000000000 :: rat) * (1 + 1 / 2 ^ 50)"
proof -
  let ?e = "1 + 1 / 2 ^ 53 :: rat" and ?m = "minutes ns * of_int rpm"
  have m0: "0 \<le> ?m" using assms by (intro mult_nonneg_nonneg minutes_nonneg) simp_all
  have "?m = 0 \<or> 1 / 120000000000 \<le> ?m"
  proof (cases "ns = 0")
    case False
    then have "minutes 1 \<le> minutes ns" using assms(1) by (intro minutes_mono) simp_all
    moreover have "1 / 120000000000 \<le> minutes 1" by code_simp
    ultimately have "1 / 120000000000 * 1 \<le> minutes ns * of_int rpm"
      using assms(2) by (intro mult_mono) simp_all
    then show ?thesis by simp
  qed (simp add: minutes_def)
  then have "round64 ?m \<le> ?m * ?e" by (intro round64_upper) (meson order_trans tiny(1))
  also have "\<dots> \<le> (of_int ns / 60000000000 * ?e ^ 2 * of_int rpm) * ?e"
    using assms by (intro mult_right_mono minutes_upper) simp_all
  also have "\<dots> = (of_int rpm * of_int ns / 60000000000) * ?e ^ 3"
    by (simp only: power3_eq_cube power2_eq_square times_divide_eq_left times_divide_eq_right ac_simps)
  also have "\<dots> \<le> (of_int rpm * of_int ns / 60000000000) * (1 + 1 / 2 ^ 50)"
    using assms by (intro mult_left_mono) (simp_all add: power3_eq_cube)
  finally have "round64 ?m \<le> (of_int rpm * of_int ns / 60000000000) * (1 + 1 / 2 ^ 50)" .
  moreover have "of_int (refill rpm ns) \<le> round64 ?m"
    using round64_nonneg [OF m0] by (simp add: refill_def trunc64_nonneg)
  ultimately show ?thesis by (rule order_trans [rotated])
qed

subsection \<open>Runs\<close>

type_synonym rl_event = "string \<times> instant \<times> instant \<times> instant"

fun rl_run :: "int \<Rightarrow> rl_event list \<Rightarrow> buckets \<Rightarrow> bool list \<times> buckets" where
  "rl_run rpm [] bs = ([], bs)"
| "rl_run rpm ((k, t0, t1, t2) # es) bs =
     (case rl_step rpm k t0 t1 t2 bs of (ok, bs') \<Rightarrow>
        (case rl_run rpm es bs' of (oks, bs'') \<Rightarrow> (ok # oks, bs'')))"

text \<open>The clock does not go back: from \<open>T\<close> on, through the readings of each critical section.\<close>

fun times_ok :: "instant \<Rightarrow> rl_event list \<Rightarrow> bool" where
  "times_ok T [] = True"
| "times_ok T ((k, t0, t1, t2) # es) = (T \<le> t0 \<and> t0 \<le> t1 \<and> t1 \<le> t2 \<and> times_ok t2 es)"

fun rl_end :: "instant \<Rightarrow> rl_event list \<Rightarrow> instant" where
  "rl_end T [] = T"
| "rl_end T ((k, t0, t1, t2) # es) = rl_end t2 es"

fun passed :: "string \<Rightarrow> rl_event list \<Rightarrow> bool list \<Rightarrow> nat" where
  "passed k ((k', ts) # es) (ok # oks) = (if k' = k \<and> ok then 1 else 0) + passed k es oks"
| "passed k _ _ = 0"

definition lasts_le :: "instant \<Rightarrow> buckets \<Rightarrow> bool" where
  "lasts_le T bs \<longleftrightarrow> (\<forall>k b. bs k = Some b \<longrightarrow> b_last b \<le> T)"

lemma rl_end_ge: "times_ok T es \<Longrightarrow> T \<le> rl_end T es"
  by (induction T es rule: rl_end.induct) auto

lemma lasts_le_step:
  assumes "rl_step rpm k t0 t1 t2 bs = (ok, bs')" and "lasts_le T bs" and "T \<le> t2"
  shows "lasts_le t2 bs'"
  unfolding lasts_le_def
proof (intro allI impI)
  fix k' b assume b: "bs' k' = Some b"
  show "b_last b \<le> t2"
  proof (cases "k' = k")
    case True
    then show ?thesis using rl_step_result(3) [OF assms(1), of t2] b by (simp add: last_of_def)
  next
    case False
    then have "b_last b \<le> T" using rl_step_other [OF assms(1) False] b assms(2) by (simp add: lasts_le_def)
    then show ?thesis using assms(3) by simp
  qed
qed

lemma last_of_le: "lasts_le T bs \<Longrightarrow> T \<le> t \<Longrightarrow> last_of k t bs \<le> t"
  by (force simp: last_of_def lasts_le_def split: option.split)

text \<open>The potential argument: what a key may still pass is its level plus the refill of the time left.\<close>

definition rate :: "int \<Rightarrow> rat" where
  "rate rpm = of_int rpm / 60000000000 * (1 + 1 / 2 ^ 50)"

lemma rate_nonneg: "1 \<le> rpm \<Longrightarrow> 0 \<le> rate rpm"
  by (simp add: rate_def)

lemma refill_rate: "0 \<le> ns \<Longrightarrow> 1 \<le> rpm \<Longrightarrow> of_int (refill rpm ns) \<le> rate rpm * of_int ns"
  using refill_upper [of ns rpm]
  by (simp only: rate_def times_divide_eq_left times_divide_eq_right ac_simps)

lemma step_potential:
  assumes s: "rl_step rpm k t0 t1 t2 bs = (ok, bs')" and "lasts_le T bs" "T \<le> t0" "t0 \<le> t1" "t1 \<le> t2" "1 \<le> rpm"
  shows "of_bool ok + of_int (level rpm k bs') \<le> of_int (level rpm k bs) + rate rpm * of_int (t2 - last_of k T bs)"
proof (cases "bs k")
  case None
  have "(if ok then 1 else 0) + level rpm k bs' \<le> level rpm k bs"
    using rl_step_result(2) [OF s] None by (simp add: level_def)
  then have "(of_bool ok + of_int (level rpm k bs') :: rat) \<le> of_int (level rpm k bs)"
    by (cases ok) (simp_all flip: of_int_add add: of_int_le_iff)
  moreover have "0 \<le> rate rpm * of_int (t2 - last_of k T bs)"
    using assms None by (intro mult_nonneg_nonneg rate_nonneg) (simp_all add: last_of_def)
  ultimately show ?thesis by linarith
next
  case (Some b)
  have l: "last_of k t0 bs = last_of k T bs" using Some by (simp add: last_of_def)
  have le: "last_of k T bs \<le> t1" using last_of_le [OF assms(2), of t0 k] l assms(3,4) by simp
  have "(if ok then 1 else 0) + level rpm k bs' \<le> level rpm k bs + refill rpm (t1 - last_of k T bs)"
    using rl_step_result(2) [OF s] l by simp
  then have "(of_bool ok + of_int (level rpm k bs') :: rat) \<le>
      of_int (level rpm k bs) + of_int (refill rpm (t1 - last_of k T bs))"
    by (cases ok) (simp_all flip: of_int_add add: of_int_le_iff)
  moreover have "of_int (refill rpm (t1 - last_of k T bs)) \<le> rate rpm * of_int (t1 - last_of k T bs)"
    using refill_rate [of "t1 - last_of k T bs" rpm] le assms(6) by simp
  moreover have "rate rpm * of_int (t1 - last_of k T bs) \<le> rate rpm * of_int (t2 - last_of k T bs)"
    using assms(5,6) by (intro mult_left_mono rate_nonneg) simp_all
  ultimately show ?thesis by linarith
qed

lemma run_potential:
  assumes "rl_run rpm es bs = (oks, bs')" "times_ok T es" "lasts_le T bs" "buckets_ok rpm bs" "1 \<le> rpm"
  shows "of_nat (passed k es oks) \<le> of_int (level rpm k bs) + rate rpm * of_int (rl_end T es - last_of k T bs)"
  using assms
proof (induction rpm es bs arbitrary: T oks rule: rl_run.induct)
  case (1 rpm bs)
  have "0 \<le> rate rpm * of_int (T - last_of k T bs)"
    using 1 last_of_le [of T bs T k] by (intro mult_nonneg_nonneg rate_nonneg) simp_all
  then show ?case using 1 level_bounds [of rpm bs k] by simp
next
  case (2 rpm k' t0 t1 t2 es bs)
  obtain ok bs1 where s: "rl_step rpm k' t0 t1 t2 bs = (ok, bs1)" by fastforce
  obtain oks' where r: "rl_run rpm es bs1 = (oks', bs')" "oks = ok # oks'"
    using 2(2) s by (auto split: prod.splits)
  have t: "T \<le> t0" "t0 \<le> t1" "t1 \<le> t2" "times_ok t2 es" using 2(3) by simp_all
  have ok1: "buckets_ok rpm bs1"
    using rl_step_ok [OF s 2(5)] last_of_le [OF 2(4) t(1), of k'] t(2) 2(6) by simp
  have IH: "of_nat (passed k es oks') \<le>
      of_int (level rpm k bs1) + rate rpm * of_int (rl_end t2 es - last_of k t2 bs1)"
    using 2(1) [OF s [symmetric] r(1) t(4) lasts_le_step [OF s 2(4)] ok1 2(6)] t by simp
  show ?case
  proof (cases "k' = k")
    case True
    have "last_of k t2 bs1 = t2" using rl_step_result(3) [OF s] True by blast
    then have "of_nat (passed k es oks') \<le> of_int (level rpm k bs1) + rate rpm * of_int (rl_end t2 es - t2)"
      using IH by simp
    moreover have "of_bool ok + of_int (level rpm k bs1) \<le>
        of_int (level rpm k bs) + rate rpm * of_int (t2 - last_of k T bs)"
      using step_potential [OF s [unfolded True] 2(4) t(1-3) 2(6)] .
    moreover have "rate rpm * of_int (rl_end t2 es - t2) + rate rpm * of_int (t2 - last_of k T bs) =
        rate rpm * of_int (rl_end t2 es - last_of k T bs)"
      by (simp only: distrib_left [symmetric] of_int_add [symmetric]) simp
    moreover have "of_nat (passed k ((k', t0, t1, t2) # es) oks) = (of_bool ok + of_nat (passed k es oks') :: rat)"
      using True r(2) by simp
    ultimately show ?thesis by simp
  next
    case False
    have same: "bs1 k = bs k" using rl_step_other [OF s, of k] False by simp
    have "last_of k T bs \<le> last_of k t2 bs1" using same t by (simp add: last_of_def split: option.split)
    then have "rate rpm * of_int (rl_end t2 es - last_of k t2 bs1) \<le> rate rpm * of_int (rl_end t2 es - last_of k T bs)"
      using 2(6) by (intro mult_left_mono rate_nonneg) simp_all
    then show ?thesis using IH False same r(2) by (simp add: level_def)
  qed
qed

subsection \<open>What the limiter guarantees and what it does not\<close>

text \<open>
  C18. The limit: over any run, however the requests of the keys interleave, the requests of one key that
  pass are at most the burst \<open>rpm\<close> plus \<open>rpm\<close> per minute of the run's duration (up to a relative
  rounding error of \<open>2 ^ - 50\<close>).
\<close>

theorem rate_limit_bound:
  assumes "rl_run rpm es (\<lambda>_. None) = (oks, bs')" and "times_ok T es" and "1 \<le> rpm"
  shows "of_nat (passed k es oks) \<le>
    of_int rpm + of_int rpm * of_int (rl_end T es - T) / 60000000000 * (1 + 1 / 2 ^ 50 :: rat)"
proof -
  have "of_nat (passed k es oks) \<le> of_int rpm + rate rpm * of_int (rl_end T es - T)"
    using run_potential [OF assms(1,2), of k] assms(3)
    by (simp add: lasts_le_def buckets_ok_def level_def last_of_def)
  then show ?thesis by (simp only: rate_def times_divide_eq_left times_divide_eq_right ac_simps)
qed

text \<open>Thirteen logins of one client, the thirteenth a minute after the others.\<close>

definition burst :: "rl_event list" where
  "burst = replicate 12 (''10.0.0.1:4711'', 0, 0, 0) @
     [(''10.0.0.1:4711'', 60000000000, 60000000000, 60000000000)]"

lemma burst_run: "fst (rl_run 10 burst (\<lambda>_. None)) = replicate 10 True @ [False, False, True]"
proof -
  have "refill 10 0 = 0" "refill 10 60000000000 = 10" by code_simp+
  then show ?thesis
    by (simp add: burst_def rl_step_def Let_def numeral_eq_Suc)
qed

lemma rate_limit_bound_witness:
  "passed ''10.0.0.1:4711'' burst (fst (rl_run 10 burst (\<lambda>_. None))) = 11 \<and>
   (11 :: rat) \<le> 10 + 10 * (1 + 1 / 2 ^ 50)"
proof -
  let ?r = "rl_run 10 burst (\<lambda>_. None)"
  have t: "times_ok 0 burst" "rl_end 0 burst - 0 = 60000000000" by code_simp+
  have p: "passed ''10.0.0.1:4711'' burst (fst ?r) = 11"
    unfolding burst_run by code_simp
  have "of_nat (passed ''10.0.0.1:4711'' burst (fst ?r)) \<le>
      of_int 10 + of_int 10 * of_int (rl_end 0 burst - 0) / 60000000000 * (1 + 1 / 2 ^ 50 :: rat)"
    by (rule rate_limit_bound [OF surjective_pairing t(1)]) simp
  then show ?thesis unfolding p t(2) by simp
qed

text \<open>
  A client of the login limiter that waits six seconds after its last attempt is served, whatever
  happened before: a limited key is not locked out for good.
\<close>

theorem login_limit_recovers:
  assumes "rl_step 10 k t0 t1 t2 bs = (ok, bs')" and "buckets_ok 10 bs" and "last_of k t0 bs + 6000000000 \<le> t1"
  shows "ok"
  using rl_step_result(1) [OF assms(1)] refill_login_one [of "t1 - last_of k t0 bs"]
    level_bounds [OF assms(2), of k] assms(3) by simp

lemma login_limit_recovers_witness:
  "fst (rl_step 10 ''a'' 6000000000 6000000000 6000000000 [''a'' \<mapsto> \<lparr>b_tokens = 0, b_last = 0\<rparr>])"
  by (rule login_limit_recovers [OF surjective_pairing])
     (simp_all add: buckets_ok_def last_of_def split: if_splits)

fun polls_within :: "int \<Rightarrow> instant \<Rightarrow> rl_event list \<Rightarrow> bool" where
  "polls_within g T [] = True"
| "polls_within g T ((k, t0, t1, t2) # es) = (t1 - T < g \<and> polls_within g t2 es)"

text \<open>
  C35. Starvation: the fraction of a token that has accrued is dropped at every attempt, rejected attempts
  included.  A client that is out of tokens and retries at intervals below six seconds is rejected on
  every attempt, however long it goes on, although one attempt per six seconds is within the limit.
\<close>

theorem login_limit_starves:
  assumes "bs k = Some \<lparr>b_tokens = 0, b_last = T\<rparr>" and "times_ok T es"
    and "polls_within 6000000000 T es" and "list_all (\<lambda>e. fst e = k) es"
  shows "fst (rl_run 10 es bs) = replicate (length es) False"
  using assms
proof (induction es arbitrary: T bs)
  case (Cons e es)
  obtain k' t0 t1 t2 where e: "e = (k', t0, t1, t2)" by (cases e) auto
  have k: "k' = k" using Cons.prems(4) e by simp
  have "refill 10 (t1 - T) = 0"
    using Cons.prems(2,3) e by (intro refill_login_zero) simp_all
  then have s: "rl_step 10 k t0 t1 t2 bs = (False, bs(k \<mapsto> \<lparr>b_tokens = 0, b_last = t2\<rparr>))"
    using Cons.prems(1) by (simp add: rl_step_def)
  have "fst (rl_run 10 es (bs(k \<mapsto> \<lparr>b_tokens = 0, b_last = t2\<rparr>))) = replicate (length es) False"
    using Cons.prems e by (intro Cons.IH [of _ t2]) simp_all
  then show ?case using s by (simp add: e k case_prod_beta)
qed simp

lemma login_limit_starves_witness:
  "fst (rl_run 10 (map (\<lambda>n. (''a'', n, n, n)) [5999999999, 2 * 5999999999, 3 * 5999999999])
     [''a'' \<mapsto> \<lparr>b_tokens = 0, b_last = 0\<rparr>]) = [False, False, False]"
  using login_limit_starves [of "[''a'' \<mapsto> \<lparr>b_tokens = 0, b_last = 0\<rparr>]" "''a''" 0
      "map (\<lambda>n. (''a'', n, n, n)) [5999999999, 2 * 5999999999, 3 * 5999999999]"]
  by (simp add: numeral_3_eq_3)

definition rl_event_of :: "request \<Rightarrow> rl_event" where
  "rl_event_of r = (rl_key r, rq_clock r 0, rq_clock r 1, rq_clock r 2)"

lemma fresh_keys_pass:
  assumes "distinct (map rl_key rs)" and "list_all (\<lambda>r. bs (rl_key r) = None \<and> rq_clock r 0 \<le> rq_clock r 1) rs"
    and "1 \<le> rpm" and "rl_run rpm (map rl_event_of rs) bs = (oks, bs')"
  shows "oks = replicate (length rs) True \<and> dom bs' = dom bs \<union> rl_key ` set rs"
  using assms
proof (induction rs arbitrary: bs oks)
  case (Cons r rs)
  obtain ok bs1 where s: "rl_step rpm (rl_key r) (rq_clock r 0) (rq_clock r 1) (rq_clock r 2) bs = (ok, bs1)"
    by fastforce
  obtain oks' where run: "rl_run rpm (map rl_event_of rs) bs1 = (oks', bs')" "oks = ok # oks'"
    using Cons.prems(4) s by (auto simp: rl_event_of_def [of r] split: prod.splits)
  have "0 \<le> refill rpm (rq_clock r 1 - rq_clock r 0)" using Cons.prems by (intro refill_nonneg) simp_all
  then have ok: "ok" using rl_step_result(1) [OF s] Cons.prems(2,3) by (simp add: level_def last_of_def)
  have "dom bs1 = insert (rl_key r) (dom bs)" using s by (auto simp: rl_step_def Let_def split: if_splits)
  moreover have "list_all (\<lambda>q. bs1 (rl_key q) = None \<and> rq_clock q 0 \<le> rq_clock q 1) rs"
    using Cons.prems(1,2) rl_step_other [OF s] by (auto simp: list_all_iff image_iff)
  then have "oks' = replicate (length rs) True \<and> dom bs' = dom bs1 \<union> rl_key ` set rs"
    using Cons.prems(1,3) run(1) by (intro Cons.IH) simp_all
  ultimately show ?case using ok run(2) by auto
qed simp

text \<open>
  C34. The key is the client's choice: the limiter uses the \<open>X-Token\<close> header also on the login endpoint,
  where nothing validates it.  Requests that each bring a header value of their own all pass, from one
  address and in any number, and each leaves a bucket behind.
\<close>

theorem login_limit_bypassed:
  assumes "distinct (map (\<lambda>r. header_get r ''X-Token'') rs)"
    and "list_all (\<lambda>r. header_get r ''X-Token'' \<noteq> '''' \<and> rq_clock r 0 \<le> rq_clock r 1) rs"
    and "rl_run 10 (map rl_event_of rs) (\<lambda>_. None) = (oks, bs')"
  shows "oks = replicate (length rs) True \<and> card (dom bs') = length rs"
proof -
  have k: "map rl_key rs = map (\<lambda>r. header_get r ''X-Token'') rs"
    using assms(2) by (auto simp: rl_key_def Let_def list_all_iff)
  have d: "distinct (map rl_key rs)" using assms(1) by (simp only: k)
  have "list_all (\<lambda>r. (\<lambda>_. None) (rl_key r) = (None :: bucket option) \<and> rq_clock r 0 \<le> rq_clock r 1) rs"
    using assms(2) by (simp add: list_all_iff)
  from fresh_keys_pass [OF d this _ assms(3)]
  have "oks = replicate (length rs) True" "dom bs' = set (map rl_key rs)" by simp_all
  then show ?thesis using distinct_card [OF d] by simp
qed

lemma login_limit_bypassed_witness:
  "fst (rl_run 10 (map rl_event_of (map (\<lambda>t. sample_request t '''') [''t1'', ''t2'', ''t3''])) (\<lambda>_. None)) =
     [True, True, True]"
proof -
  let ?rs = "map (\<lambda>t. sample_request t '''') [''t1'', ''t2'', ''t3'']"
  have "distinct (map (\<lambda>r. header_get r ''X-Token'') ?rs)"
    "list_all (\<lambda>r. header_get r ''X-Token'' \<noteq> '''' \<and> rq_clock r 0 \<le> rq_clock r 1) ?rs"
    by code_simp+
  from login_limit_bypassed [OF this surjective_pairing] show ?thesis by (simp add: numeral_3_eq_3)
qed

text \<open>
  The middleware around a handler: the handler runs if and only if the key's bucket has a token, and
  a request that is turned away is answered with 429 and changes nothing but the buckets.
\<close>

theorem RateLimit_gate:
  assumes "w_sent w = None" and "buckets_ok rpm (get s)" and "0 \<le> rpm"
    and "last_of (rl_key r) (rq_clock r 0) (get s) \<le> rq_clock r 1"
  shows "let free = min rpm (level rpm (rl_key r) (get s)
             + refill rpm (rq_clock r 1 - last_of (rl_key r) (rq_clock r 0) (get s)));
           bs = snd (rl_step rpm (rl_key r) (rq_clock r 0) (rq_clock r 1) (rq_clock r 2) (get s));
           res = RateLimit rpm get put next r w s
       in buckets_ok rpm bs \<and>
          (if 0 < free then res = next r w (put bs s)
           else status (fst res) = 429 \<and> snd res = put bs s)"
proof -
  obtain ok bs where s: "rl_step rpm (rl_key r) (rq_clock r 0) (rq_clock r 1) (rq_clock r 2) (get s) = (ok, bs)"
    by fastforce
  show ?thesis
    using rl_step_result(1) [OF s] rl_step_ok [OF s assms(2-4)] assms(1)
    by (simp del: One_nat_def add: RateLimit_def s Let_def writeError_fresh)
qed

lemma RateLimit_gate_witness:
  "status (fst (RateLimit 10 fst (\<lambda>b s. (b, snd s)) (\<lambda>r w s. (write_header 200 w, s))
     (sample_request ''t'' '''') new_writer ([''t'' \<mapsto> \<lparr>b_tokens = 0, b_last = 0\<rparr>], ()))) = 429"
proof -
  let ?s = "([''t'' \<mapsto> \<lparr>b_tokens = 0, b_last = 0 :: instant\<rparr>], ())" and ?r = "sample_request ''t'' ''''"
  have k: "rl_key ?r = ''t''" "rq_clock ?r 0 = 0" "rq_clock ?r 1 = 0" "rq_clock ?r 2 = 0" "w_sent new_writer = None"
    by code_simp+
  have h: "buckets_ok 10 (fst ?s)" "last_of (rl_key ?r) (rq_clock ?r 0) (fst ?s) \<le> rq_clock ?r 1"
    by (auto simp: buckets_ok_def last_of_def k sample_request_def split: if_splits)
  have "level 10 ''t'' (fst ?s) = 0" "last_of ''t'' 0 (fst ?s) = 0" "refill 10 0 = 0"
    by (simp_all add: level_def last_of_def refill_def minutes_def trunc64_def)
  with RateLimit_gate [of new_writer 10 fst ?s ?r "\<lambda>b s. (b, snd s)" "\<lambda>r w s. (write_header 200 w, s)",
      OF k(5) h(1) _ h(2)] k
  show ?thesis by (simp add: Let_def)
qed

end
