(* ===== verification/Config.thy ===== *)
theory Config
  imports Go_Strings
begin

text \<open>
  \<open>internal/config/config.go\<close>: the configuration is read from environment variables and validated.
  The environment is a function from names to values, with the empty string for an unset variable,
  as \<open>os.Getenv\<close> returns it.  \<open>load\<close> reproduces \<open>Load\<close> statement by statement on a \<open>Config\<close>
  record that starts from the defaults; the loop over the trusted proxies is a filter over the split list.
\<close>

record Config =
  AdminUsername :: string
  AdminPassword :: string
  DBDriver :: string
  DBDSN :: string
  Port :: string
  JWTSecret :: string
  GeoIPDBPath :: string
  LogLevel :: string
  TrustedProxies :: "string list"
  DomainName :: string

datatype config_error =
    InvalidPort string
  | AdminUsernameRequired
  | AdminPasswordRequired
  | JWTSecretRequired
  | JWTSecretTooShort
  | BadDriver string

type_synonym environment = "string \<Rightarrow> string"

text \<open>\<open>if v := os.Getenv(name); v != "" { cfg.F = f(v) }\<close>, for a field whose value before is \<open>dflt\<close>.\<close>

definition env_or :: "environment \<Rightarrow> string \<Rightarrow> (string \<Rightarrow> 'a) \<Rightarrow> 'a \<Rightarrow> 'a" where
  "env_or env name f dflt = (if env name = '''' then dflt else f (env name))"

definition parse_proxies :: "string \<Rightarrow> string list" where
  "parse_proxies v = filter (\<lambda>t. t \<noteq> '''') (map trim_space (split_on (CHR '','') v))"

definition validate :: "Config \<Rightarrow> config_error option" where
  "validate c =
     (if AdminUsername c = '''' then Some AdminUsernameRequired
      else if AdminPassword c = '''' then Some AdminPasswordRequired
      else if JWTSecret c = '''' then Some JWTSecretRequired
      else if length (JWTSecret c) < 32 then Some JWTSecretTooShort
      else if DBDriver c \<noteq> ''sqlite'' \<and> DBDriver c \<noteq> ''postgres'' then Some (BadDriver (DBDriver c))
      else None)"

text \<open>
  The fields are set independently of each other, so the record is written at once; the early return
  for a malformed port comes before validation, as in the code.
\<close>

definition load :: "(string \<Rightarrow> string) \<Rightarrow> environment \<Rightarrow> (config_error, Config) result" where
  "load utf8_lower env =
     (if env ''OXIMETRIC_PORT'' \<noteq> '''' \<and> atoi (env ''OXIMETRIC_PORT'') = None
      then Inl (InvalidPort (env ''OXIMETRIC_PORT''))
      else
        let cfg =
          \<lparr>AdminUsername = env_or env ''OXIMETRIC_ADMIN_USERNAME'' (\<lambda>v. v) '''',
           AdminPassword = env_or env ''OXIMETRIC_ADMIN_PASSWORD'' (\<lambda>v. v) '''',
           DBDriver = env_or env ''OXIMETRIC_DB_DRIVER'' (to_lower utf8_lower) ''sqlite'',
           DBDSN = env_or env ''OXIMETRIC_DB_DSN'' (\<lambda>v. v) ''./oximetric.db'',
           Port = env_or env ''OXIMETRIC_PORT'' (\<lambda>v. v) ''6940'',
           JWTSecret = env_or env ''OXIMETRIC_JWT_SECRET'' (\<lambda>v. v) '''',
           GeoIPDBPath = env_or env ''OXIMETRIC_GEOIP_DB_PATH'' (\<lambda>v. v) ''./data/dbip-city-lite.mmdb'',
           LogLevel = env_or env ''OXIMETRIC_LOG_LEVEL'' (to_lower utf8_lower) ''info'',
           TrustedProxies = env_or env ''OXIMETRIC_TRUSTED_PROXIES'' parse_proxies [],
           DomainName = env_or env ''OXIMETRIC_DOMAIN_NAME'' (\<lambda>v. v) ''''\<rparr>
        in (case validate cfg of Some e \<Rightarrow> Inl e | None \<Rightarrow> Inr cfg))"

subsection \<open>What validation guarantees\<close>

lemma validate_None_iff:
  "validate c = None \<longleftrightarrow>
     AdminUsername c \<noteq> '''' \<and> AdminPassword c \<noteq> '''' \<and> 32 \<le> length (JWTSecret c)
     \<and> DBDriver c \<in> {''sqlite'', ''postgres''}"
  by (auto simp: validate_def)

lemma parse_proxies_clean:
  "p \<in> set (parse_proxies v) \<Longrightarrow> p \<noteq> '''' \<and> trim_space p = p \<and> CHR '','' \<notin> set p"
  unfolding parse_proxies_def using split_on_no_sep trim_space_subset by fastforce

lemma load_Inr:
  assumes "load lw env = Inr c"
  shows "validate c = None"
    and "Port c = env_or env ''OXIMETRIC_PORT'' (\<lambda>v. v) ''6940''"
    and "env ''OXIMETRIC_PORT'' = '''' \<or> atoi (env ''OXIMETRIC_PORT'') \<noteq> None"
    and "TrustedProxies c = env_or env ''OXIMETRIC_TRUSTED_PROXIES'' parse_proxies []"
  using assms by (auto simp: load_def Let_def split: if_splits option.splits)

lemma atoi_default_port: "atoi ''6940'' = Some 6940"
  by (simp add: atoi_def dec_value_def is_digit_def byte_def)


definition sample_env :: environment where
  "sample_env name =
     (if name = ''OXIMETRIC_ADMIN_USERNAME'' then ''admin''
      else if name = ''OXIMETRIC_ADMIN_PASSWORD'' then ''x''
      else if name = ''OXIMETRIC_JWT_SECRET'' then replicate 32 (CHR ''k'')
      else if name = ''OXIMETRIC_PORT'' then ''-5''
      else if name = ''OXIMETRIC_TRUSTED_PROXIES'' then '' 10.0.0.1, ,10.0.0.2''
      else [])"

lemma load_sample:
  "load id sample_env = Inr
     \<lparr>AdminUsername = ''admin'', AdminPassword = ''x'', DBDriver = ''sqlite'', DBDSN = ''./oximetric.db'',
      Port = ''-5'', JWTSecret = replicate 32 (CHR ''k''), GeoIPDBPath = ''./data/dbip-city-lite.mmdb'',
      LogLevel = ''info'', TrustedProxies = [''10.0.0.1'', ''10.0.0.2''], DomainName = []\<rparr>"
  by code_simp


text \<open>
  Validation does not look at the strength of the admin password or the range of the port: a
  one-character password and a negative port are accepted.
\<close>

theorem load_accepts_weak_settings:
  "map_sum id (\<lambda>c. (length (AdminPassword c), atoi (Port c))) (load id sample_env) = Inr (1, Some (- 5))"
  by code_simp

end
