(* ===== verification/Mux.thy ===== *)
theory Mux
  imports Http
begin

text \<open>
  What the program uses of \<open>net/http.ServeMux\<close> (Go 1.22 and later): patterns with an optional method,
  literal and wildcard segments, the trailing slash for a subtree and the marker for a path that ends
  there; redirects to the cleaned path and to the path with a trailing slash; 404 and 405.  The mux
  prefers the more specific of two patterns; here the routes are listed with the more specific first,
  which \<open>routes_ordered\<close> checks, and the first match counts.  The target of a redirect is not modelled.
\<close>

subsection \<open>Patterns\<close>

datatype segment = Lit string | Wild string

record pattern =
  pt_method :: "string option"
  pt_segments :: "segment list"
  pt_subtree :: bool

definition segment_of :: "string \<Rightarrow> segment" where
  "segment_of s =
     (if s = ''{$}'' then Lit ''''
      else if has_prefix s ''{'' then Wild (butlast (tl s)) else Lit s)"

definition pattern_of :: "string \<Rightarrow> pattern" where
  "pattern_of text =
     (let m = takeWhile (\<lambda>c. c \<noteq> CHR '' '') text;
          path = (if m = text then text else drop (length m + 1) text);
          segs = split_on (CHR ''/'') (tl path)
      in \<lparr>pt_method = (if m = text then None else Some m),
          pt_segments = map segment_of (if last segs = '''' then butlast segs else segs),
          pt_subtree = (last segs = '''')\<rparr>)"

subsection \<open>Matching\<close>

text \<open>The values the wildcards take, when the path matches; a wildcard takes a segment that is not empty.\<close>

fun match_segments :: "segment list \<Rightarrow> bool \<Rightarrow> string list \<Rightarrow> (string \<times> string) list option" where
  "match_segments [] sub ss = (if sub = (ss \<noteq> []) then Some [] else None)"
| "match_segments (p # ps) sub [] = None"
| "match_segments (Lit t # ps) sub (s # ss) = (if s = t then match_segments ps sub ss else None)"
| "match_segments (Wild x # ps) sub (s # ss) =
     (if s = '''' then None else map_option (Cons (x, s)) (match_segments ps sub ss))"

definition method_matches :: "string option \<Rightarrow> string \<Rightarrow> bool" where
  "method_matches pm m = (case pm of None \<Rightarrow> True | Some pm \<Rightarrow> m = pm \<or> pm = ''GET'' \<and> m = ''HEAD'')"

definition match_pattern :: "pattern \<Rightarrow> string \<Rightarrow> string list \<Rightarrow> (string \<times> string) list option" where
  "match_pattern p m ss =
     (if method_matches (pt_method p) m then match_segments (pt_segments p) (pt_subtree p) ss else None)"

fun find_route :: "(pattern \<times> 'h) list \<Rightarrow> string \<Rightarrow> string list \<Rightarrow> (pattern \<times> 'h \<times> (string \<times> string) list) option" where
  "find_route [] m ss = None"
| "find_route ((p, h) # routes) m ss =
     (case match_pattern p m ss of Some vals \<Rightarrow> Some (p, h, vals) | None \<Rightarrow> find_route routes m ss)"

text \<open>A match is exact when it does not rest on the trailing slash of a pattern standing for a longer path.\<close>

definition exact_match :: "(pattern \<times> 'h \<times> (string \<times> string) list) option \<Rightarrow> string list \<Rightarrow> bool" where
  "exact_match m ss =
     (case m of
        None \<Rightarrow> False
      | Some (p, _) \<Rightarrow> \<not> pt_subtree p \<or> last ss = '''' \<and> length ss = length (pt_segments p) + 1)"

definition slash_redirect :: "(pattern \<times> 'h) list \<Rightarrow> string \<Rightarrow> string list \<Rightarrow> bool" where
  "slash_redirect routes m ss \<longleftrightarrow>
     \<not> exact_match (find_route routes m ss) ss \<and> last ss \<noteq> '''' \<and>
     exact_match (find_route routes m (ss @ [''''])) (ss @ [''''])"

definition matching_methods :: "(pattern \<times> 'h) list \<Rightarrow> string list \<Rightarrow> string list" where
  "matching_methods routes ss =
     List.map_filter (\<lambda>(p, _). case match_segments (pt_segments p) (pt_subtree p) ss of
        None \<Rightarrow> None | Some _ \<Rightarrow> pt_method p) routes"

subsection \<open>The handler\<close>

definition http_error :: "int \<Rightarrow> string \<Rightarrow> writer \<Rightarrow> writer" where
  "http_error n msg w =
     encode_reply (TextReply msg) (write_header n
       (set_header ''X-Content-Type-Options'' ''nosniff''
       (set_header ''Content-Type'' ''text/plain; charset=utf-8'' w)))"

definition redirect :: "int \<Rightarrow> writer \<Rightarrow> writer" where
  "redirect n w = write_header n w"

definition ServeMux :: "(pattern \<times> 's handler) list \<Rightarrow> 's handler" where
  "ServeMux routes r w s =
     (let m = rq_method r; ss = rq_segments r
      in if slash_redirect routes m ss then (redirect 301 w, s)
         else if m \<noteq> ''CONNECT'' \<and> \<not> rq_canonical r then (redirect 301 w, s)
         else
           (case find_route routes m ss of
              Some (_, h, vals) \<Rightarrow> h (r\<lparr>rq_path_values := vals\<rparr>) w s
            | None \<Rightarrow>
                if matching_methods routes ss \<noteq> [] then (http_error 405 ''Method Not Allowed'' w, s)
                else (http_error 404 ''404 page not found'' w, s)))"

subsection \<open>Precedence\<close>

text \<open>Every path of \<open>q\<close> is one of \<open>p\<close>, and likewise for the methods.\<close>

fun segments_cover :: "segment list \<Rightarrow> bool \<Rightarrow> segment list \<Rightarrow> bool \<Rightarrow> bool" where
  "segments_cover [] sub qs qsub = (if sub then qs \<noteq> [] \<or> qsub else qs = [] \<and> \<not> qsub)"
| "segments_cover (p # ps) sub [] qsub = False"
| "segments_cover (Lit t # ps) sub (q # qs) qsub = (q = Lit t \<and> segments_cover ps sub qs qsub)"
| "segments_cover (Wild x # ps) sub (q # qs) qsub = (q \<noteq> Lit '''' \<and> segments_cover ps sub qs qsub)"

definition pattern_covers :: "pattern \<Rightarrow> pattern \<Rightarrow> bool" where
  "pattern_covers p q \<longleftrightarrow>
     (pt_method p = None \<or> pt_method p = pt_method q) \<and>
     segments_cover (pt_segments p) (pt_subtree p) (pt_segments q) (pt_subtree q)"

text \<open>No pattern hides a later one; so the first match is the most specific one.\<close>

definition routes_ordered :: "pattern list \<Rightarrow> bool" where
  "routes_ordered ps \<longleftrightarrow> sorted_wrt (\<lambda>p q. \<not> pattern_covers p q) ps"

lemma segments_cover_sound:
  "segments_cover ps sub qs qsub \<Longrightarrow> match_segments qs qsub ss \<noteq> None \<Longrightarrow> match_segments ps sub ss \<noteq> None"
proof (induction ps sub qs qsub arbitrary: ss rule: segments_cover.induct)
  case (1 sub qs qsub)
  then show ?case by (cases qs; cases ss) (auto split: if_splits)
next
  case (3 t ps sub q qs qsub)
  then show ?case by (cases ss) (auto split: if_splits)
next
  case (4 x ps sub q qs qsub)
  then show ?case by (cases ss; cases q) (auto split: if_splits)
qed simp

lemma find_route_Some:
  "find_route routes m ss = Some (p, h, vals) \<Longrightarrow> (p, h) \<in> set routes \<and> match_pattern p m ss = Some vals"
  by (induction routes m ss rule: find_route.induct) (auto split: option.splits)

lemma find_route_first:
  "find_route routes m ss = Some (p, h, vals) \<Longrightarrow>
    \<exists>before after. routes = before @ (p, h) # after \<and> match_pattern p m ss = Some vals \<and>
       (\<forall>x \<in> set before. match_pattern (fst x) m ss = None)"
proof (induction routes)
  case (Cons x routes)
  obtain q g where x: "x = (q, g)" by (cases x)
  show ?case
  proof (cases "match_pattern q m ss")
    case None
    then obtain before after where "routes = before @ (p, h) # after" "match_pattern p m ss = Some vals"
      "\<forall>x \<in> set before. match_pattern (fst x) m ss = None"
      using Cons x by auto
    then show ?thesis using None x by (intro exI [of _ "x # before"] exI [of _ after]) simp
  next
    case (Some v)
    then show ?thesis using x Cons.prems by (intro exI [of _ "[]"] exI [of _ routes]) simp
  qed
qed simp

lemma pattern_covers_sound:
  assumes "pattern_covers p q" and "match_pattern q m ss = Some v"
  shows "\<exists>v'. match_pattern p m ss = Some v'"
proof -
  have "method_matches (pt_method q) m" and q: "match_segments (pt_segments q) (pt_subtree q) ss = Some v"
    using assms(2) by (auto simp: match_pattern_def split: if_splits)
  then have "method_matches (pt_method p) m"
    using assms(1) by (auto simp: pattern_covers_def method_matches_def)
  moreover have "match_segments (pt_segments p) (pt_subtree p) ss \<noteq> None"
    using segments_cover_sound q assms(1) unfolding pattern_covers_def by blast
  ultimately show ?thesis by (auto simp: match_pattern_def)
qed

text \<open>In an ordered table a match is not undercut: no route that also matches is covered by the one chosen.\<close>

lemma find_route_most_specific:
  assumes "routes_ordered (map fst routes)" and "find_route routes m ss = Some (p, h, vals)"
    and "(q, g) \<in> set routes" and "match_pattern q m ss \<noteq> None" and "pattern_covers p q"
  shows "(q, g) = (p, h) \<or> q = p"
proof -
  obtain before after where r: "routes = before @ (p, h) # after"
    and b: "\<forall>x \<in> set before. match_pattern (fst x) m ss = None"
    using find_route_first [OF assms(2)] by blast
  have "(q, g) \<notin> set before" using b assms(4) by force
  moreover have "(q, g) \<notin> set after"
    using assms(1,5) r by (auto simp: routes_ordered_def sorted_wrt_append)
  ultimately show ?thesis using assms(3) r by auto
qed

end
