(* ===== verification/Console_Handler.thy ===== *)
theory Console_Handler
  imports Mux
begin

text \<open>
  \<open>internal/handler/console.go\<close>: the pages of the console.  The embedded files, \<open>html/template\<close> (parsing
  gives a function from the data of an execution to the text written, or an error) and
  \<open>http.FileServer\<close> on the static files are parameters.
\<close>

record pageData =
  pg_title :: string
  pg_content :: string
  pg_scripts :: string
  pg_hide_controls :: bool

datatype template_data = NoData | PageData pageData | DomainData string

type_synonym template_text = "template_data \<Rightarrow> string"

record ConsoleHandler =
  ch_login_tmpl :: template_text
  ch_layout_tmpl :: template_text
  ch_pages :: "(string \<times> pageData) list"
  ch_static :: "request \<Rightarrow> writer \<Rightarrow> writer"
  ch_robots :: string
  ch_domain :: string

datatype start_error = MissingFile string | BadTemplate string

definition mustRead :: "(string \<Rightarrow> string option) \<Rightarrow> string \<Rightarrow> (start_error, string) result" where
  "mustRead files name = (case files name of None \<Rightarrow> Inl (MissingFile name) | Some text \<Rightarrow> Inr text)"

definition html_escape :: "string \<Rightarrow> string" where
  "html_escape s = concat (map (\<lambda>c.
     if c = CHR 0x00 then [CHR 0xEF, CHR 0xBF, CHR 0xBD]
     else if c = CHR 0x22 then ''&#34;''
     else if c = CHR 0x27 then ''&#39;''
     else if c = CHR ''&'' then ''&amp;''
     else if c = CHR ''<'' then ''&lt;''
     else if c = CHR ''>'' then ''&gt;''
     else [c]) s)"

definition scriptTag :: "string \<Rightarrow> string" where
  "scriptTag path = ''<script src='' @ CHR 0x22 # html_escape path @ CHR 0x22 # ''></script>''"

text \<open>Path, title, template, script and whether the controls are hidden, in the order of the map literal.\<close>

definition page_table :: "(string \<times> string \<times> string \<times> string \<times> bool) list" where
  "page_table =
     [(''/dashboard'', ''Dashboard'', ''templates/dashboard.html'', ''/static/js/dashboard.js'', False),
      (''/events'', ''Events'', ''templates/events.html'', ''/static/js/events.js'', False),
      (''/devices'', ''Devices'', ''templates/devices.html'', ''/static/js/devices.js'', False),
      (''/geo'', ''Geography'', ''templates/geo.html'', ''/static/js/geo.js'', False),
      (''/users-analytics'', ''Users'', ''templates/users-analytics.html'', ''/static/js/users-analytics.js'', False),
      (''/projects'', ''Projects'', ''templates/projects.html'', ''/static/js/projects.js'', True),
      (''/console-users'', ''Console Users'', ''templates/console-users.html'', ''/static/js/console-users.js'', True),
      (''/account'', ''Account'', ''templates/account.html'', ''/static/js/account.js'', True),
      (''/about'', ''About'', ''templates/about.html'', ''/static/js/about.js'', True)]"

fun read_pages :: "(string \<Rightarrow> string option) \<Rightarrow> (string \<times> string \<times> string \<times> string \<times> bool) list
    \<Rightarrow> (start_error, (string \<times> pageData) list) result" where
  "read_pages files [] = Inr []"
| "read_pages files ((path, title, file, script, hide) # rest) =
     (case mustRead files file of
        Inl e \<Rightarrow> Inl e
      | Inr content \<Rightarrow>
          map_sum id (Cons (path, \<lparr>pg_title = title, pg_content = content, pg_scripts = scriptTag script,
            pg_hide_controls = hide\<rparr>)) (read_pages files rest))"

definition parse_file ::
  "(string \<Rightarrow> template_text option) \<Rightarrow> (string \<Rightarrow> string option) \<Rightarrow> string \<Rightarrow> (start_error, template_text) result" where
  "parse_file parse files name =
     (case mustRead files name of
        Inl e \<Rightarrow> Inl e
      | Inr text \<Rightarrow> (case parse text of None \<Rightarrow> Inl (BadTemplate name) | Some t \<Rightarrow> Inr t))"

definition NewConsoleHandler ::
  "(string \<Rightarrow> template_text option) \<Rightarrow> (string \<Rightarrow> string option) \<Rightarrow> (request \<Rightarrow> writer \<Rightarrow> writer)
    \<Rightarrow> string \<Rightarrow> (start_error, ConsoleHandler) result" where
  "NewConsoleHandler parse files static domain0 =
     (case parse_file parse files ''templates/login.html'' of
        Inl e \<Rightarrow> Inl e
      | Inr loginTmpl \<Rightarrow>
        (case parse_file parse files ''templates/layout.html'' of
           Inl e \<Rightarrow> Inl e
         | Inr layoutTmpl \<Rightarrow>
           (case parse_file parse files ''templates/help.html'' of
              Inl e \<Rightarrow> Inl e
            | Inr helpTmpl \<Rightarrow>
              (let robots = (case files ''robots.txt'' of None \<Rightarrow> '''' | Some t \<Rightarrow> t);
                   domain = (if domain0 = '''' then ''http://localhost:6940'' else domain0)
               in case read_pages files page_table of
                    Inl e \<Rightarrow> Inl e
                  | Inr pages \<Rightarrow>
                      Inr \<lparr>ch_login_tmpl = loginTmpl, ch_layout_tmpl = layoutTmpl,
                           ch_pages = pages @ [(''/help'', \<lparr>pg_title = ''Help'',
                              pg_content = helpTmpl (DomainData domain),
                              pg_scripts = scriptTag ''/static/js/help.js'', pg_hide_controls = True\<rparr>)],
                           ch_static = static, ch_robots = robots, ch_domain = domain\<rparr>))))"

subsection \<open>The handlers\<close>

definition noIndex :: "writer \<Rightarrow> writer" where
  "noIndex w = set_header ''X-Robots-Tag'' ''noindex, nofollow'' w"

definition Console_Login :: "ConsoleHandler \<Rightarrow> 's handler" where
  "Console_Login h r w s =
     (encode_reply (TextReply (ch_login_tmpl h NoData))
       (set_header ''Content-Type'' ''text/html; charset=utf-8'' (noIndex w)), s)"

definition Page :: "ConsoleHandler \<Rightarrow> 's handler" where
  "Page h r w s =
     (case map_of (ch_pages h) (rq_path r) of
        None \<Rightarrow> (redirect 302 w, s)
      | Some page \<Rightarrow>
          (encode_reply (TextReply (ch_layout_tmpl h (PageData page)))
            (set_header ''Content-Type'' ''text/html; charset=utf-8'' (noIndex w)), s))"

definition Static :: "ConsoleHandler \<Rightarrow> 's handler" where
  "Static h r w s =
     (let w1 = (if has_suffix (rq_path r) ''.css'' then set_header ''Content-Type'' ''text/css; charset=utf-8'' w
                else if has_suffix (rq_path r) ''.js''
                then set_header ''Content-Type'' ''application/javascript; charset=utf-8'' w
                else w)
      in (ch_static h r w1, s))"

definition RobotsTxt :: "ConsoleHandler \<Rightarrow> 's handler" where
  "RobotsTxt h r w s =
     (encode_reply (TextReply (ch_robots h)) (set_header ''Content-Type'' ''text/plain; charset=utf-8'' w), s)"

lemma read_pages_keys: "read_pages files t = Inr pages \<Longrightarrow> map fst pages = map fst t"
proof (induction t arbitrary: pages)
  case (Cons x t)
  then show ?case
    by (cases x; cases "read_pages files t") (auto split: sum.splits)
qed simp

lemma console_pages:
  "NewConsoleHandler parse files static domain = Inr h \<Longrightarrow>
     map fst (ch_pages h) = map fst page_table @ [''/help'']"
  by (auto simp: NewConsoleHandler_def Let_def split: sum.splits dest: read_pages_keys)

end
