(* ===== verification/Server.thy ===== *)
theory Server
  imports Frames Rate_Limit Config Console_Handler
begin

text \<open>
  \<open>internal/server/server.go\<close>: the routes, who wraps what, and the state of the whole server: the store's,
  the trackers of the login handler, the buckets of the two rate limiters and the log of requests.  The
  middlewares and handlers of the other theories are put together as \<open>New\<close> does.
\<close>

subsection \<open>The server's state\<close>

record 's server =
  sv_store :: 's
  sv_totp :: trackers
  sv_track_buckets :: buckets
  sv_login_buckets :: buckets
  sv_log :: "(string \<times> string \<times> int) list"

definition lift_op :: "('a, 's) op \<Rightarrow> ('a, 's server) op" where
  "lift_op f S = (case f (sv_store S) of (r, s') \<Rightarrow> (r, S\<lparr>sv_store := s'\<rparr>))"

definition lift_store :: "'s Store \<Rightarrow> 's server Store" where
  "lift_store st =
     \<lparr>Close = lift_op (Close st), Ping = lift_op (Ping st),
      CreateConsoleUser = (\<lambda>x. lift_op (CreateConsoleUser st x)),
      GetConsoleUserByID = (\<lambda>x. lift_op (GetConsoleUserByID st x)),
      GetConsoleUserByLogin = (\<lambda>x. lift_op (GetConsoleUserByLogin st x)),
      UpdateConsoleUser = (\<lambda>x. lift_op (UpdateConsoleUser st x)),
      DeleteConsoleUser = (\<lambda>x. lift_op (DeleteConsoleUser st x)),
      ListConsoleUsers = lift_op (ListConsoleUsers st),
      CreateProject = (\<lambda>x. lift_op (CreateProject st x)),
      GetProject = (\<lambda>x. lift_op (GetProject st x)),
      UpdateProject = (\<lambda>x. lift_op (UpdateProject st x)),
      DeleteProject = (\<lambda>x. lift_op (DeleteProject st x)),
      ListProjects = lift_op (ListProjects st),
      CreateProjectToken = (\<lambda>x. lift_op (CreateProjectToken st x)),
      GetProjectTokenByToken = (\<lambda>x. lift_op (GetProjectTokenByToken st x)),
      ListProjectTokens = (\<lambda>x. lift_op (ListProjectTokens st x)),
      UpdateProjectToken = (\<lambda>x. lift_op (UpdateProjectToken st x)),
      DeleteProjectToken = (\<lambda>x. lift_op (DeleteProjectToken st x)),
      UpsertDevice = (\<lambda>x. lift_op (UpsertDevice st x)),
      GetDevice = (\<lambda>x. lift_op (GetDevice st x)),
      LinkDeviceToUser = (\<lambda>x y. lift_op (LinkDeviceToUser st x y)),
      GetOrCreateAppUser = (\<lambda>x y. lift_op (GetOrCreateAppUser st x y)),
      InsertEvent = (\<lambda>x. lift_op (InsertEvent st x)),
      InsertEventProperties = (\<lambda>x. lift_op (InsertEventProperties st x)),
      GetDeviceUserID = (\<lambda>x. lift_op (GetDeviceUserID st x)),
      CleanupEvents = (\<lambda>x y. lift_op (CleanupEvents st x y)),
      GetOverview = (\<lambda>x y z. lift_op (GetOverview st x y z)),
      GetEventsAnalytics = (\<lambda>x y z a b c. lift_op (GetEventsAnalytics st x y z a b c)),
      GetEventProperties = (\<lambda>x y z a b c. lift_op (GetEventProperties st x y z a b c)),
      GetDevicesAnalytics = (\<lambda>x y z. lift_op (GetDevicesAnalytics st x y z)),
      GetGeoAnalytics = (\<lambda>x y z a b. lift_op (GetGeoAnalytics st x y z a b)),
      GetUsersAnalytics = (\<lambda>x y z a. lift_op (GetUsersAnalytics st x y z a)),
      GetRetentionAnalytics = (\<lambda>x y z. lift_op (GetRetentionAnalytics st x y z)),
      GetProjectsWithRetention = lift_op (GetProjectsWithRetention st)\<rparr>"

definition on_store :: "'s handler \<Rightarrow> 's server handler" where
  "on_store h r w S = (case h r w (sv_store S) of (w', s') \<Rightarrow> (w', S\<lparr>sv_store := s'\<rparr>))"

definition on_login :: "(trackers \<times> 's) handler \<Rightarrow> 's server handler" where
  "on_login h r w S =
     (case h r w (sv_totp S, sv_store S) of (w', (att, s')) \<Rightarrow> (w', S\<lparr>sv_totp := att, sv_store := s'\<rparr>))"

text \<open>The clock goes on between a middleware that reads it \<open>n\<close> times and what it wraps.\<close>

definition later :: "nat \<Rightarrow> 's handler \<Rightarrow> 's handler" where
  "later n h r = h (r\<lparr>rq_clock := \<lambda>k. rq_clock r (n + k)\<rparr>)"

subsection \<open>What New is given\<close>

text \<open>
  \<open>ap_geo\<close> is the resolver's lookup, if there is a resolver; \<open>ap_console\<close> the console handler, or the
  template error that makes \<open>New\<close> leave the pages out (a missing file panics before anything is served).
\<close>

record 's app =
  ap_store :: "'s Store"
  ap_svc :: Service
  ap_lib :: auth_lib
  ap_geo :: "(string \<Rightarrow> Location) option"
  ap_cfg :: Config
  ap_version :: string
  ap_console :: "(start_error, ConsoleHandler) result"

definition auth_handler :: "'s app \<Rightarrow> 's AuthHandler" where
  "auth_handler a = \<lparr>ah_store = ap_store a, ah_svc = ap_svc a, ah_lib = ap_lib a\<rparr>"

definition projects_handler :: "'s app \<Rightarrow> 's ProjectsHandler" where
  "projects_handler a = \<lparr>ph_store = ap_store a, ph_lib = ap_lib a\<rparr>"

definition users_handler :: "'s app \<Rightarrow> 's UsersHandler" where
  "users_handler a = \<lparr>uh_store = ap_store a, uh_lib = ap_lib a\<rparr>"

definition analytics_handler :: "'s app \<Rightarrow> 's AnalyticsHandler" where
  "analytics_handler a = \<lparr>an_store = ap_store a\<rparr>"

definition health_handler :: "'s app \<Rightarrow> 's HealthHandler" where
  "health_handler a = \<lparr>hh_store = ap_store a, hh_geoip = (ap_geo a \<noteq> None), hh_version = ap_version a\<rparr>"

definition tracking_handler :: "'s app \<Rightarrow> 's TrackingHandler" where
  "tracking_handler a = NewTrackingHandler (ap_store a) (ap_geo a) (TrustedProxies (ap_cfg a))"

subsection \<open>The routes\<close>

definition console_routes :: "ConsoleHandler \<Rightarrow> (pattern \<times> 's server handler) list" where
  "console_routes c =
     [(pattern_of ''GET /robots.txt'', RobotsTxt c),
      (pattern_of ''GET /{$}'', Console_Login c),
      (pattern_of ''GET /dashboard'', Page c),
      (pattern_of ''GET /events'', Page c),
      (pattern_of ''GET /devices'', Page c),
      (pattern_of ''GET /geo'', Page c),
      (pattern_of ''GET /users-analytics'', Page c),
      (pattern_of ''GET /projects'', Page c),
      (pattern_of ''GET /console-users'', Page c),
      (pattern_of ''GET /account'', Page c),
      (pattern_of ''GET /help'', Page c),
      (pattern_of ''GET /about'', Page c),
      (pattern_of ''GET /static/'', Static c)]"

definition tracking_routes :: "'s app \<Rightarrow> runtime \<Rightarrow> (pattern \<times> 's server handler) list" where
  "tracking_routes a rt =
     [(pattern_of ''POST /api/v1/track'', on_store (Track (tracking_handler a) rt)),
      (pattern_of ''POST /api/v1/device'', on_store (Device_handler (tracking_handler a) rt)),
      (pattern_of ''POST /api/v1/identify'', on_store (Identify (tracking_handler a) rt))]"

definition trackingHandler :: "'s app \<Rightarrow> runtime \<Rightarrow> 's server handler" where
  "trackingHandler a rt =
     CORS (TokenAuth (lift_store (ap_store a))
       (RateLimit 1000 sv_track_buckets (\<lambda>b S. S\<lparr>sv_track_buckets := b\<rparr>)
         (later 3 (ServeMux (tracking_routes a rt)))))"

definition login_route :: "'s app \<Rightarrow> runtime \<Rightarrow> 's server handler" where
  "login_route a rt =
     RateLimit 10 sv_login_buckets (\<lambda>b S. S\<lparr>sv_login_buckets := b\<rparr>)
       (later 3 (on_login (Login (auth_handler a) rt)))"

definition jwt_routes :: "'s app \<Rightarrow> runtime \<Rightarrow> (pattern \<times> 's server handler) list" where
  "jwt_routes a rt =
     (let ah = auth_handler a; pr = projects_handler a; us = users_handler a; an = analytics_handler a
      in [(pattern_of ''POST /api/v1/auth/logout'', on_store Logout),
          (pattern_of ''GET /api/v1/auth/me'', on_store (Me ah)),
          (pattern_of ''PUT /api/v1/auth/password'', on_store (ChangePassword ah rt)),
          (pattern_of ''POST /api/v1/auth/totp/setup'', on_store (TOTPSetup ah)),
          (pattern_of ''POST /api/v1/auth/totp/enable'', on_store (TOTPEnable ah rt)),
          (pattern_of ''POST /api/v1/auth/totp/disable'', on_store (TOTPDisable ah rt)),
          (pattern_of ''GET /api/v1/projects'', on_store (Projects_List pr)),
          (pattern_of ''POST /api/v1/projects'', RequireRole ''manager'' (on_store (Projects_Create pr rt))),
          (pattern_of ''PUT /api/v1/projects/{id}'', RequireRole ''manager'' (on_store (Projects_Update pr rt))),
          (pattern_of ''DELETE /api/v1/projects/{id}'', RequireRole ''admin'' (on_store (Projects_Delete pr))),
          (pattern_of ''GET /api/v1/projects/{id}/tokens'', RequireRole ''manager'' (on_store (ListTokens pr))),
          (pattern_of ''POST /api/v1/projects/{id}/tokens'', RequireRole ''manager'' (on_store (CreateToken pr rt))),
          (pattern_of ''PUT /api/v1/projects/{id}/tokens/{token_id}'',
             RequireRole ''manager'' (on_store (UpdateToken pr rt))),
          (pattern_of ''PUT /api/v1/projects/{id}/tokens/{token_id}/disable'',
             RequireRole ''manager'' (on_store (DisableToken pr))),
          (pattern_of ''PUT /api/v1/projects/{id}/tokens/{token_id}/enable'',
             RequireRole ''manager'' (on_store (EnableToken pr))),
          (pattern_of ''DELETE /api/v1/projects/{id}/tokens/{token_id}'',
             RequireRole ''admin'' (on_store (DeleteToken pr))),
          (pattern_of ''GET /api/v1/users'', RequireRole ''manager'' (on_store (Users_List us))),
          (pattern_of ''POST /api/v1/users'', RequireRole ''admin'' (on_store (Users_Create us rt))),
          (pattern_of ''PUT /api/v1/users/{id}'', RequireRole ''admin'' (on_store (Users_Update us rt))),
          (pattern_of ''DELETE /api/v1/users/{id}'', RequireRole ''admin'' (on_store (Users_Delete us))),
          (pattern_of ''GET /api/v1/analytics/{project_id}/overview'', on_store (Overview an rt)),
          (pattern_of ''GET /api/v1/analytics/{project_id}/events'', on_store (Events_handler an rt)),
          (pattern_of ''GET /api/v1/analytics/{project_id}/events/{name}/properties'', on_store (EventProperties an rt)),
          (pattern_of ''GET /api/v1/analytics/{project_id}/devices'', on_store (Devices_handler an rt)),
          (pattern_of ''GET /api/v1/analytics/{project_id}/geo'', on_store (Geo an rt)),
          (pattern_of ''GET /api/v1/analytics/{project_id}/users'', on_store (Users_handler an rt)),
          (pattern_of ''GET /api/v1/analytics/{project_id}/retention'', on_store (Retention an rt))])"

definition jwtWrapped :: "'s app \<Rightarrow> runtime \<Rightarrow> 's server handler" where
  "jwtWrapped a rt r =
     JWTAuth (ValidateJWT (ap_lib a) (ap_svc a) (rq_clock r 0)) (later 1 (ServeMux (jwt_routes a rt))) r"

definition main_routes :: "'s app \<Rightarrow> runtime \<Rightarrow> (pattern \<times> 's server handler) list" where
  "main_routes a rt =
     (case ap_console a of Inl _ \<Rightarrow> [] | Inr c \<Rightarrow> console_routes c) @
     [(pattern_of ''GET /api/v1/health'', on_store (Health (health_handler a))),
      (pattern_of ''/api/v1/track'', trackingHandler a rt),
      (pattern_of ''/api/v1/device'', trackingHandler a rt),
      (pattern_of ''/api/v1/identify'', trackingHandler a rt),
      (pattern_of ''POST /api/v1/auth/login'', login_route a rt),
      (pattern_of ''/api/v1/auth/'', jwtWrapped a rt),
      (pattern_of ''/api/v1/projects'', jwtWrapped a rt),
      (pattern_of ''/api/v1/projects/'', jwtWrapped a rt),
      (pattern_of ''/api/v1/users'', jwtWrapped a rt),
      (pattern_of ''/api/v1/users/'', jwtWrapped a rt),
      (pattern_of ''/api/v1/analytics/'', jwtWrapped a rt)]"

definition New :: "'s app \<Rightarrow> runtime \<Rightarrow> 's server handler" where
  "New a rt =
     SecurityHeaders (Logging (\<lambda>entry S. S\<lparr>sv_log := sv_log S @ [entry]\<rparr>)
       (BodyLimit (2 ^ 20) (ServeMux (main_routes a rt))))"

lemma routes_are_ordered:
  "routes_ordered (map fst (tracking_routes a rt))" "routes_ordered (map fst (jwt_routes a rt))"
  "routes_ordered (map fst (main_routes a rt))"
proof -
  show "routes_ordered (map fst (tracking_routes a rt))"
    by (simp add: tracking_routes_def) code_simp
  show "routes_ordered (map fst (jwt_routes a rt))"
    by (simp add: jwt_routes_def) code_simp
  show "routes_ordered (map fst (main_routes a rt))"
    by (cases "ap_console a"; simp add: main_routes_def console_routes_def; erule thin_rl; code_simp)
qed

end
