(* ===== verification/Jobs.thy ===== *)
theory Jobs
  imports Users_Handler Analytics_Handler Config
begin

text \<open>
  \<open>cmd/oximetric/main.go\<close>: the bootstrap of the administrator at start-up and one pass of the retention
  job.  Signals, timers and process exit are not modelled.
\<close>

subsection \<open>The administrator\<close>

datatype bootstrap_error = HashFailed | StoreFailed store_error

definition bootstrapAdmin ::
  "'s Store \<Rightarrow> auth_lib \<Rightarrow> Config \<Rightarrow> 's \<Rightarrow> (bootstrap_error, unit) result \<times> 's" where
  "bootstrapAdmin st lib cfg s =
     (case GetConsoleUserByLogin st (AdminUsername cfg) s of
        (Inl err, s1) \<Rightarrow>
          if err = ErrNoRows then
            (case HashPassword lib (AdminPassword cfg) of
               None \<Rightarrow> (Inl HashFailed, s1)
             | Some hash \<Rightarrow>
                 (case CreateConsoleUser st
                    \<lparr>cu_id = 0, cu_username = AdminUsername cfg, cu_email = None, cu_password_hash = hash,
                     cu_role = ''admin'', cu_totp_secret = None, cu_totp_enabled = False,
                     cu_created_at = go_zero_time\<rparr> s1 of
                    (Inl e, s2) \<Rightarrow> (Inl (StoreFailed e), s2)
                  | (Inr _, s2) \<Rightarrow> (Inr (), s2)))
          else (Inl (StoreFailed err), s1)
      | (Inr user, s1) \<Rightarrow>
          if \<not> CheckPassword lib (cu_password_hash user) (AdminPassword cfg) then
            (case HashPassword lib (AdminPassword cfg) of
               None \<Rightarrow> (Inl HashFailed, s1)
             | Some hash \<Rightarrow>
                 (case UpdateConsoleUser st
                    (user\<lparr>cu_password_hash := hash, cu_totp_enabled := False, cu_totp_secret := None\<rparr>) s1 of
                    (Inl e, s2) \<Rightarrow> (Inl (StoreFailed e), s2)
                  | (Inr _, s2) \<Rightarrow> (Inr (), s2)))
          else (Inr (), s1))"

context console_store
begin

lemma bootstrap_effect:
  assumes "bootstrapAdmin st lib cfg s = (res, s')" and "wf s"
  shows "wf s' \<and>
    (case res of
       Inl _ \<Rightarrow> users_of s' = users_of s
     | Inr _ \<Rightarrow>
         (\<exists>hash u t. HashPassword lib (AdminPassword cfg) = Some hash \<and> users_of s (cu_id u) = None \<and>
            (\<forall>i v. users_of s i = Some v \<longrightarrow> cu_username v \<noteq> AdminUsername cfg \<and> cu_email v \<noteq> Some (AdminUsername cfg)) \<and>
            u = \<lparr>cu_id = cu_id u, cu_username = AdminUsername cfg, cu_email = None, cu_password_hash = hash,
                 cu_role = ''admin'', cu_totp_secret = None, cu_totp_enabled = False, cu_created_at = t\<rparr> \<and>
            users_of s' = (users_of s)(cu_id u \<mapsto> u)) \<or>
         (\<exists>u hash. users_of s (cu_id u) = Some u \<and> (cu_username u = AdminUsername cfg \<or> cu_email u = Some (AdminUsername cfg)) \<and>
            \<not> CheckPassword lib (cu_password_hash u) (AdminPassword cfg) \<and>
            HashPassword lib (AdminPassword cfg) = Some hash \<and>
            users_of s' = (users_of s)(cu_id u \<mapsto>
              u\<lparr>cu_password_hash := hash, cu_totp_enabled := False, cu_totp_secret := None\<rparr>)) \<or>
         (\<exists>u. users_of s (cu_id u) = Some u \<and> (cu_username u = AdminUsername cfg \<or> cu_email u = Some (AdminUsername cfg)) \<and>
            CheckPassword lib (cu_password_hash u) (AdminPassword cfg) \<and> users_of s' = users_of s))"
proof -
  obtain q s1 where g: "GetConsoleUserByLogin st (AdminUsername cfg) s = (q, s1)" by fastforce
  have s1: "wf s1" "users_of s1 = users_of s"
    using get_login_wf [OF g assms(2)] get_login_view [OF g] by auto
  show ?thesis
  proof (cases q)
    case (Inl e)
    show ?thesis
    proof (cases "e = ErrNoRows \<and> HashPassword lib (AdminPassword cfg) \<noteq> None")
      case False
      then show ?thesis using assms g s1 Inl
        by (auto simp: bootstrapAdmin_def split: if_splits option.splits)
    next
      case True
      then obtain hash where e: "e = ErrNoRows" and hash: "HashPassword lib (AdminPassword cfg) = Some hash" by auto
      note none = get_login_none [OF g [unfolded Inl e] assms(2)]
      let ?u = "\<lparr>cu_id = 0, cu_username = AdminUsername cfg, cu_email = None, cu_password_hash = hash,
        cu_role = ''admin'', cu_totp_secret = None, cu_totp_enabled = False, cu_created_at = go_zero_time\<rparr>"
      obtain c s2 where c: "CreateConsoleUser st ?u s1 = (c, s2)" by fastforce
      show ?thesis
      proof (cases c)
        case (Inl x)
        then show ?thesis
          using assms(1) g s1 \<open>q = Inl e\<close> e hash c create_user_wf [OF c s1(1)] create_user_err [OF c [unfolded Inl] s1(1)]
          by (auto simp: bootstrapAdmin_def)
      next
        case (Inr u')
        obtain t where t: "users_of s1 (cu_id u') = None" "u' = ?u\<lparr>cu_id := cu_id u'\<rparr>"
          "users_of s2 = (users_of s1)(cu_id u' \<mapsto> u'\<lparr>cu_created_at := t\<rparr>)"
          using create_user_ok [OF c [unfolded Inr] s1(1)] by blast
        have res: "res = Inr ()" "s' = s2"
          using assms(1) g \<open>q = Inl e\<close> e hash c Inr by (simp_all add: bootstrapAdmin_def)
        have fields: "u'\<lparr>cu_created_at := t\<rparr> = ?u\<lparr>cu_id := cu_id u', cu_created_at := t\<rparr>"
          using arg_cong [OF t(2), of "cu_created_at_update (\<lambda>_. t)"] by simp
        show ?thesis
          using none t(1,3) s1 create_user_wf [OF c s1(1)] hash res fields
          by (auto intro!: exI [of _ "u'\<lparr>cu_created_at := t\<rparr>"])
      qed
    qed
  next
    case (Inr u)
    note found = get_login_found [OF g [unfolded Inr] assms(2)]
    show ?thesis
    proof (cases "\<not> CheckPassword lib (cu_password_hash u) (AdminPassword cfg) \<and> HashPassword lib (AdminPassword cfg) \<noteq> None")
      case False
      then show ?thesis using assms g s1 Inr found
        by (auto simp: bootstrapAdmin_def split: if_splits option.splits)
    next
      case True
      then obtain hash where hash: "HashPassword lib (AdminPassword cfg) = Some hash" by auto
      let ?v = "u\<lparr>cu_password_hash := hash, cu_totp_enabled := False, cu_totp_secret := None\<rparr>"
      obtain c s2 where c: "UpdateConsoleUser st ?v s1 = (c, s2)" by fastforce
      have "c = Inr () \<Longrightarrow> users_of s2 = (users_of s)(cu_id u \<mapsto> ?v)"
        using update_found [of ?v s1 "()" s2 u] c s1 found by simp
      moreover have "c = Inl x \<Longrightarrow> users_of s2 = users_of s" for x
        using update_user_err [of ?v s1 x s2] c s1 by simp
      ultimately show ?thesis
        using assms(1) g s1 Inr True hash c found update_user_wf [OF c s1(1)]
        by (cases c) (auto simp: bootstrapAdmin_def)
    qed
  qed
qed

end


subsection \<open>Retention\<close>

text \<open>The loop of \<open>runRetentionCleanup\<close>; \<open>clock k\<close> is the reading for the \<open>k\<close>-th project.  A failing deletion is logged and passed over.\<close>

definition retention_cutoff :: "runtime \<Rightarrow> Project \<Rightarrow> instant \<Rightarrow> instant" where
  "retention_cutoff rt p now = add_days rt (- prj_retention_days p) now"

fun cleanup_loop :: "'s Store \<Rightarrow> runtime \<Rightarrow> (nat \<Rightarrow> instant) \<Rightarrow> Project list \<Rightarrow> nat \<Rightarrow> 's \<Rightarrow> 's" where
  "cleanup_loop st rt clock [] k s = s"
| "cleanup_loop st rt clock (p # ps) k s =
     (case CleanupEvents st (prj_id p) (retention_cutoff rt p (clock k)) s of
        (_, s') \<Rightarrow> cleanup_loop st rt clock ps (Suc k) s')"

definition runRetentionCleanup :: "'s Store \<Rightarrow> runtime \<Rightarrow> (nat \<Rightarrow> instant) \<Rightarrow> 's \<Rightarrow> 's" where
  "runRetentionCleanup st rt clock s =
     (case GetProjectsWithRetention st s of
        (Inl _, s1) \<Rightarrow> s1
      | (Inr ps, s1) \<Rightarrow> cleanup_loop st rt clock ps 0 s1)"

definition expired :: "runtime \<Rightarrow> (nat \<Rightarrow> instant) \<Rightarrow> (nat \<times> Project) list \<Rightarrow> EventRow \<Rightarrow> bool" where
  "expired rt clock ps e \<longleftrightarrow>
     (\<exists>(k, p) \<in> set ps. e_project_id e = prj_id p \<and> e_created_at e < add_days rt (- prj_retention_days p) (clock k))"

lemma cleanup_step:
  assumes "CleanupEvents SQLiteStore pid before d = (r, d')"
  shows "db_fault d' = db_fault d" "db_ok d \<Longrightarrow> db_ok d'" "console_users d' = console_users d"
    "projects d' = projects d"
    "events d' = (if db_fault d (db_tick d) then events d
       else filter (\<lambda>e. \<not> (e_project_id e = pid \<and> e_created_at e < before)) (events d))"
  using assms cleanup_ok [of pid before d r d']
  by (auto simp: SQLiteStore_def sqlite_CleanupEvents_def run_stmt_def Let_def delete_events_def split: if_splits)

lemma cleanup_loop_kept:
  "db_ok d \<Longrightarrow> db_ok (cleanup_loop SQLiteStore rt clock ps k d)"
  "console_users (cleanup_loop SQLiteStore rt clock ps k d) = console_users d"
proof (induction ps arbitrary: k d)
  case (Cons p ps)
  case 1
  then show ?case using Cons.IH(1) cleanup_step(2) by (auto split: prod.split)
next
  case (Cons p ps)
  case 2
  then show ?case using Cons.IH(2) cleanup_step(3) by (auto split: prod.split)
qed simp_all

lemma cleanup_loop_events:
  assumes "\<And>n. \<not> db_fault d n"
  shows "events (cleanup_loop SQLiteStore rt clock ps k d) =
    filter (\<lambda>e. \<not> expired rt clock (enumerate k ps) e) (events d)"
  using assms
proof (induction ps arbitrary: k d)
  case (Cons p ps)
  obtain r d1 where c: "CleanupEvents SQLiteStore (prj_id p) (retention_cutoff rt p (clock k)) d = (r, d1)"
    by fastforce
  note s = cleanup_step [OF c]
  have "events (cleanup_loop SQLiteStore rt clock ps (Suc k) d1) =
      filter (\<lambda>e. \<not> expired rt clock (enumerate (Suc k) ps) e) (events d1)"
    using Cons s(1) by simp
  then show ?case using s(5) Cons.prems c
    by (auto simp: expired_def retention_cutoff_def filter_filter intro: filter_cong)
qed (simp add: expired_def)



definition job_clock :: "nat \<Rightarrow> instant" where
  "job_clock k = 30 * nanos_per_day + 15"


text \<open>
  C17. When the bootstrap succeeds, an account that answers to the configured name accepts the configured
  password, and no other account has changed, provided a bcrypt hash matches the password it was made of.
\<close>

theorem bootstrap_admin_password:
  assumes "bootstrapAdmin SQLiteStore lib cfg d = (Inr (), d')" and "db_ok d"
    and bcrypt: "\<And>p h. al_bcrypt lib p = Some h \<Longrightarrow> al_bcrypt_matches lib h p"
  shows "db_ok d' \<and> (\<exists>u. users_of d' (cu_id u) = Some u \<and>
    (cu_username u = AdminUsername cfg \<or> cu_email u = Some (AdminUsername cfg)) \<and>
    CheckPassword lib (cu_password_hash u) (AdminPassword cfg) \<and>
    (\<forall>i. i \<noteq> cu_id u \<longrightarrow> users_of d' i = users_of d i))"
proof -
  have ok: "CheckPassword lib h (AdminPassword cfg)" if "HashPassword lib (AdminPassword cfg) = Some h" for h
    using bcrypt that by (simp add: CheckPassword_def HashPassword_def)
  from sqlite_console.bootstrap_effect [OF assms(1,2)] have "db_ok d'" by blast
  moreover from sqlite_console.bootstrap_effect [OF assms(1,2)]
  consider hash u t where "HashPassword lib (AdminPassword cfg) = Some hash"
      "u = \<lparr>cu_id = cu_id u, cu_username = AdminUsername cfg, cu_email = None, cu_password_hash = hash,
        cu_role = ''admin'', cu_totp_secret = None, cu_totp_enabled = False, cu_created_at = t\<rparr>"
      "users_of d' = (users_of d)(cu_id u \<mapsto> u)"
    | u hash where "cu_username u = AdminUsername cfg \<or> cu_email u = Some (AdminUsername cfg)"
      "HashPassword lib (AdminPassword cfg) = Some hash"
      "users_of d' = (users_of d)(cu_id u \<mapsto> u\<lparr>cu_password_hash := hash, cu_totp_enabled := False, cu_totp_secret := None\<rparr>)"
    | u where "users_of d (cu_id u) = Some u" "cu_username u = AdminUsername cfg \<or> cu_email u = Some (AdminUsername cfg)"
      "CheckPassword lib (cu_password_hash u) (AdminPassword cfg)" "users_of d' = users_of d"
    by (simp only: sum.case) blast
  then have "\<exists>u. users_of d' (cu_id u) = Some u \<and>
    (cu_username u = AdminUsername cfg \<or> cu_email u = Some (AdminUsername cfg)) \<and>
    CheckPassword lib (cu_password_hash u) (AdminPassword cfg) \<and> (\<forall>i. i \<noteq> cu_id u \<longrightarrow> users_of d' i = users_of d i)"
  proof cases
    case 1
    have "cu_username u = AdminUsername cfg" "cu_password_hash u = hash"
      using arg_cong [OF 1(2), of cu_username] arg_cong [OF 1(2), of cu_password_hash] by simp_all
    with 1 ok show ?thesis by (intro exI [of _ u]) auto
  next
    case 2
    with ok show ?thesis
      by (intro exI [of _ "u\<lparr>cu_password_hash := hash, cu_totp_enabled := False, cu_totp_secret := None\<rparr>"]) auto
  next
    case 3
    then show ?thesis by (intro exI [of _ u]) auto
  qed
  ultimately show ?thesis by blast
qed

definition sample_config :: "string \<Rightarrow> Config" where
  "sample_config name =
     \<lparr>AdminUsername = name, AdminPassword = ''secret99'', DBDriver = ''sqlite'', DBDSN = ''x.db'', Port = ''6940'',
      JWTSecret = ''k'', GeoIPDBPath = '''', LogLevel = ''info'', TrustedProxies = [], DomainName = ''''\<rparr>"

lemma sample_lib_bcrypt: "al_bcrypt sample_lib p = Some h \<Longrightarrow> al_bcrypt_matches sample_lib h p"
  by (simp add: sample_lib_def split: if_splits)

lemma bootstrap_admin_password_witness:
  "\<exists>u. users_of (snd (bootstrapAdmin SQLiteStore sample_lib (sample_config ''root'') sample_db)) (cu_id u) = Some u \<and>
    CheckPassword sample_lib (cu_password_hash u) ''secret99''"
proof -
  have "fst (bootstrapAdmin SQLiteStore sample_lib (sample_config ''root'') sample_db) = Inr ()" by code_simp
  from bootstrap_admin_password [OF ok_pair [OF this] sample_db_ok sample_lib_bcrypt]
  show ?thesis by (auto simp: sample_config_def)
qed

text \<open>
  The bootstrap looks the administrator up by name or email and never looks at the role: when the
  configured name is the email of a viewer, it replaces that viewer's password, switches the second
  factor off, succeeds, and leaves a database without any administrator.
\<close>

theorem bootstrap_takes_over_viewer:
  "(let d = totp_db\<lparr>console_users := [totp_user\<lparr>cu_role := ''viewer''\<rparr>]\<rparr>
    in case bootstrapAdmin SQLiteStore sample_lib (sample_config ''ann@x'') d of
         (res, d') \<Rightarrow> db_ok d \<and> res = Inr () \<and>
           map (\<lambda>u. (cu_username u, cu_role u, cu_password_hash u, cu_totp_secret u)) (console_users d') =
             [(''ann'', ''viewer'', ''hsecret99'', None)])"
  by code_simp

end
