(* ===== verification/Accounts.thy ===== *)
theory Accounts
  imports Jobs
begin

text \<open>
  What the console promises about its accounts, as a machine on a map from ids to accounts: the actions of
  the holder of a session token on the own account, the actions of an administrator on the others, and the
  bootstrap of a process.  The handlers of \<open>internal/handler/auth.go\<close> and \<open>internal/handler/users.go\<close> and
  \<open>bootstrapAdmin\<close> refine it: each run of one of them is one action of the machine or none.
\<close>

type_synonym accounts = "int \<Rightarrow> ConsoleUser option"

subsection \<open>The actions\<close>

inductive own_step :: "auth_lib \<Rightarrow> Claims \<Rightarrow> accounts \<Rightarrow> accounts \<Rightarrow> bool" for lib cl A where
  own_idle: "own_step lib cl A A"
| own_password: "A (cl_user_id cl) = Some u \<Longrightarrow> CheckPassword lib (cu_password_hash u) old \<Longrightarrow>
     8 \<le> length new \<Longrightarrow> HashPassword lib new = Some hash \<Longrightarrow>
     own_step lib cl A (A(cl_user_id cl \<mapsto> u\<lparr>cu_password_hash := hash\<rparr>))"
| own_setup: "A (cl_user_id cl) = Some u \<Longrightarrow> GenerateTOTPSecret lib (cl_username cl) = Some (secret, uri) \<Longrightarrow>
     own_step lib cl A (A(cl_user_id cl \<mapsto> u\<lparr>cu_totp_secret := Some secret\<rparr>))"
| own_enable: "A (cl_user_id cl) = Some u \<Longrightarrow> CheckPassword lib (cu_password_hash u) pw \<Longrightarrow>
     cu_totp_secret u = Some secret \<Longrightarrow> ValidateTOTPCode lib secret code \<Longrightarrow>
     own_step lib cl A (A(cl_user_id cl \<mapsto> u\<lparr>cu_totp_enabled := True\<rparr>))"
| own_disable: "A (cl_user_id cl) = Some u \<Longrightarrow> CheckPassword lib (cu_password_hash u) pw \<Longrightarrow>
     own_step lib cl A (A(cl_user_id cl \<mapsto> u\<lparr>cu_totp_enabled := False, cu_totp_secret := None\<rparr>))"

inductive account_step :: "auth_lib \<Rightarrow> Claims \<Rightarrow> accounts \<Rightarrow> accounts \<Rightarrow> bool" for lib cl A where
  own_account: "own_step lib cl A B \<Longrightarrow> account_step lib cl A B"
| create_account: "hasMinRole (cl_role cl) ''admin'' \<Longrightarrow> A (cu_id u) = None \<Longrightarrow> cu_username u \<noteq> '''' \<Longrightarrow>
     cu_role u \<in> set roles \<Longrightarrow> 8 \<le> length pw \<Longrightarrow> HashPassword lib pw = Some (cu_password_hash u) \<Longrightarrow>
     cu_totp_secret u = None \<Longrightarrow> \<not> cu_totp_enabled u \<Longrightarrow> account_step lib cl A (A(cu_id u \<mapsto> u))"
| edit_account: "hasMinRole (cl_role cl) ''admin'' \<Longrightarrow> i \<noteq> cl_user_id cl \<Longrightarrow> A i = Some u \<Longrightarrow>
     role = cu_role u \<or> role \<in> set roles \<Longrightarrow>
     account_step lib cl A (A(i \<mapsto> u\<lparr>cu_username := name, cu_email := email, cu_role := role\<rparr>))"
| delete_account: "hasMinRole (cl_role cl) ''admin'' \<Longrightarrow> i \<noteq> cl_user_id cl \<Longrightarrow> account_step lib cl A (A(i := None))"

inductive boot_step :: "auth_lib \<Rightarrow> Config \<Rightarrow> accounts \<Rightarrow> accounts \<Rightarrow> bool" for lib cfg A where
  boot_keep: "A i = Some u \<Longrightarrow> cu_username u = AdminUsername cfg \<or> cu_email u = Some (AdminUsername cfg) \<Longrightarrow>
     CheckPassword lib (cu_password_hash u) (AdminPassword cfg) \<Longrightarrow> boot_step lib cfg A A"
| boot_create: "A (cu_id u) = None \<Longrightarrow>
     (\<And>i v. A i = Some v \<Longrightarrow> cu_username v \<noteq> AdminUsername cfg \<and> cu_email v \<noteq> Some (AdminUsername cfg)) \<Longrightarrow>
     cu_username u = AdminUsername cfg \<Longrightarrow> cu_role u = ''admin'' \<Longrightarrow>
     HashPassword lib (AdminPassword cfg) = Some (cu_password_hash u) \<Longrightarrow>
     cu_totp_secret u = None \<Longrightarrow> \<not> cu_totp_enabled u \<Longrightarrow> boot_step lib cfg A (A(cu_id u \<mapsto> u))"
| boot_reset: "A i = Some u \<Longrightarrow> cu_username u = AdminUsername cfg \<or> cu_email u = Some (AdminUsername cfg) \<Longrightarrow>
     \<not> CheckPassword lib (cu_password_hash u) (AdminPassword cfg) \<Longrightarrow> HashPassword lib (AdminPassword cfg) = Some hash \<Longrightarrow>
     boot_step lib cfg A (A(i \<mapsto> u\<lparr>cu_password_hash := hash, cu_totp_enabled := False, cu_totp_secret := None\<rparr>))"

inductive_cases own_step_elim: "own_step lib cl A B"
inductive_cases account_step_elim: "account_step lib cl A B"
inductive_cases boot_step_elim: "boot_step lib cfg A B"

inductive accounts_reachable :: "accounts \<Rightarrow> bool" where
  no_accounts: "accounts_reachable Map.empty"
| booted: "accounts_reachable A \<Longrightarrow> boot_step lib cfg A B \<Longrightarrow> accounts_reachable B"
| acted: "accounts_reachable A \<Longrightarrow> account_step lib cl A B \<Longrightarrow> accounts_reachable B"

subsection \<open>Invariants of the machine\<close>

lemma own_step_others: "own_step lib cl A B \<Longrightarrow> i \<noteq> cl_user_id cl \<Longrightarrow> B i = A i"
  by (erule own_step.cases) auto

text \<open>A switched-on second factor has a secret, so that \<open>Login\<close> asks for it; roles are known ones.\<close>

definition account_ok :: "ConsoleUser \<Rightarrow> bool" where
  "account_ok u \<longleftrightarrow> (cu_totp_enabled u \<longrightarrow> cu_totp_secret u \<noteq> None) \<and> cu_role u \<in> set roles"

definition accounts_ok :: "accounts \<Rightarrow> bool" where
  "accounts_ok A \<longleftrightarrow> (\<forall>i u. A i = Some u \<longrightarrow> account_ok u)"

lemma accounts_okD: "accounts_ok A \<Longrightarrow> A i = Some u \<Longrightarrow> account_ok u"
  by (simp add: accounts_ok_def)

lemma accounts_ok_upd [intro]: "accounts_ok A \<Longrightarrow> account_ok u \<Longrightarrow> accounts_ok (A(i \<mapsto> u))"
  by (simp add: accounts_ok_def)

lemma accounts_ok_change:
  "accounts_ok A \<Longrightarrow> A i = Some u \<Longrightarrow> (account_ok u \<Longrightarrow> account_ok v) \<Longrightarrow> accounts_ok (A(i \<mapsto> v))"
  by (simp add: accounts_ok_def)

lemma accounts_ok_delete [intro]: "accounts_ok A \<Longrightarrow> accounts_ok (A(i := None))"
  by (simp add: accounts_ok_def)

lemma own_step_ok: "own_step lib cl A B \<Longrightarrow> accounts_ok A \<Longrightarrow> accounts_ok B"
  by (erule own_step.cases; hypsubst?; (assumption | erule (1) accounts_ok_change, simp add: account_ok_def))

lemma account_step_ok: "account_step lib cl A B \<Longrightarrow> accounts_ok A \<Longrightarrow> accounts_ok B"
proof (erule account_step.cases)
  fix i u role name email
  assume "accounts_ok A" "A i = Some u" "role = cu_role u \<or> role \<in> set roles"
    "B = A(i \<mapsto> u\<lparr>cu_username := name, cu_email := email, cu_role := role\<rparr>)"
  then show "accounts_ok B" using accounts_okD [of A i u] by (auto simp: account_ok_def)
qed (auto simp: own_step_ok account_ok_def)

lemma boot_step_ok: "boot_step lib cfg A B \<Longrightarrow> accounts_ok A \<Longrightarrow> accounts_ok B"
  by (erule boot_step.cases; hypsubst?; (assumption | erule (1) accounts_ok_change, simp add: account_ok_def
      | erule accounts_ok_upd, simp add: account_ok_def roles_def))

lemma accounts_reachable_ok: "accounts_reachable A \<Longrightarrow> accounts_ok A"
proof (induction rule: accounts_reachable.induct)
  case no_accounts
  then show ?case by (simp add: accounts_ok_def)
qed (blast intro: account_step_ok boot_step_ok)+

subsection \<open>The handlers and the bootstrap refine it\<close>

context console_store
begin

lemma own_handlers_refine:
  assumes "rq_claims r = Some cl" and "fresh w" and "wf s" and "ah_store h = st"
  shows "ChangePassword h rt r w s = (w', s') \<Longrightarrow> own_step (ah_lib h) cl (users_of s) (users_of s')"
    and "TOTPSetup h r w s = (w', s') \<Longrightarrow> own_step (ah_lib h) cl (users_of s) (users_of s')"
    and "TOTPEnable h rt r w s = (w', s') \<Longrightarrow> own_step (ah_lib h) cl (users_of s) (users_of s')"
    and "TOTPDisable h rt r w s = (w', s') \<Longrightarrow> own_step (ah_lib h) cl (users_of s) (users_of s')"
proof -
  assume "ChangePassword h rt r w s = (w', s')"
  from ChangePassword_effect [OF this assms(4,3,2)]
  show "own_step (ah_lib h) cl (users_of s) (users_of s')"
    using assms(1) by (auto split: if_splits intro: own_idle own_password)
next
  assume "TOTPSetup h r w s = (w', s')"
  from TOTPSetup_effect [OF this assms(4,3,2)]
  show "own_step (ah_lib h) cl (users_of s) (users_of s')"
    using assms(1) by (auto split: if_splits intro: own_idle own_setup)
next
  assume "TOTPEnable h rt r w s = (w', s')"
  from TOTPEnable_effect [OF this assms(4,3,2)]
  show "own_step (ah_lib h) cl (users_of s) (users_of s')"
    using assms(1) by (auto split: if_splits intro: own_idle own_enable)
next
  assume "TOTPDisable h rt r w s = (w', s')"
  from TOTPDisable_effect [OF this assms(4,3,2)]
  show "own_step (ah_lib h) cl (users_of s) (users_of s')"
    using assms(1) by (auto split: if_splits intro: own_idle own_disable)
qed

lemma administration_refines:
  assumes "rq_claims r = Some cl" and "hasMinRole (cl_role cl) ''admin''" and "fresh w" and "wf s" and "uh_store h = st"
  shows "Users_Create h rt r w s = (w', s') \<Longrightarrow> account_step (uh_lib h) cl (users_of s) (users_of s')"
    and "Users_Update h rt r w s = (w', s') \<Longrightarrow> account_step (uh_lib h) cl (users_of s) (users_of s')"
    and "Users_Delete h r w s = (w', s') \<Longrightarrow> account_step (uh_lib h) cl (users_of s) (users_of s')"
proof -
  note idle = own_account [OF own_idle]
  assume "Users_Create h rt r w s = (w', s')"
  from Users_Create_effect [OF this assms(5,4,3)]
  show "account_step (uh_lib h) cl (users_of s) (users_of s')"
  proof (elim conjE disjE exE)
    fix req u hash t
    assume u: "u = \<lparr>cu_id = cu_id u, cu_username = cur_username req, cu_email = cur_email req,
        cu_password_hash = hash, cu_role = cur_role req, cu_totp_secret = None, cu_totp_enabled = False,
        cu_created_at = go_zero_time\<rparr>"
      and req: "cur_username req \<noteq> ''''" "8 \<le> length (cur_password req)" "cur_role req \<in> set roles"
        "HashPassword (uh_lib h) (cur_password req) = Some hash" "users_of s (cu_id u) = None"
      and s': "users_of s' = (users_of s)(cu_id u \<mapsto> u\<lparr>cu_created_at := t\<rparr>)"
    let ?v = "u\<lparr>cu_created_at := t\<rparr>"
    have "cu_username ?v = cur_username req" "cu_role ?v = cur_role req" "cu_password_hash ?v = hash"
      "cu_totp_secret ?v = None" "\<not> cu_totp_enabled ?v" "cu_id ?v = cu_id u"
      by (subst u, simp)+
    then show ?thesis
      using create_account [of cl "users_of s" ?v "cur_password req" "uh_lib h"] req s' assms(2) by simp
  qed (simp add: idle)
next
  assume "Users_Update h rt r w s = (w', s')"
  from Users_Update_effect [OF this assms(5,4,3)]
  consider "users_of s' = users_of s"
    | i u req v where "i \<noteq> cl_user_id cl" "users_of s i = Some u" "apply_user_update req u = Some v"
      "users_of s' = (users_of s)(i \<mapsto> v)"
    using assms(1) by (auto split: if_splits)
  then show "account_step (uh_lib h) cl (users_of s) (users_of s')"
  proof cases
    case 2
    have "v = u\<lparr>cu_username := cu_username v, cu_email := cu_email v, cu_role := cu_role v\<rparr>"
      using apply_user_update_frame(1-5) [OF 2(3)] by (cases u; cases v) simp
    then show ?thesis
      using edit_account [where lib = "uh_lib h" and A = "users_of s" and i = i and u = u and role = "cu_role v"
          and name = "cu_username v" and email = "cu_email v", OF assms(2) 2(1,2)]
        apply_user_update_frame(6) [OF 2(3)] 2(4) by simp
  qed (simp add: own_account own_idle)
next
  assume "Users_Delete h r w s = (w', s')"
  from Users_Delete_effect [OF this assms(5,4,3)]
  show "account_step (uh_lib h) cl (users_of s) (users_of s')"
    using assms(1,2) by (auto split: if_splits intro: delete_account own_account own_idle)
qed

lemma bootstrap_refines:
  assumes "bootstrapAdmin st lib cfg s = (Inr (), s')" and "wf s"
  shows "wf s' \<and> boot_step lib cfg (users_of s) (users_of s')"
proof -
  from bootstrap_effect [OF assms]
  have wf: "wf s'" and e: "(\<exists>hash u t. HashPassword lib (AdminPassword cfg) = Some hash \<and> users_of s (cu_id u) = None \<and>
            (\<forall>i v. users_of s i = Some v \<longrightarrow> cu_username v \<noteq> AdminUsername cfg \<and> cu_email v \<noteq> Some (AdminUsername cfg)) \<and>
            u = \<lparr>cu_id = cu_id u, cu_username = AdminUsername cfg, cu_email = None, cu_password_hash = hash,
                 cu_role = ''admin'', cu_totp_secret = None, cu_totp_enabled = False, cu_created_at = t\<rparr> \<and>
            users_of s' = (users_of s)(cu_id u \<mapsto> u)) \<or>
         (\<exists>u hash. users_of s (cu_id u) = Some u \<and> (cu_username u = AdminUsername cfg \<or> cu_email u = Some (AdminUsername cfg)) \<and>
            \<not> CheckPassword lib (cu_password_hash u) (AdminPassword cfg) \<and>
            HashPassword lib (AdminPassword cfg) = Some hash \<and>
            users_of s' = (users_of s)(cu_id u \<mapsto>
              u\<lparr>cu_password_hash := hash, cu_totp_enabled := False, cu_totp_secret := None\<rparr>)) \<or>
         (\<exists>u. users_of s (cu_id u) = Some u \<and> (cu_username u = AdminUsername cfg \<or> cu_email u = Some (AdminUsername cfg)) \<and>
            CheckPassword lib (cu_password_hash u) (AdminPassword cfg) \<and> users_of s' = users_of s)"
    by (simp_all only: sum.case)
  from e have "boot_step lib cfg (users_of s) (users_of s')"
  proof (elim disjE exE conjE)
    fix hash u t
    assume u: "u = \<lparr>cu_id = cu_id u, cu_username = AdminUsername cfg, cu_email = None,
        cu_password_hash = hash, cu_role = ''admin'', cu_totp_secret = None, cu_totp_enabled = False, cu_created_at = t\<rparr>"
      and new: "HashPassword lib (AdminPassword cfg) = Some hash" "users_of s (cu_id u) = None"
        "\<forall>i v. users_of s i = Some v \<longrightarrow> cu_username v \<noteq> AdminUsername cfg \<and> cu_email v \<noteq> Some (AdminUsername cfg)"
        "users_of s' = (users_of s)(cu_id u \<mapsto> u)"
    have "cu_username u = AdminUsername cfg" "cu_role u = ''admin''" "cu_password_hash u = hash"
      "cu_totp_secret u = None" "\<not> cu_totp_enabled u"
      by (subst u, simp)+
    then show ?thesis using boot_create [of "users_of s" u cfg lib] new by simp
  qed (auto intro: boot_step.intros)
  with wf show ?thesis ..
qed

end

subsection \<open>What the machine allows and should not\<close>

text \<open>
  \<open>TOTPSetup\<close> asks for no password and does not look at whether the second factor is on: when it is,
  the secret the next login is checked against becomes at once the one the request has just been told,
  so that a session token is enough to take the second factor over (and switching it off would have
  needed the password).
\<close>

theorem TOTPSetup_replaces_second_factor:
  assumes "TOTPSetup h r w d = (w', d')" and "ah_store h = SQLiteStore" and "db_ok d" and "fresh w" and "succeeded w'"
    and "rq_claims r = Some cl" and "users_of d (cl_user_id cl) = Some u" and "cu_totp_enabled u"
  shows "\<exists>secret uri u'. w_body w' = w_body w @ [TOTPSetupReply \<lparr>tsr_secret = secret, tsr_uri = uri\<rparr>] \<and>
    users_of d' (cl_user_id cl) = Some u' \<and> cu_totp_enabled u' \<and> cu_totp_secret u' = Some secret \<and>
    cu_password_hash u' = cu_password_hash u"
  using sqlite_console.TOTPSetup_effect [OF assms(1-4)] assms(5-8) by auto

definition setup_auth :: "db AuthHandler" where
  "setup_auth = sample_auth\<lparr>ah_lib := sample_lib\<lparr>al_totp_generate := \<lambda>_. Some (''new'', ''otpauth'')\<rparr>\<rparr>"

definition setup_request :: request where
  "setup_request = (sample_request '''' '''')\<lparr>rq_claims :=
     Some \<lparr>cl_user_id = 1, cl_username = ''ann'', cl_role = ''admin''\<rparr>\<rparr>"

lemma TOTPSetup_replaces_second_factor_witness:
  "cu_totp_enabled totp_user \<and> cu_totp_secret totp_user = Some ''s'' \<and>
   (\<exists>u. users_of (snd (TOTPSetup setup_auth setup_request new_writer totp_db)) 1 = Some u \<and>
      cu_totp_enabled u \<and> cu_totp_secret u = Some ''new'')"
proof -
  let ?res = "TOTPSetup setup_auth setup_request new_writer totp_db"
  let ?cl = "\<lparr>cl_user_id = 1, cl_username = ''ann'', cl_role = ''admin''\<rparr>"
  have st: "ah_store setup_auth = SQLiteStore" by (simp add: setup_auth_def sample_auth_def)
  have run: "succeeded (fst ?res)" "rq_claims setup_request = Some ?cl"
    "users_of totp_db (cl_user_id ?cl) = Some totp_user" "cu_totp_enabled totp_user"
    "w_body (fst ?res) = [TOTPSetupReply \<lparr>tsr_secret = ''new'', tsr_uri = ''otpauth''\<rparr>]"
    "cu_totp_secret totp_user = Some ''s''"
    by code_simp+
  from TOTPSetup_replaces_second_factor [OF surjective_pairing st totp_db_ok fresh_new_writer(1) run(1-4)] run(4-6)
  show ?thesis by auto
qed

text \<open>
  \<open>Update\<close> of a user does not repeat the check of \<open>Create\<close> that the name is not empty: an administrator
  can empty the name of an account, which, if it has no email, can then not log in any more.
\<close>

theorem Users_Update_accepts_empty_name:
  "let res = Users_Update \<lparr>uh_store = SQLiteStore, uh_lib = sample_lib\<rparr>
         (sample_runtime (TObject [(''username'', TString '''')]))
         (setup_request\<lparr>rq_path_values := [(''id'', ''2'')]\<rparr>) new_writer sample_db
   in status (fst res) = 200 \<and> map_option cu_username (users_of sample_db 2) = Some ''bob'' \<and>
      map_option cu_username (users_of (snd res) 2) = Some ''''"
  by code_simp

end
