(* ===== verification/Access.thy ===== *)
theory Access
  imports Server Accounts
begin

text \<open>
  Who can change what through the server as a whole.  A request changes the tables only with an active
  token that admits it (and then only what tracking writes), or with a valid session token, within the
  limits of the role it carries.  This is proved for every store whose state contains the tables and
  whose methods keep to them (the locale \<open>backend\<close>), and holds for SQLite here, for Postgres in
  \<open>Postgres_Access\<close>.
\<close>

subsection \<open>Routing\<close>

lemma ServeMux_cases:
  assumes "ServeMux routes r w s = (w', s')"
  shows "(s' = s \<and> w' \<in> {redirect 301 w, http_error 405 ''Method Not Allowed'' w, http_error 404 ''404 page not found'' w}) \<or>
    (\<exists>p h vals. (p, h) \<in> set routes \<and> match_pattern p (rq_method r) (rq_segments r) = Some vals \<and>
       h (r\<lparr>rq_path_values := vals\<rparr>) w s = (w', s'))"
  using assms
  by (auto simp: ServeMux_def Let_def split: if_splits option.splits prod.splits dest: find_route_Some)

lemma on_store_cases:
  assumes "on_store h r w S = (w', S')"
  shows "h r w (sv_store S) = (w', sv_store S') \<and> S' = S\<lparr>sv_store := sv_store S'\<rparr>"
  using assms by (auto simp: on_store_def split: prod.splits)

subsection \<open>Behind a session token\<close>

definition own_account_change :: "Claims \<Rightarrow> db \<Rightarrow> db \<Rightarrow> bool" where
  "own_account_change cl d d' \<longleftrightarrow>
     account_change d d' \<and> (\<forall>i. i \<noteq> cl_user_id cl \<longrightarrow> users_of d' i = users_of d i)"

definition permitted :: "Claims \<Rightarrow> db \<Rightarrow> db \<Rightarrow> bool" where
  "permitted cl d d' \<longleftrightarrow>
     same_tables d d' \<or> own_account_change cl d d' \<or>
     hasMinRole (cl_role cl) ''manager'' \<and> management_change d d' \<or>
     hasMinRole (cl_role cl) ''admin'' \<and> (deletion_change d d' \<or> account_change d d')"

lemma users_of_changes:
  "management_change d d' \<Longrightarrow> users_of d' = users_of d" "deletion_change d d' \<Longrightarrow> users_of d' = users_of d"
  "tracking_change d d' \<Longrightarrow> users_of d' = users_of d"
  by (simp_all add: management_change_def deletion_change_def tracking_change_def users_of_def)

text \<open>What a handler behind a session token is allowed: the change is permitted, and an action of the accounts.\<close>

definition allowed :: "auth_lib \<Rightarrow> Claims \<Rightarrow> db \<Rightarrow> db \<Rightarrow> bool" where
  "allowed lib cl d d' \<longleftrightarrow> permitted cl d d' \<and> account_step lib cl (users_of d) (users_of d')"

lemma allowed_idle: "permitted cl d d' \<Longrightarrow> users_of d' = users_of d \<Longrightarrow> allowed lib cl d d'"
  by (simp add: allowed_def own_account own_idle)

lemma allowed_refl [simp]: "allowed lib cl d d"
  by (simp add: allowed_idle permitted_def)

definition jwt_safe :: "('s \<Rightarrow> db) \<Rightarrow> auth_lib \<Rightarrow> 's server handler \<Rightarrow> bool" where
  "jwt_safe T lib h \<longleftrightarrow>
     (\<forall>r w S w' S' cl. h r w S = (w', S') \<longrightarrow> rq_claims r = Some cl \<longrightarrow> fresh w \<longrightarrow> db_ok (T (sv_store S)) \<longrightarrow>
        allowed lib cl (T (sv_store S)) (T (sv_store S')) \<and> S' = S\<lparr>sv_store := sv_store S'\<rparr>)"

lemma jwt_safe_on_store:
  assumes "\<And>r w s w' s' cl. h r w s = (w', s') \<Longrightarrow> rq_claims r = Some cl \<Longrightarrow> fresh w \<Longrightarrow> db_ok (T s) \<Longrightarrow>
      allowed lib cl (T s) (T s')"
  shows "jwt_safe T lib (on_store h)"
  unfolding jwt_safe_def using assms on_store_cases by metis

lemma allowed_same: "same_tables d d' \<Longrightarrow> allowed lib cl d d'"
  using same_tables_users [of d d'] by (simp add: allowed_idle permitted_def)

lemma jwt_safe_read:
  assumes "\<And>r w s w' s'. h r w s = (w', s') \<Longrightarrow> same_tables (T s) (T s')"
  shows "jwt_safe T lib (on_store h)"
  by (rule jwt_safe_on_store) (use assms allowed_same in blast)

lemma jwt_safe_own:
  assumes "\<And>r w s w' s'. h r w s = (w', s') \<Longrightarrow> account_change (T s) (T s')"
    and "\<And>r w s w' s' cl. h r w s = (w', s') \<Longrightarrow> rq_claims r = Some cl \<Longrightarrow> fresh w \<Longrightarrow> db_ok (T s) \<Longrightarrow>
      own_step lib cl (users_of (T s)) (users_of (T s'))"
  shows "jwt_safe T lib (on_store h)"
proof (rule jwt_safe_on_store)
  fix r w s w' s' cl
  assume "h r w s = (w', s')" "rq_claims r = Some cl" "fresh w" "db_ok (T s)"
  then have "account_change (T s) (T s')" "own_step lib cl (users_of (T s)) (users_of (T s'))" using assms by blast+
  then show "allowed lib cl (T s) (T s')"
    using own_step_others [of lib cl "users_of (T s)" "users_of (T s')"]
    by (auto simp: allowed_def permitted_def own_account_change_def own_account)
qed

lemma jwt_safe_role:
  assumes "\<And>r w s w' s' cl. h r w s = (w', s') \<Longrightarrow> hasMinRole (cl_role cl) role \<Longrightarrow> rq_claims r = Some cl \<Longrightarrow>
      fresh w \<Longrightarrow> db_ok (T s) \<Longrightarrow> allowed lib cl (T s) (T s')"
  shows "jwt_safe T lib (RequireRole role (on_store h))"
  unfolding jwt_safe_def
proof (intro allI impI)
  fix r w S w' S' cl
  assume a: "RequireRole role (on_store h) r w S = (w', S')" "rq_claims r = Some cl" "fresh w" "db_ok (T (sv_store S))"
  show "allowed lib cl (T (sv_store S)) (T (sv_store S')) \<and> S' = S\<lparr>sv_store := sv_store S'\<rparr>"
  proof (cases "hasMinRole (cl_role cl) role")
    case True
    with a have "on_store h r w S = (w', S')" by (simp add: RequireRole_def GetClaims_def)
    from on_store_cases [OF this] show ?thesis using assms True a by blast
  next
    case False
    with a have "S' = S" by (simp add: RequireRole_def GetClaims_def)
    then show ?thesis by simp
  qed
qed

lemma jwt_safe_role_read:
  "(\<And>r w s w' s'. h r w s = (w', s') \<Longrightarrow> same_tables (T s) (T s')) \<Longrightarrow> jwt_safe T lib (RequireRole role (on_store h))"
  by (rule jwt_safe_role) (simp add: allowed_same)

lemma jwt_safe_manager:
  "(\<And>r w s w' s'. h r w s = (w', s') \<Longrightarrow> management_change (T s) (T s')) \<Longrightarrow> jwt_safe T lib (RequireRole ''manager'' (on_store h))"
  by (rule jwt_safe_role, rule allowed_idle) (simp add: permitted_def, blast intro: users_of_changes)

lemma jwt_safe_deletion:
  "(\<And>r w s w' s'. h r w s = (w', s') \<Longrightarrow> deletion_change (T s) (T s')) \<Longrightarrow> jwt_safe T lib (RequireRole ''admin'' (on_store h))"
  by (rule jwt_safe_role, rule allowed_idle) (simp add: permitted_def, blast intro: users_of_changes)

lemma jwt_safe_administration:
  assumes "\<And>r w s w' s'. h r w s = (w', s') \<Longrightarrow> account_change (T s) (T s')"
    and "\<And>r w s w' s' cl. h r w s = (w', s') \<Longrightarrow> rq_claims r = Some cl \<Longrightarrow> hasMinRole (cl_role cl) ''admin'' \<Longrightarrow>
      fresh w \<Longrightarrow> db_ok (T s) \<Longrightarrow> account_step lib cl (users_of (T s)) (users_of (T s'))"
  shows "jwt_safe T lib (RequireRole ''admin'' (on_store h))"
  by (rule jwt_safe_role) (use assms in \<open>fastforce simp: permitted_def allowed_def\<close>)

lemma jwt_safe_later: "jwt_safe T lib h \<Longrightarrow> jwt_safe T lib (later n h)"
  unfolding jwt_safe_def later_def by fastforce

lemma jwt_safe_mux:
  assumes "\<forall>(p, h) \<in> set routes. jwt_safe T lib h"
  shows "jwt_safe T lib (ServeMux routes)"
  unfolding jwt_safe_def
proof (intro allI impI)
  fix r w S w' S' cl
  assume "ServeMux routes r w S = (w', S')" "rq_claims r = Some cl" "fresh w" "db_ok (T (sv_store S))"
  then show "allowed lib cl (T (sv_store S)) (T (sv_store S')) \<and> S' = S\<lparr>sv_store := sv_store S'\<rparr>"
    using ServeMux_cases [of routes r w S w' S'] assms
    by (fastforce simp: jwt_safe_def)
qed

text \<open>The claims of the session token a request carries, if the service accepts it.\<close>

definition bearer :: "'s app \<Rightarrow> request \<Rightarrow> Claims option" where
  "bearer a r =
     (let header = header_get r ''Authorization''
      in if has_prefix header ''Bearer ''
         then ValidateJWT (ap_lib a) (ap_svc a) (rq_clock r 0) (trim_prefix header ''Bearer '') else None)"

lemma JWTAuth_cases:
  assumes "jwtWrapped a rt r w S = (w', S')"
  shows "(\<exists>cl. bearer a r = Some cl \<and>
      later 1 (ServeMux (jwt_routes a rt)) (r\<lparr>rq_claims := Some cl\<rparr>) w S = (w', S')) \<or>
    bearer a r = None \<and> S' = S \<and> (\<exists>m. w' = writeError 401 ''UNAUTHORIZED'' m w)"
  using assms
  by (auto simp: jwtWrapped_def JWTAuth_def bearer_def Let_def split: if_splits option.splits)

lemma bearer_cong: "rq_header r1 = rq_header r \<Longrightarrow> rq_clock r1 = rq_clock r \<Longrightarrow> bearer a r1 = bearer a r"
  by (simp add: bearer_def header_get_def Let_def)

definition token_permits :: "db \<Rightarrow> request \<Rightarrow> db \<Rightarrow> bool" where
  "token_permits d r d' \<longleftrightarrow>
     (\<exists>pt. token_of d (header_get r ''X-Token'') = Some pt \<and> admits pt r \<and> rq_method r = ''POST'' \<and>
        tracking_change d d')"

lemma token_permits_cong:
  "rq_header r1 = rq_header r \<Longrightarrow> rq_method r1 = rq_method r \<Longrightarrow> token_permits d r1 d' = token_permits d r d'"
  by (simp add: token_permits_def admits_def header_get_def)

lemma permitted_ok: "permitted cl d d' \<Longrightarrow> db_ok d \<Longrightarrow> db_ok d'"
  by (auto simp: permitted_def own_account_change_def change_defs dest: same_tables_ok)

lemma fresh_set_header [simp]: "fresh (set_header k v w) = fresh w"
  by (simp add: fresh_def)

lemma New_cases:
  assumes "New a rt r w S = (w', S')" and "fresh w"
  shows "\<exists>r1 w1 S1. ServeMux (main_routes a rt) r1 w1 S = (w', S1) \<and> sv_store S' = sv_store S1 \<and> fresh w1 \<and>
    rq_header r1 = rq_header r \<and> rq_clock r1 = rq_clock r \<and> rq_method r1 = rq_method r \<and>
    rq_segments r1 = rq_segments r \<and> rq_claims r1 = rq_claims r"
proof -
  obtain w1 where w1: "Logging (\<lambda>entry S. S\<lparr>sv_log := sv_log S @ [entry]\<rparr>)
      (BodyLimit (2 ^ 20) (ServeMux (main_routes a rt))) r w1 S = (w', S')" and f1: "fresh w1"
    using assms by (simp add: New_def SecurityHeaders_def)
  obtain w2 S1 where "BodyLimit (2 ^ 20) (ServeMux (main_routes a rt)) r (w1\<lparr>w_logged := 200\<rparr>) S = (w2, S1)"
    by fastforce
  moreover from this w1 have "w2 = w'" "sv_store S' = sv_store S1"
    by (auto simp: Logging_def split: if_splits)
  moreover have "fresh (w1\<lparr>w_logged := 200\<rparr>)" using f1 by (simp add: fresh_def)
  ultimately show ?thesis unfolding BodyLimit_def by fastforce
qed

lemma RateLimit_cases:
  assumes "RateLimit n get put next r w s = (w', s')"
  shows "\<exists>b. (s' = put b s \<and> w' = writeError 429 ''RATE_LIMITED'' ''rate limit exceeded'' w) \<or>
    next r w (put b s) = (w', s')"
  using assms by (auto simp: RateLimit_def split: prod.splits if_splits)

lemma CORS_cases:
  assumes "CORS next r w s = (w', s')"
  shows "s' = s \<or> next r w s = (w', s')"
  using assms by (auto simp: CORS_def Let_def split: if_splits)

text \<open>The state of the server while nothing but reading statements has run.\<close>

definition served_from :: "('s \<Rightarrow> db) \<Rightarrow> 's server \<Rightarrow> 's server \<Rightarrow> bool" where
  "served_from T S0 S \<longleftrightarrow> db_ok (T (sv_store S)) \<and> same_tables (T (sv_store S0)) (T (sv_store S)) \<and>
     S = S0\<lparr>sv_store := sv_store S\<rparr>"

subsection \<open>The store behind the server\<close>

text \<open>
  A store whose state contains the tables: the accounts and the tokens are those of the tables, and each
  group of methods changes no more of them than its handlers may.
\<close>

locale backend =
  console_store st "\<lambda>s. db_ok (tables s)" "\<lambda>s. users_of (tables s)" +
  token_store st "\<lambda>s. db_ok (tables s)" "\<lambda>s. token_of (tables s)"
  for st :: "'s Store" and tables :: "'s \<Rightarrow> db" +
  assumes reads_keep: "reading_methods st (\<lambda>s. same_tables d0 (tables s))"
    and tracking_keeps: "tracking_methods st (\<lambda>s. tracking_change d0 (tables s))"
    and management_keeps: "project_methods st (\<lambda>s. management_change d0 (tables s))"
    and deletion_keeps_rest: "project_deletion st (\<lambda>s. deletion_change d0 (tables s))"
    and accounts_keep: "account_administration st (\<lambda>s. account_change d0 (tables s))"

sublocale backend \<subseteq> reads: reading_methods st "\<lambda>s. same_tables d0 (tables s)" for d0
  by (rule reads_keep)

sublocale backend \<subseteq> tracked: tracking_methods st "\<lambda>s. tracking_change d0 (tables s)" for d0
  by (rule tracking_keeps)

sublocale backend \<subseteq> managed: project_methods st "\<lambda>s. management_change d0 (tables s)" for d0
  by (rule management_keeps)

sublocale backend \<subseteq> deleting: project_deletion st "\<lambda>s. deletion_change d0 (tables s)" for d0
  by (rule deletion_keeps_rest)

sublocale backend \<subseteq> administered: account_administration st "\<lambda>s. account_change d0 (tables s)" for d0
  by (rule accounts_keep)

sublocale backend \<subseteq> server_tokens: token_store "lift_store st" "served_from tables S0" "\<lambda>S. token_of (tables (sv_store S))" for S0
proof
  fix t S r S'
  assume "GetProjectTokenByToken (lift_store st) t S = (r, S')"
  then have g: "GetProjectTokenByToken st t (sv_store S) = (r, sv_store S')"
    and S': "S' = S\<lparr>sv_store := sv_store S'\<rparr>"
    by (auto simp: lift_store_def lift_op_def split: prod.splits)
  have same: "same_tables (tables (sv_store S)) (tables (sv_store S'))"
    using reads.get_token_keeps [OF g same_tables_refl] .
  show "token_of (tables (sv_store S')) = token_of (tables (sv_store S))" using get_token_view [OF g] .
  assume wf: "served_from tables S0 S"
  then have "S' = S0\<lparr>sv_store := sv_store S'\<rparr>"
    using S' by (cases S0; cases S; cases S') (simp add: served_from_def)
  then show "served_from tables S0 S'"
    using wf same same_tables_ok [OF same] same_tables_trans by (auto simp: served_from_def)
next
  fix t S pt S'
  assume "GetProjectTokenByToken (lift_store st) t S = (Inr pt, S')" and "served_from tables S0 S"
  then show "token_of (tables (sv_store S)) t = Some pt"
    using get_token_found [of t "sv_store S" pt]
    by (auto simp: lift_store_def lift_op_def served_from_def split: prod.splits)
next
  fix S t pt
  assume "token_of (tables (sv_store S)) t = Some pt"
  then show "tok_token pt = t" by (rule token_of_token)
qed

subsection \<open>Its routes\<close>

context backend
begin

lemma jwt_routes_safe:
  assumes "ap_store a = st"
  shows "\<forall>(p, h) \<in> set (jwt_routes a rt). jwt_safe tables (ap_lib a) h"
proof -
  have st: "ah_store (auth_handler a) = st" "ph_store (projects_handler a) = st"
    "uh_store (users_handler a) = st" "an_store (analytics_handler a) = st"
    using assms by (simp_all add: auth_handler_def projects_handler_def users_handler_def analytics_handler_def)
  have lib: "ah_lib (auth_handler a) = ap_lib a" "uh_lib (users_handler a) = ap_lib a"
    by (simp_all add: auth_handler_def users_handler_def)
  note own = administered.own_account_keeps [OF st(1) change_refl(4)]
    own_handlers_refine [OF _ _ _ st(1), unfolded lib]
  note reads = reads.analytics_keep [OF st(4) same_tables_refl]
    reads.lists_keep(1) [OF st(3) same_tables_refl] reads.lists_keep(2,3) [OF st(2) same_tables_refl]
    reads.lists_keep(5) [OF st(1) same_tables_refl]
  note management = managed.project_keep [OF st(2) change_refl(2)]
    managed.token_change_keeps [OF st(2) change_refl(2)]
  have logout: "jwt_safe tables lib (on_store Logout)" for lib by (rule jwt_safe_read) (simp add: Logout_def)

  show ?thesis
    unfolding jwt_routes_def Let_def
    by (simp del: One_nat_def, intro conjI; (rule logout | rule jwt_safe_own, erule own, erule (3) own
        | rule jwt_safe_read, erule reads | rule jwt_safe_role_read, erule reads
        | rule jwt_safe_manager, erule management
        | rule jwt_safe_deletion, erule deleting.deletion_keeps [OF st(2) change_refl(3)]
        | rule jwt_safe_administration, erule administered.administration_keeps [OF st(3) change_refl(4)],
            erule (4) administration_refines [OF _ _ _ _ st(3), unfolded lib]))
qed

lemma jwtWrapped_permitted:
  assumes "jwtWrapped a rt r w S = (w', S')" and "ap_store a = st" and "fresh w" and "db_ok (tables (sv_store S))"
  shows "S' = S \<or> (\<exists>cl. bearer a r = Some cl \<and> allowed (ap_lib a) cl (tables (sv_store S)) (tables (sv_store S')))"
  using JWTAuth_cases [OF assms(1)] jwt_safe_later [OF jwt_safe_mux [OF jwt_routes_safe [OF assms(2), of rt]], of 1]
    assms(3,4)
  by (fastforce simp: jwt_safe_def)

lemma tracking_routes_change:
  assumes "ServeMux (tracking_routes a rt) r w S = (w', S')" and "ap_store a = st"
  shows "S' = S \<or> rq_method r = ''POST'' \<and> tracking_change (tables (sv_store S)) (tables (sv_store S'))"
proof -
  have st: "th_store (tracking_handler a) = st"
    using assms(2) by (simp add: tracking_handler_def NewTrackingHandler_def)
  have pm: "pt_method (pattern_of p) = Some ''POST''"
    if "p \<in> {''POST /api/v1/track'', ''POST /api/v1/device'', ''POST /api/v1/identify''}" for p
    using that by (elim insertE emptyE; hypsubst; code_simp)
  note keep = tracked.tracking_keep [OF st change_refl(1)]
  from ServeMux_cases [OF assms(1)] show ?thesis
  proof
    assume "\<exists>p h vals. (p, h) \<in> set (tracking_routes a rt) \<and>
      match_pattern p (rq_method r) (rq_segments r) = Some vals \<and>
      h (r\<lparr>rq_path_values := vals\<rparr>) w S = (w', S')"
    then obtain p h vals where h: "(p, h) \<in> set (tracking_routes a rt)"
      "match_pattern p (rq_method r) (rq_segments r) = Some vals" "h (r\<lparr>rq_path_values := vals\<rparr>) w S = (w', S')"
      by blast
    have "tracking_change (tables (sv_store S)) (tables (sv_store S'))"
      using h(1,3) by (auto simp: tracking_routes_def dest!: on_store_cases intro: keep)
    moreover have "p \<in> pattern_of ` {''POST /api/v1/track'', ''POST /api/v1/device'', ''POST /api/v1/identify''}"
      using h(1) unfolding tracking_routes_def by (simp del: image_insert) blast
    then have "pt_method p = Some ''POST''" using pm by blast
    with h(2) have "rq_method r = ''POST''"
      by (simp add: match_pattern_def method_matches_def split: if_splits)
    ultimately show ?thesis by blast
  qed simp
qed

lemma trackingHandler_change:
  assumes "trackingHandler a rt r w S = (w', S')" and "ap_store a = st" and "fresh w" and "db_ok (tables (sv_store S))"
  shows "same_tables (tables (sv_store S)) (tables (sv_store S')) \<or>
    (\<exists>pt. token_of (tables (sv_store S)) (header_get r ''X-Token'') = Some pt \<and> admits pt r \<and> rq_method r = ''POST'' \<and>
       tracking_change (tables (sv_store S)) (tables (sv_store S')))"
proof -
  let ?put = "\<lambda>b S. S\<lparr>sv_track_buckets := b\<rparr>"
  let ?next = "RateLimit 1000 sv_track_buckets ?put (later 3 (ServeMux (tracking_routes a rt)))"
  have from0: "served_from tables S S" using assms(4) by (simp add: served_from_def)
  have "S' = S \<or> TokenAuth (lift_store st) ?next r w S = (w', S')"
    using CORS_cases assms(1,2) unfolding trackingHandler_def by metis
  then show ?thesis
  proof
    assume "TokenAuth (lift_store st) ?next r w S = (w', S')"
    from server_tokens.token_auth_cases [OF this from0 freshD(1) [OF assms(3)]] show ?thesis
    proof (elim disjE conjE exE)
      fix pt w1 S1
      assume tok: "token_of (tables (sv_store S)) (header_get r ''X-Token'') = Some pt" "admits pt r"
        and S1: "served_from tables S S1"
        and n: "?next (r\<lparr>rq_project_id := Some (tok_project_id pt)\<rparr>) w1 S1 = (w', S')"
      have "sv_store S' = sv_store S1 \<or> rq_method r = ''POST'' \<and> tracking_change (tables (sv_store S1)) (tables (sv_store S'))"
        using RateLimit_cases [OF n] tracking_routes_change [OF _ assms(2)]
        by (fastforce simp: later_def)
      moreover have "same_tables (tables (sv_store S)) (tables (sv_store S1))" "db_ok (tables (sv_store S1))"
        using S1 by (simp_all add: served_from_def)
      ultimately show ?thesis
        using tok same_tables_rows [of "tables (sv_store S)" "tables (sv_store S1)"]
        by (auto simp: tracking_change_def keeps_ok_def)
    qed (auto simp: served_from_def)
  qed simp
qed

lemma login_route_reads:
  assumes "login_route a rt r w S = (w', S')" and "ap_store a = st"
  shows "same_tables (tables (sv_store S)) (tables (sv_store S'))"
proof -
  have st: "ah_store (auth_handler a) = st" using assms(2) by (simp add: auth_handler_def)
  show ?thesis
    using RateLimit_cases [OF assms(1) [unfolded login_route_def]] reads.Login_keeps [OF st same_tables_refl]
    by (fastforce simp: later_def on_login_def split: prod.splits)
qed

lemma main_route_change:
  assumes "(p, h) \<in> set (main_routes a rt)" and "h r w S = (w', S')" and "ap_store a = st"
    and "fresh w" and "db_ok (tables (sv_store S))"
  shows "same_tables (tables (sv_store S)) (tables (sv_store S')) \<or> token_permits (tables (sv_store S)) r (tables (sv_store S')) \<or>
    (\<exists>cl. bearer a r = Some cl \<and> allowed (ap_lib a) cl (tables (sv_store S)) (tables (sv_store S')))"
proof -
  have health: "hh_store (health_handler a) = st" using assms(3) by (simp add: health_handler_def)
  have cases: "h = on_store (Health (health_handler a)) \<or> h = trackingHandler a rt \<or> h = login_route a rt \<or>
      h = jwtWrapped a rt \<or> (\<exists>c. h \<in> {RobotsTxt c, Console_Login c, Page c, Static c})"
    using assms(1) by (auto simp: main_routes_def console_routes_def split: sum.splits)
  then consider "h = on_store (Health (health_handler a))" | "h = trackingHandler a rt" | "h = login_route a rt"
    | "h = jwtWrapped a rt" | c where "h \<in> {RobotsTxt c, Console_Login c, Page c, Static c}" by blast
  then show ?thesis
  proof cases
    case 1
    then show ?thesis
      using on_store_cases assms(2) reads.lists_keep(4) [OF health same_tables_refl] by metis
  next
    case 2
    then show ?thesis
      using trackingHandler_change [OF _ assms(3-5)] assms(2) unfolding token_permits_def by blast
  next
    case 3
    then show ?thesis using login_route_reads [OF _ assms(3)] assms(2) by blast
  next
    case 4
    then have "S' = S \<or> (\<exists>cl. bearer a r = Some cl \<and> allowed (ap_lib a) cl (tables (sv_store S)) (tables (sv_store S')))"
      using jwtWrapped_permitted [OF _ assms(3-5)] assms(2) by blast
    then show ?thesis by auto
  next
    case 5
    then have "S' = S"
      using assms(2)
      by (auto simp: RobotsTxt_def Console_Login_def Page_def Static_def Let_def split: option.splits)
    then show ?thesis by simp
  qed
qed

lemma New_change:
  assumes "New a rt r new_writer S = (w', S')" and "ap_store a = st" and "db_ok (tables (sv_store S))"
  shows "same_tables (tables (sv_store S)) (tables (sv_store S')) \<or> token_permits (tables (sv_store S)) r (tables (sv_store S')) \<or>
     (\<exists>cl. bearer a r = Some cl \<and> allowed (ap_lib a) cl (tables (sv_store S)) (tables (sv_store S')))"
proof -
  obtain r1 w1 S1 where m: "ServeMux (main_routes a rt) r1 w1 S = (w', S1)" "fresh w1"
    and S1: "sv_store S' = sv_store S1"
    and r1: "rq_header r1 = rq_header r" "rq_clock r1 = rq_clock r" "rq_method r1 = rq_method r"
    using New_cases [OF assms(1) fresh_new_writer(1)] by blast
  have "same_tables (tables (sv_store S)) (tables (sv_store S1)) \<or> token_permits (tables (sv_store S)) r (tables (sv_store S1)) \<or>
     (\<exists>cl. bearer a r = Some cl \<and> allowed (ap_lib a) cl (tables (sv_store S)) (tables (sv_store S1)))"
    using ServeMux_cases [OF m(1)]
  proof
    assume "\<exists>p h vals. (p, h) \<in> set (main_routes a rt) \<and>
      match_pattern p (rq_method r1) (rq_segments r1) = Some vals \<and>
      h (r1\<lparr>rq_path_values := vals\<rparr>) w1 S = (w', S1)"
    then obtain p h vals where "(p, h) \<in> set (main_routes a rt)" "h (r1\<lparr>rq_path_values := vals\<rparr>) w1 S = (w', S1)"
      by blast
    from main_route_change [OF this assms(2) m(2) assms(3)]
    show ?thesis
      using token_permits_cong [of "r1\<lparr>rq_path_values := vals\<rparr>" r] bearer_cong [of "r1\<lparr>rq_path_values := vals\<rparr>" r a]
        r1 by simp
  qed simp
  then show ?thesis unfolding S1 .
qed

lemma access_control:
  assumes "New a rt r new_writer S = (w', S')" and "ap_store a = st" and "db_ok (tables (sv_store S))"
  shows "db_ok (tables (sv_store S')) \<and>
    (same_tables (tables (sv_store S)) (tables (sv_store S')) \<or>
     token_permits (tables (sv_store S)) r (tables (sv_store S')) \<or>
     (\<exists>cl. bearer a r = Some cl \<and> permitted cl (tables (sv_store S)) (tables (sv_store S'))))"
  using New_change [OF assms] assms(3) permitted_ok
  by (auto simp: allowed_def token_permits_def tracking_change_def keeps_ok_def dest: same_tables_ok)

lemma refines_accounts:
  assumes "New a rt r new_writer S = (w', S')" and "ap_store a = st" and "db_ok (tables (sv_store S))"
  shows "users_of (tables (sv_store S')) = users_of (tables (sv_store S)) \<or>
    (\<exists>cl. bearer a r = Some cl \<and>
       account_step (ap_lib a) cl (users_of (tables (sv_store S))) (users_of (tables (sv_store S'))))"
  using New_change [OF assms] same_tables_users users_of_changes(3)
  unfolding allowed_def token_permits_def by blast

end

interpretation sqlite_backend: backend SQLiteStore "\<lambda>d. d"
  by (intro backend.intro backend_axioms.intro sqlite_console.console_store_axioms sqlite_tokens.token_store_axioms
      sqlite_reads.reading_methods_axioms sqlite_tracking.tracking_methods_axioms
      sqlite_management.project_methods_axioms sqlite_deletion.project_deletion_axioms
      sqlite_accounts.account_administration_axioms)

subsection \<open>The server on SQLite\<close>

text \<open>
  C1. Access control of the whole server on SQLite: whatever the request, the tables afterwards satisfy the
  schema again, and they are unchanged unless the request carries the value of a stored, active token
  that admits its origin, is a POST, and changes only tracking data, or carries a session token the
  service accepts, and then changes only what the claims permit: the own account; projects and tokens
  from role manager on; everything of the console, and tracking data by deletion, for an admin.
\<close>

theorem server_access_control:
  assumes "New a rt r new_writer S = (w', S')" and "ap_store a = SQLiteStore" and "db_ok (sv_store S)"
  shows "db_ok (sv_store S') \<and>
    (same_tables (sv_store S) (sv_store S') \<or> token_permits (sv_store S) r (sv_store S') \<or>
     (\<exists>cl. bearer a r = Some cl \<and> permitted cl (sv_store S) (sv_store S')))"
  by (rule sqlite_backend.access_control [OF assms])

text \<open>The server of the examples, and a request of its administrator.\<close>

definition sample_console :: ConsoleHandler where
  "sample_console =
     \<lparr>ch_login_tmpl = (\<lambda>_. ''login''), ch_layout_tmpl = (\<lambda>_. ''page''), ch_pages = [], ch_static = (\<lambda>_ w. w),
      ch_robots = '''', ch_domain = ''x''\<rparr>"

definition sample_app :: "db app" where
  "sample_app =
     \<lparr>ap_store = SQLiteStore, ap_svc = NewService ''k'', ap_lib = sample_lib, ap_geo = None,
      ap_cfg = sample_config ''root'', ap_version = ''1'', ap_console = Inr sample_console\<rparr>"

definition boot :: "'s \<Rightarrow> 's server" where
  "boot s = \<lparr>sv_store = s, sv_totp = (\<lambda>_. None), sv_track_buckets = (\<lambda>_. None),
     sv_login_buckets = (\<lambda>_. None), sv_log = []\<rparr>"

definition console_request :: "string \<Rightarrow> string list \<Rightarrow> request" where
  "console_request method segs =
     (sample_request '''' '''')\<lparr>rq_method := method, rq_segments := segs,
        rq_header := [(''Authorization'', ''Bearer tok'')]\<rparr>"

text \<open>
  \<open>New\<close> with the body limit as an argument: the examples run it for every limit, since evaluating
  the limit of one MiB bit by bit would take long.
\<close>

definition New_limit :: "nat \<Rightarrow> 's app \<Rightarrow> runtime \<Rightarrow> 's server handler" where
  "New_limit n a rt =
     SecurityHeaders (Logging (\<lambda>entry S. S\<lparr>sv_log := sv_log S @ [entry]\<rparr>)
       (BodyLimit n (ServeMux (main_routes a rt))))"

lemma New_limit: "New a rt = New_limit (2 ^ 20) a rt"
  by (simp only: New_def New_limit_def)

lemma server_access_control_witness:
  "let d' = sv_store (snd (New sample_app (sample_runtime TNull)
        (console_request ''DELETE'' [''api'', ''v1'', ''projects'', ''1'']) new_writer (boot sample_db)))
   in permitted \<lparr>cl_user_id = 1, cl_username = ''ann'', cl_role = ''admin''\<rparr> sample_db d' \<and>
      map prj_id (projects d') = [2]"
proof -
  let ?rt = "sample_runtime TNull" and ?r = "console_request ''DELETE'' [''api'', ''v1'', ''projects'', ''1'']"
  let ?res = "New sample_app ?rt ?r new_writer (boot sample_db)"
  have st: "ap_store sample_app = SQLiteStore" by (simp add: sample_app_def)
  have d: "sv_store (boot sample_db) = sample_db" by (simp add: boot_def)
  have "map prj_id (projects (sv_store (snd (New_limit n sample_app ?rt ?r new_writer (boot sample_db))))) = [2]" for n
    by code_simp
  then have ps: "map prj_id (projects (sv_store (snd ?res))) = [2]" unfolding New_limit .
  have old: "map prj_id (projects sample_db) = [1, 2]" "token_of sample_db (header_get ?r ''X-Token'') = None"
    "bearer sample_app ?r = Some \<lparr>cl_user_id = 1, cl_username = ''ann'', cl_role = ''admin''\<rparr>" by code_simp+
  have "\<not> same_tables sample_db (sv_store (snd ?res))"
    using ps old(1) same_tables_rows(1) by force
  with server_access_control [OF surjective_pairing st, of "boot sample_db" ?rt ?r] ps old show ?thesis
    by (simp add: d sample_db_ok Let_def token_permits_def)
qed

text \<open>
  C2. The server refines the machine of the accounts: each request, on any route, leaves the accounts as
  they are or carries a session token the service accepts and is one action of that machine by its holder
  (a password only with the old one, a second factor switched on only with password and code, switched
  off only with the password, other accounts only by an administrator and never the own one).
\<close>

theorem server_refines_accounts:
  assumes "New a rt r new_writer S = (w', S')" and "ap_store a = SQLiteStore" and "db_ok (sv_store S)"
  shows "users_of (sv_store S') = users_of (sv_store S) \<or>
    (\<exists>cl. bearer a r = Some cl \<and> account_step (ap_lib a) cl (users_of (sv_store S)) (users_of (sv_store S')))"
  by (rule sqlite_backend.refines_accounts [OF assms])

lemma server_refines_accounts_witness:
  "let d' = sv_store (snd (New sample_app (sample_runtime TNull)
        (console_request ''POST'' [''api'', ''v1'', ''auth'', ''totp'', ''setup'']) new_writer (boot sample_db)))
   in account_step sample_lib \<lparr>cl_user_id = 1, cl_username = ''ann'', cl_role = ''admin''\<rparr>
        (users_of sample_db) (users_of d') \<and>
      map_option cu_totp_secret (users_of d' 1) = Some (Some ''s'')"
proof -
  let ?rt = "sample_runtime TNull" and ?r = "console_request ''POST'' [''api'', ''v1'', ''auth'', ''totp'', ''setup'']"
  let ?res = "New sample_app ?rt ?r new_writer (boot sample_db)"
  have st: "ap_store sample_app = SQLiteStore" "ap_lib sample_app = sample_lib" by (simp_all add: sample_app_def)
  have d: "sv_store (boot sample_db) = sample_db" by (simp add: boot_def)
  have "map_option cu_totp_secret (users_of (sv_store (snd (New_limit n sample_app ?rt ?r new_writer (boot sample_db)))) 1) =
      Some (Some ''s'')" for n
    by code_simp
  then have us: "map_option cu_totp_secret (users_of (sv_store (snd ?res)) 1) = Some (Some ''s'')" unfolding New_limit .
  have b: "bearer sample_app ?r = Some \<lparr>cl_user_id = 1, cl_username = ''ann'', cl_role = ''admin''\<rparr>"
    "map_option cu_totp_secret (users_of sample_db 1) = Some None" by code_simp+
  have "users_of (sv_store (snd ?res)) \<noteq> users_of sample_db" using us b(2) by auto
  then have "account_step sample_lib \<lparr>cl_user_id = 1, cl_username = ''ann'', cl_role = ''admin''\<rparr>
      (users_of sample_db) (users_of (sv_store (snd ?res)))"
    using server_refines_accounts [OF surjective_pairing st(1), of "boot sample_db" ?rt ?r] b(1)
    by (simp add: d st(2) sample_db_ok)
  with us show ?thesis by (simp add: Let_def)
qed

definition demoted_db :: db where
  "demoted_db = sample_db\<lparr>console_users := map (\<lambda>u. u\<lparr>cu_role := ''viewer''\<rparr>) (console_users sample_db)\<rparr>"

lemma demoted_run:
  "map prj_id (projects (sv_store (snd (New_limit n sample_app (sample_runtime TNull)
     (console_request ''DELETE'' [''api'', ''v1'', ''projects'', ''1'']) new_writer (boot demoted_db))))) = [2]"
  by code_simp

text \<open>
  The role that counts is the token's, not the account's: every stored account is a viewer here, and the
  session token that account 1 got when it was admin still deletes a project.
\<close>

theorem stale_role_still_deletes:
  "map cu_role (console_users demoted_db) = [''viewer'', ''viewer''] \<and>
   map prj_id (projects demoted_db) = [1, 2] \<and>
   map prj_id (projects (sv_store (snd (New sample_app (sample_runtime TNull)
     (console_request ''DELETE'' [''api'', ''v1'', ''projects'', ''1'']) new_writer (boot demoted_db))))) = [2]"
  unfolding New_limit demoted_run by code_simp

end
