(* ===== verification/Server_Frame.thy ===== *)
theory Server_Frame
  imports Access Jobs
begin

text \<open>
  The server touches its store only through the store's methods: whatever every method keeps, every
  request keeps, on any route and with any body.
\<close>

definition keeps :: "('s \<Rightarrow> bool) \<Rightarrow> 's server handler \<Rightarrow> bool" where
  "keeps I h \<longleftrightarrow> (\<forall>r w S w' S'. h r w S = (w', S') \<longrightarrow> I (sv_store S) \<longrightarrow> I (sv_store S'))"

lemma keepsI:
  "(\<And>r w S w' S'. h r w S = (w', S') \<Longrightarrow> I (sv_store S) \<Longrightarrow> I (sv_store S')) \<Longrightarrow> keeps I h"
  unfolding keeps_def by blast

lemma keepsD: "keeps I h \<Longrightarrow> h r w S = (w', S') \<Longrightarrow> I (sv_store S) \<Longrightarrow> I (sv_store S')"
  unfolding keeps_def by blast

subsection \<open>The middlewares\<close>

lemma keeps_on_store: "(\<And>r w s w' s'. h r w s = (w', s') \<Longrightarrow> I s \<Longrightarrow> I s') \<Longrightarrow> keeps I (on_store h)"
  by (rule keepsI) (blast dest: on_store_cases)

lemma keeps_later: "keeps I h \<Longrightarrow> keeps I (later n h)"
  by (rule keepsI) (auto simp: later_def dest: keepsD)

lemma keeps_role: "keeps I h \<Longrightarrow> keeps I (RequireRole role h)"
  by (rule keepsI) (auto simp: RequireRole_def split: option.splits if_splits dest: keepsD)

lemma keeps_cors: "keeps I h \<Longrightarrow> keeps I (CORS h)"
  by (rule keepsI) (use CORS_cases keepsD in metis)

lemma keeps_rate_limit:
  assumes "keeps I h" and "\<And>b S. sv_store (put b S) = sv_store S"
  shows "keeps I (RateLimit n get put h)"
proof (rule keepsI)
  fix r w S w' S' assume "RateLimit n get put h r w S = (w', S')" "I (sv_store S)"
  then show "I (sv_store S')" using RateLimit_cases [of n get put h r w S w' S'] keepsD [OF assms(1)] assms(2) by metis
qed

lemma keeps_mux: "\<forall>(p, h) \<in> set routes. keeps I h \<Longrightarrow> keeps I (ServeMux routes)"
proof (rule keepsI)
  fix r w S w' S'
  assume "\<forall>(p, h) \<in> set routes. keeps I h" "ServeMux routes r w S = (w', S')" "I (sv_store S)"
  then show "I (sv_store S')" using ServeMux_cases [of routes r w S w' S'] by (fastforce dest: keepsD)
qed

lemma keeps_jwt: "keeps I h \<Longrightarrow> keeps I (\<lambda>r. JWTAuth (v r) h r)"
  by (rule keepsI) (auto simp: JWTAuth_def Let_def split: if_splits option.splits dest: keepsD)

lemma keeps_new: "keeps I (ServeMux (main_routes a rt)) \<Longrightarrow> keeps I (New a rt)"
proof (rule keepsI)
  fix r w S w' S'
  assume k: "keeps I (ServeMux (main_routes a rt))" and n: "New a rt r w S = (w', S')" and "I (sv_store S)"
  obtain w1 w2 S1 n1 where "BodyLimit n1 (ServeMux (main_routes a rt)) r w1 S = (w2, S1)" "sv_store S' = sv_store S1"
    using n by (auto simp: New_def SecurityHeaders_def Logging_def split: prod.splits if_splits)
  then show "I (sv_store S')" using keepsD [OF k] \<open>I (sv_store S)\<close> by (metis BodyLimit_def)
qed

subsection \<open>All routes\<close>

text \<open>Every method the server calls keeps \<open>I\<close>.\<close>

locale closed_store =
  tracking_methods st I + project_deletion st I + account_administration st I
  for st :: "'s Store" and I :: "'s \<Rightarrow> bool"
begin

lemma keeps_token_auth: "keeps I h \<Longrightarrow> keeps I (TokenAuth (lift_store st) h)"
proof (rule keepsI)
  fix r w S w' S'
  assume k: "keeps I h" and t: "TokenAuth (lift_store st) h r w S = (w', S')" and I: "I (sv_store S)"
  obtain res s1 where g: "GetProjectTokenByToken st (header_get r ''X-Token'') (sv_store S) = (res, s1)" by fastforce
  have I1: "I (sv_store (S\<lparr>sv_store := s1\<rparr>))" using get_token_keeps [OF g I] by simp
  have "S' = S \<or> S' = S\<lparr>sv_store := s1\<rparr> \<or> (\<exists>r1 w1. h r1 w1 (S\<lparr>sv_store := s1\<rparr>) = (w', S'))"
    using t g by (auto simp: TokenAuth_def lift_store_def lift_op_def Let_def split: if_splits sum.splits)
  then show "I (sv_store S')" using I I1 keepsD [OF k] by blast
qed

lemma tracking_routes_keep:
  assumes "ap_store a = st"
  shows "keeps I (trackingHandler a rt)"
proof -
  have st: "th_store (tracking_handler a) = st"
    using assms by (simp add: tracking_handler_def NewTrackingHandler_def)
  note keep = tracking_keep [OF st]
  have "\<forall>(p, h) \<in> set (tracking_routes a rt). keeps I h"
    unfolding tracking_routes_def
    by (simp, intro conjI; (rule keeps_on_store, erule (1) keep))
  then show ?thesis
    unfolding trackingHandler_def assms
    by (intro keeps_cors keeps_token_auth keeps_rate_limit keeps_later keeps_mux) simp_all
qed

lemma login_route_keeps:
  assumes "ap_store a = st"
  shows "keeps I (login_route a rt)"
proof -
  have st: "ah_store (auth_handler a) = st" using assms by (simp add: auth_handler_def)
  have "keeps I (on_login (Login (auth_handler a) rt))"
    by (rule keepsI) (auto simp: on_login_def split: prod.splits dest: Login_keeps [OF st])
  then show ?thesis unfolding login_route_def by (intro keeps_rate_limit keeps_later) simp_all
qed

lemma jwt_routes_keep:
  assumes "ap_store a = st"
  shows "keeps I (jwtWrapped a rt)"
proof -
  have st: "ah_store (auth_handler a) = st" "ph_store (projects_handler a) = st"
    "uh_store (users_handler a) = st" "an_store (analytics_handler a) = st"
    using assms by (simp_all add: auth_handler_def projects_handler_def users_handler_def analytics_handler_def)
  note keep = own_account_keeps [OF st(1)] administration_keeps [OF st(3)] analytics_keep [OF st(4)]
    lists_keep(1) [OF st(3)] lists_keep(2,3) [OF st(2)] lists_keep(5) [OF st(1)]
    project_keep [OF st(2)] token_change_keeps [OF st(2)] deletion_keeps [OF st(2)]
  have logout: "keeps I (on_store Logout)" by (rule keeps_on_store) (simp add: Logout_def)
  have "\<forall>(p, h) \<in> set (jwt_routes a rt). keeps I h"
    unfolding jwt_routes_def Let_def
    by (simp del: One_nat_def, intro conjI;
        (rule logout | rule keeps_on_store, erule (1) keep [rotated] | rule keeps_role, rule keeps_on_store, erule (1) keep [rotated]))
  then show ?thesis unfolding jwtWrapped_def by (intro keeps_jwt keeps_later keeps_mux)
qed

lemma server_keeps:
  assumes "ap_store a = st"
  shows "keeps I (New a rt)"
proof (rule keeps_new, rule keeps_mux)
  have health: "hh_store (health_handler a) = st" using assms by (simp add: health_handler_def)
  have "keeps I (on_store (Health (health_handler a)))"
    by (rule keeps_on_store) (erule (1) lists_keep(4) [OF health, rotated])
  moreover have "keeps I (RobotsTxt c)" "keeps I (Console_Login c)" "keeps I (Page c)" "keeps I (Static c)" for c
    by (rule keepsI; auto simp: RobotsTxt_def Console_Login_def Page_def Static_def Let_def split: option.splits)+
  ultimately show "\<forall>(p, h) \<in> set (main_routes a rt). keeps I h"
    using tracking_routes_keep [OF assms] login_route_keeps [OF assms] jwt_routes_keep [OF assms]
    by (auto simp: main_routes_def console_routes_def split: sum.splits)
qed

end

subsection \<open>The jobs\<close>

locale closed_program = closed_store +
  assumes cleanup_keeps: "CleanupEvents st i before s = (n, s') \<Longrightarrow> I s \<Longrightarrow> I s'"
    and retention_projects_keep: "GetProjectsWithRetention st s = (r, s') \<Longrightarrow> I s \<Longrightarrow> I s'"
begin

lemma cleanup_loop_keeps: "I s \<Longrightarrow> I (cleanup_loop st rt clock ps k s)"
  by (induction ps arbitrary: k s) (auto split: prod.split dest: cleanup_keeps)

lemma retention_pass_keeps: "I s \<Longrightarrow> I (runRetentionCleanup st rt clock s)"
  by (auto simp: runRetentionCleanup_def split: prod.split sum.split
      dest: retention_projects_keep intro: cleanup_loop_keeps)

lemma bootstrap_keeps: "bootstrapAdmin st lib cfg s = (res, s') \<Longrightarrow> I s \<Longrightarrow> I s'"
  by (auto simp: bootstrapAdmin_def split: prod.splits sum.splits option.splits if_splits
      dest: get_login_keeps create_user_keeps update_user_keeps)

end

end
