(* ===== verification/System.thy ===== *)
theory System
  imports Server_Frame
begin

text \<open>
  The running system: a process starts on a database (a new one, or that of an earlier process), makes sure
  of its administrator, and then serves requests, one step each, and runs the retention job between them.
  The maps of trackers and buckets start empty with every process.  The machine is defined for any store.
\<close>

inductive system_step :: "'s app \<Rightarrow> 's server \<Rightarrow> 's server \<Rightarrow> bool" for a where
  serve: "New a rt r new_writer S = (w', S') \<Longrightarrow> system_step a S S'"
| retention: "system_step a S (S\<lparr>sv_store := runRetentionCleanup (ap_store a) rt clock (sv_store S)\<rparr>)"

inductive system_reachable :: "'s Store \<Rightarrow> ('s \<Rightarrow> bool) \<Rightarrow> 's app \<Rightarrow> 's server \<Rightarrow> bool" for st created where
  first_start: "created s0 \<Longrightarrow> ap_store a = st \<Longrightarrow>
     bootstrapAdmin st (ap_lib a) (ap_cfg a) s0 = (Inr (), s) \<Longrightarrow> system_reachable st created a (boot s)"
| restart: "system_reachable st created a S \<Longrightarrow> ap_store a' = st \<Longrightarrow>
     bootstrapAdmin st (ap_lib a') (ap_cfg a') (sv_store S) = (Inr (), s) \<Longrightarrow> system_reachable st created a' (boot s)"
| step: "system_reachable st created a S \<Longrightarrow> system_step a S S' \<Longrightarrow> system_reachable st created a S'"

inductive_cases system_step_elim: "system_step a S S'"

lemma system_reachable_store: "system_reachable st created a S \<Longrightarrow> ap_store a = st"
  by (induction rule: system_reachable.induct) simp_all

lemma boot_store [simp]: "sv_store (boot s) = s"
  by (simp add: boot_def)

subsection \<open>What every method keeps\<close>

context closed_program
begin

lemma step_keeps: 
  assumes "system_step a S S'" and a: "ap_store a = st" and I: "I (sv_store S)"
  shows "I (sv_store S')"
  using assms(1)
proof (rule system_step_elim)
  fix rt r w'
  assume "New a rt r new_writer S = (w', S')"
  then show ?thesis using keepsD [OF server_keeps [OF a]] I by blast
next
  fix rt clock
  assume "S' = S\<lparr>sv_store := runRetentionCleanup (ap_store a) rt clock (sv_store S)\<rparr>"
  then show ?thesis using retention_pass_keeps [OF I] a by simp
qed

lemma program_keeps:
  assumes "system_reachable st created a S" and "\<And>s. created s \<Longrightarrow> I s"
  shows "I (sv_store S)"
  using assms(1)
proof (induction rule: system_reachable.induct)
  case (first_start s0 a s)
  then show ?case using bootstrap_keeps assms(2) by auto
next
  case (restart a S a' s)
  then show ?case using bootstrap_keeps by auto
next
  case (step a S S')
  then show ?case using step_keeps system_reachable_store by blast
qed

end

subsection \<open>The accounts\<close>

locale program_backend = backend +
  assumes cleanup_change: "CleanupEvents st i before s = (n, s') \<Longrightarrow> deletion_change (tables s) (tables s')"
    and retention_projects_same: "GetProjectsWithRetention st s = (r, s') \<Longrightarrow> same_tables (tables s) (tables s')"
begin

lemma cleanup_loop_change: "deletion_change (tables s) (tables (cleanup_loop st rt clock ps k s))"
proof (induction ps arbitrary: k s)
  case (Cons p ps)
  obtain n s1 where c: "CleanupEvents st (prj_id p) (retention_cutoff rt p (clock k)) s = (n, s1)" by fastforce
  show ?case using cleanup_change [OF c] Cons.IH [of s1 "Suc k"] by (simp add: c deletion_change_def keeps_ok_def)
qed simp

lemma retention_change: "deletion_change (tables s) (tables (runRetentionCleanup st rt clock s))"
proof -
  obtain r s1 where g: "GetProjectsWithRetention st s = (r, s1)" by fastforce
  have "deletion_change (tables s) (tables s1)"
    using retention_projects_same [OF g] change_same_tables(4) change_refl(3) by blast
  then show ?thesis
    using cleanup_loop_change [of s1]
    by (simp add: runRetentionCleanup_def g deletion_change_def keeps_ok_def split: sum.split)
qed

lemma system_accounts:
  assumes "system_reachable st created a S" and new: "\<And>s. created s \<Longrightarrow> db_ok (tables s) \<and> users_of (tables s) = Map.empty"
  shows "db_ok (tables (sv_store S)) \<and> accounts_reachable (users_of (tables (sv_store S)))"
  using assms(1)
proof (induction rule: system_reachable.induct)
  case (first_start s0 a s)
  then show ?case
    using bootstrap_refines [OF first_start(3)] new [OF first_start(1)] accounts_reachable.no_accounts
      accounts_reachable.booted by fastforce
next
  case (restart a S a' s)
  then show ?case using bootstrap_refines [OF restart(3)] accounts_reachable.booted by fastforce
next
  case (step a S S')
  let ?d = "tables (sv_store S)" and ?d' = "tables (sv_store S')"
  have st: "ap_store a = st" by (rule system_reachable_store [OF step(1)])
  have "db_ok ?d' \<and> (users_of ?d' = users_of ?d \<or> (\<exists>lib cl. account_step lib cl (users_of ?d) (users_of ?d')))"
    using step(2)
  proof (rule system_step_elim)
    fix rt r w'
    assume n: "New a rt r new_writer S = (w', S')"
    show ?thesis using access_control [OF n st] refines_accounts [OF n st] step.IH by blast
  next
    fix rt clock
    assume "S' = S\<lparr>sv_store := runRetentionCleanup (ap_store a) rt clock (sv_store S)\<rparr>"
    then show ?thesis
      using retention_change [of "sv_store S" rt clock] step.IH st
      by (simp add: deletion_change_def keeps_ok_def users_of_def)
  qed
  then show ?case using step.IH accounts_reachable.acted by auto
qed

end

subsection \<open>On SQLite\<close>

interpretation sqlite_program: program_backend SQLiteStore "\<lambda>d. d"
proof
  fix i before s n s'
  assume "CleanupEvents SQLiteStore i before s = (n, s')"
  then have c: "sqlite_CleanupEvents i before s = (n, s')" by (simp add: SQLiteStore_def)
  then show "deletion_change s s'"
    using cleanup_ok [OF c] cleanup_step(3) by (auto simp: deletion_change_def keeps_ok_def SQLiteStore_def)
next
  fix s r s'
  assume "GetProjectsWithRetention SQLiteStore s = (r, s')"
  then show "same_tables s s'" using reads_same(6) by (auto simp: SQLiteStore_def)
qed

interpretation sqlite_closed: closed_program SQLiteStore sqlite_reachable
  by unfold_locales (auto simp: SQLiteStore_def intro: reach_step sqlite_step.intros)

definition new_sqlite :: "db \<Rightarrow> bool" where
  "new_sqlite d \<longleftrightarrow> (\<exists>fault clock plan fmt. d = empty_db fault clock plan fmt)"

lemma new_sqlite_ok: "new_sqlite d \<Longrightarrow> db_ok d \<and> users_of d = Map.empty"
  by (auto simp: new_sqlite_def empty_db_ok) (simp add: users_of_def empty_db_def row_at_def fun_eq_iff)

text \<open>The database of a running system is one that methods of the store reach.\<close>

lemma system_database_reachable:
  "system_reachable SQLiteStore new_sqlite a S \<Longrightarrow> sqlite_reachable (sv_store S)"
  by (erule sqlite_closed.program_keeps) (auto simp: new_sqlite_def intro: reach_empty)

text \<open>
  C3. In every state the running system reaches, over requests of any kind, retention passes and restarts
  with other configurations, whatever statements fail: the schema's constraints hold, the accounts are a
  state of the machine of the accounts, and so an account whose second factor is switched on has a
  secret (\<open>Login\<close> never skips a second factor) and has one of the three roles.
\<close>

theorem system_invariant:
  assumes "system_reachable SQLiteStore new_sqlite a S"
  shows "db_ok (sv_store S) \<and> accounts_reachable (users_of (sv_store S)) \<and>
    (\<forall>i u. users_of (sv_store S) i = Some u \<longrightarrow>
       (cu_totp_enabled u \<longrightarrow> cu_totp_secret u \<noteq> None) \<and> cu_role u \<in> set roles)"
  using sqlite_program.system_accounts [OF assms new_sqlite_ok] accounts_reachable_ok accounts_okD
  by (fastforce simp: account_ok_def)

lemma system_invariant_witness:
  "let d = snd (bootstrapAdmin SQLiteStore sample_lib (sample_config ''root'')
         (empty_db (\<lambda>_. False) (\<lambda>_. 0) (\<lambda>_. rowid_plan) (\<lambda>f t. f)));
       S = snd (New sample_app (sample_runtime TNull) (console_request ''POST'' [''api'', ''v1'', ''projects''])
         new_writer (boot d))
   in map cu_username (console_users d) = [''root''] \<and> db_ok (sv_store S) \<and> accounts_reachable (users_of (sv_store S))"
proof -
  let ?res = "bootstrapAdmin SQLiteStore sample_lib (sample_config ''root'')
         (empty_db (\<lambda>_. False) (\<lambda>_. 0) (\<lambda>_. rowid_plan) (\<lambda>f t. f))"
  have run: "fst ?res = Inr ()" "map cu_username (console_users (snd ?res)) = [''root'']" by code_simp+
  have a: "ap_store sample_app = SQLiteStore" "ap_lib sample_app = sample_lib" "ap_cfg sample_app = sample_config ''root''"
    by (simp_all add: sample_app_def)
  have "new_sqlite (empty_db (\<lambda>_. False) (\<lambda>_. 0) (\<lambda>_. rowid_plan) (\<lambda>f t. f))" unfolding new_sqlite_def by blast
  from system_reachable.first_start [where created = new_sqlite, OF this a(1)]
  have "system_reachable SQLiteStore new_sqlite sample_app (boot (snd ?res))"
    using ok_pair [OF run(1)] a(2,3) by simp
  then have "system_reachable SQLiteStore new_sqlite sample_app (snd (New sample_app (sample_runtime TNull)
      (console_request ''POST'' [''api'', ''v1'', ''projects'']) new_writer (boot (snd ?res))))"
    by (rule system_reachable.step) (rule system_step.serve [OF surjective_pairing])
  from system_invariant [OF this] run(2) show ?thesis by (simp add: Let_def)
qed

end
