(* ===== verification/Postgres_Store.thy ===== *)
theory Postgres_Store
  imports Sqlite_Store
begin

text \<open>
  \<open>internal/storage/postgres.go\<close>: every method of \<open>PostgresStore\<close>.  The tables are those of the SQLite
  schema (the two migrations differ in \<open>SERIAL\<close> for \<open>INTEGER PRIMARY KEY\<close>), and where the SQL text of a
  method is that of \<open>SQLiteStore\<close> up to the placeholders, the method is that statement behind the binding
  of its parameters.  What differs: the server rejects an integer that does not fit the column's 32 bits,
  a text that is not valid UTF-8 without NUL, and a text that is no timestamp; ids come from sequences,
  which no rollback resets; the clock is not cut to seconds; periods are named by \<open>date_trunc\<close> and sorted
  by the database's collation.
\<close>

subsection \<open>The server\<close>

datatype pg_table = PgProjects | PgTokens | PgConsoleUsers | PgAppUsers | PgProperties

text \<open>
  \<open>pg_seq\<close> is the last value of the sequence behind the \<open>SERIAL\<close> id of a table; \<open>db_strftime unit t\<close> of
  \<open>pg_db\<close> stands for \<open>date_trunc(unit, t)::text\<close>; \<open>pg_collate\<close> maps a text to its key in the collation's order.
\<close>

record pg =
  pg_db :: db
  pg_seq :: "pg_table \<Rightarrow> int"
  pg_text_ok :: "string \<Rightarrow> bool"
  pg_timestamp_ok :: "string \<Rightarrow> bool"
  pg_collate :: "string \<Rightarrow> string"

definition int4 :: "int \<Rightarrow> bool" where
  "int4 i \<longleftrightarrow> - (2 ^ 31) \<le> i \<and> i < 2 ^ 31"

definition binds :: "pg \<Rightarrow> int list \<Rightarrow> string list \<Rightarrow> bool" where
  "binds s ints texts \<longleftrightarrow> (\<forall>i \<in> set ints. int4 i) \<and> (\<forall>t \<in> set texts. pg_text_ok s t)"

definition pg_tick :: "pg \<Rightarrow> pg" where
  "pg_tick s = s\<lparr>pg_db := tick_db (pg_db s)\<rparr>"

text \<open>A statement with parameters for \<open>INTEGER\<close> and \<open>TEXT\<close> columns; \<open>f\<close> is what it does once they are bound.\<close>

definition pg_stmt :: "int list \<Rightarrow> string list \<Rightarrow> ('a, db) op \<Rightarrow> ('a, pg) op" where
  "pg_stmt ints texts f s =
     (if binds s ints texts then (case f (pg_db s) of (r, d) \<Rightarrow> (r, s\<lparr>pg_db := d\<rparr>))
      else (Inl ErrDriver, pg_tick s))"

text \<open>
  An insertion with a \<open>SERIAL\<close> id, which \<open>nextval\<close> draws before any constraint is checked and which is
  spent even when the insertion fails; past \<open>2 ^ 31 - 1\<close> the sequence fails.
\<close>

definition pg_serial :: "pg_table \<Rightarrow> int list \<Rightarrow> string list \<Rightarrow> (int \<Rightarrow> ('a, db) op) \<Rightarrow> ('a, pg) op" where
  "pg_serial tab ints texts f s =
     (let i = pg_seq s tab + 1
      in if binds s ints texts \<and> int4 i
         then (case f i (pg_db s) of (r, d) \<Rightarrow> (r, s\<lparr>pg_db := d, pg_seq := (pg_seq s)(tab := i)\<rparr>))
         else (Inl ErrDriver, pg_tick s))"

definition pg_now :: "db \<Rightarrow> instant" where
  "pg_now d = db_clock d (db_tick d)"

definition opt :: "'a option \<Rightarrow> 'a list" where
  "opt x = (case x of None \<Rightarrow> [] | Some v \<Rightarrow> [v])"

subsection \<open>Console users\<close>

definition pg_CreateConsoleUser :: "ConsoleUser \<Rightarrow> (ConsoleUser, pg) op" where
  "pg_CreateConsoleUser user =
     pg_serial PgConsoleUsers []
       ([cu_username user, cu_password_hash user, cu_role user] @ opt (cu_email user) @ opt (cu_totp_secret user))
       (\<lambda>i. run_stmt (\<lambda>d.
          if i \<in> set (map cu_id (console_users d)) \<or> cu_role user \<notin> set roles
             \<or> user_conflict user (console_users d) then (Inl ErrConstraint, d)
          else (Inr (user\<lparr>cu_id := i\<rparr>),
                d\<lparr>console_users := console_users d @ [user\<lparr>cu_id := i, cu_created_at := pg_now d\<rparr>]\<rparr>)))"

definition pg_GetConsoleUserByID :: "int \<Rightarrow> (ConsoleUser, pg) op" where
  "pg_GetConsoleUserByID i = pg_stmt [i] [] (sqlite_GetConsoleUserByID i)"

definition pg_GetConsoleUserByLogin :: "string \<Rightarrow> (ConsoleUser, pg) op" where
  "pg_GetConsoleUserByLogin login = pg_stmt [] [login] (sqlite_GetConsoleUserByLogin login)"

definition pg_UpdateConsoleUser :: "ConsoleUser \<Rightarrow> (unit, pg) op" where
  "pg_UpdateConsoleUser user =
     pg_stmt [cu_id user]
       ([cu_username user, cu_password_hash user, cu_role user] @ opt (cu_email user) @ opt (cu_totp_secret user))
       (sqlite_UpdateConsoleUser user)"

definition pg_DeleteConsoleUser :: "int \<Rightarrow> (unit, pg) op" where
  "pg_DeleteConsoleUser i = pg_stmt [i] [] (sqlite_DeleteConsoleUser i)"

definition pg_ListConsoleUsers :: "(ConsoleUser list, pg) op" where
  "pg_ListConsoleUsers = pg_stmt [] [] sqlite_ListConsoleUsers"

subsection \<open>Projects\<close>

definition pg_CreateProject :: "Project \<Rightarrow> (Project, pg) op" where
  "pg_CreateProject p =
     pg_serial PgProjects [prj_retention_days p] [prj_name p]
       (\<lambda>i. run_stmt (\<lambda>d.
          if i \<in> set (map prj_id (projects d)) then (Inl ErrConstraint, d)
          else (Inr (p\<lparr>prj_id := i\<rparr>), d\<lparr>projects := projects d @ [p\<lparr>prj_id := i, prj_created_at := pg_now d\<rparr>]\<rparr>)))"

definition pg_GetProject :: "int \<Rightarrow> (Project, pg) op" where
  "pg_GetProject i = pg_stmt [i] [] (sqlite_GetProject i)"

definition pg_UpdateProject :: "Project \<Rightarrow> (unit, pg) op" where
  "pg_UpdateProject p = pg_stmt [prj_retention_days p, prj_id p] [prj_name p] (sqlite_UpdateProject p)"

definition pg_DeleteProject :: "int \<Rightarrow> (unit, pg) op" where
  "pg_DeleteProject i = pg_stmt [i] [] (sqlite_DeleteProject i)"

definition pg_ListProjects :: "(Project list, pg) op" where
  "pg_ListProjects = pg_stmt [] [] sqlite_ListProjects"

subsection \<open>Project tokens\<close>

definition pg_CreateProjectToken :: "ProjectToken \<Rightarrow> (ProjectToken, pg) op" where
  "pg_CreateProjectToken t =
     pg_serial PgTokens [tok_project_id t] [tok_token t, tok_label t, encodeOrigins (tok_allowed_origins t)]
       (\<lambda>i. run_stmt (\<lambda>d.
          if i \<in> set (map tk_id (project_tokens d)) \<or> tok_token t \<in> set (map tk_token (project_tokens d))
             \<or> tok_project_id t \<notin> set (map prj_id (projects d)) then (Inl ErrConstraint, d)
          else (Inr (t\<lparr>tok_id := i\<rparr>), d\<lparr>project_tokens := project_tokens d @
             [\<lparr>tk_id = i, tk_project_id = tok_project_id t, tk_token = tok_token t, tk_label = tok_label t,
               tk_active = tok_active t, tk_allowed_origins = encodeOrigins (tok_allowed_origins t),
               tk_created_at = pg_now d, tk_disabled_at = None\<rparr>]\<rparr>)))"

definition pg_GetProjectTokenByToken :: "string \<Rightarrow> (ProjectToken, pg) op" where
  "pg_GetProjectTokenByToken token = pg_stmt [] [token] (sqlite_GetProjectTokenByToken token)"

definition pg_ListProjectTokens :: "int \<Rightarrow> (ProjectToken list, pg) op" where
  "pg_ListProjectTokens pid = pg_stmt [pid] [] (sqlite_ListProjectTokens pid)"

definition pg_UpdateProjectToken :: "ProjectToken \<Rightarrow> (unit, pg) op" where
  "pg_UpdateProjectToken t =
     pg_stmt [tok_id t] [tok_label t, encodeOrigins (tok_allowed_origins t)] (sqlite_UpdateProjectToken t)"

definition pg_DeleteProjectToken :: "int \<Rightarrow> (unit, pg) op" where
  "pg_DeleteProjectToken i = pg_stmt [i] [] (sqlite_DeleteProjectToken i)"

subsection \<open>Devices and users\<close>

definition pg_UpsertDevice :: "Device \<Rightarrow> (unit, pg) op" where
  "pg_UpsertDevice x =
     pg_stmt [dev_project_id x] [dev_id x, dev_platform x, dev_os_version x, dev_app_version x, dev_locale x]
       (run_stmt (\<lambda>d.
          if dev_id x \<in> set (map d_id (devices d)) then
            (Inr (), d\<lparr>devices :=
               map (\<lambda>r. if d_id r = dev_id x
                        then r\<lparr>d_os_version := Some (dev_os_version x), d_app_version := Some (dev_app_version x),
                               d_locale := Some (dev_locale x), d_last_seen_at := pg_now d\<rparr> else r)
                 (devices d)\<rparr>)
          else if dev_project_id x \<notin> set (map prj_id (projects d)) then (Inl ErrConstraint, d)
          else
            (Inr (), d\<lparr>devices := devices d @
               [\<lparr>d_id = dev_id x, d_project_id = dev_project_id x, d_user_id = None, d_platform = dev_platform x,
                 d_os_version = Some (dev_os_version x), d_app_version = Some (dev_app_version x),
                 d_locale = Some (dev_locale x), d_first_seen_at = pg_now d, d_last_seen_at = pg_now d\<rparr>]\<rparr>)))"

definition pg_GetDevice :: "string \<Rightarrow> (Device, pg) op" where
  "pg_GetDevice i = pg_stmt [] [i] (sqlite_GetDevice i)"

definition pg_LinkDeviceToUser :: "string \<Rightarrow> int \<Rightarrow> (unit, pg) op" where
  "pg_LinkDeviceToUser dev uid = pg_stmt [uid] [dev] (sqlite_LinkDeviceToUser dev uid)"

definition pg_insert_app_user :: "int \<Rightarrow> string \<Rightarrow> (int, pg) op" where
  "pg_insert_app_user pid a =
     pg_serial PgAppUsers [pid] [a]
       (\<lambda>i. run_stmt (\<lambda>d.
          if i \<in> set (map au_id (app_users d))
             \<or> (pid, a) \<in> set (map (\<lambda>u. (au_project_id u, au_anonymous_id u)) (app_users d))
             \<or> pid \<notin> set (map prj_id (projects d)) then (Inl ErrConstraint, d)
          else (Inr i, d\<lparr>app_users := app_users d @
                 [\<lparr>au_id = i, au_project_id = pid, au_anonymous_id = a, au_created_at = pg_now d\<rparr>]\<rparr>)))"

definition pg_GetOrCreateAppUser :: "int \<Rightarrow> string \<Rightarrow> (AppUser, pg) op" where
  "pg_GetOrCreateAppUser pid a s0 =
     (case pg_stmt [pid] [a] (query (\<lambda>d. query_row (scan d
             (filter (\<lambda>u. au_project_id u = pid \<and> au_anonymous_id u = a) (app_users d))))) s0 of
        (Inr u, s1) \<Rightarrow> (Inr u, s1)
      | (Inl err, s1) \<Rightarrow>
          if err \<noteq> ErrNoRows then (Inl err, s1)
          else (case pg_insert_app_user pid a s1 of
                  (Inl err, s2) \<Rightarrow> (Inl err, s2)
                | (Inr i, s2) \<Rightarrow>
                    (Inr \<lparr>au_id = i, au_project_id = pid, au_anonymous_id = a,
                          au_created_at = go_zero_time\<rparr>, s2)))"

subsection \<open>Events\<close>

text \<open>
  \<open>ON CONFLICT(id) DO NOTHING\<close>.  The column \<open>timestamp\<close> holds the instant the text denotes; no query reads
  it, and the model keeps the text.
\<close>

definition pg_InsertEvent :: "Event \<Rightarrow> (bool, pg) op" where
  "pg_InsertEvent ev s =
     (if \<not> pg_timestamp_ok s (ev_timestamp ev) then (Inl ErrDriver, pg_tick s)
      else pg_stmt (ev_project_id ev # opt (ev_user_id ev))
        ([ev_id ev, ev_device_id ev, ev_name ev] @ opt (nullStr (ev_ip_address ev)) @
         opt (nullStr (ev_country ev)) @ opt (nullStr (ev_city ev)))
        (run_stmt (\<lambda>d.
           if ev_id ev \<in> set (map e_id (events d)) then (Inr False, d)
           else if ev_project_id ev \<notin> set (map prj_id (projects d))
                \<or> ev_device_id ev \<notin> set (map d_id (devices d)) \<or> \<not> user_ref_ok d (ev_user_id ev)
           then (Inl ErrConstraint, d)
           else (Inr True, d\<lparr>events := events d @ [event_row (pg_now d) ev]\<rparr>))) s)"

definition pg_insert_property :: "EventProperty \<Rightarrow> (unit, pg) op" where
  "pg_insert_property p =
     pg_serial PgProperties []
       ([ep_event_id p, ep_key p, ep_value_type p] @ opt (ep_value_string p))
       (\<lambda>i. run_stmt (\<lambda>d.
          if i \<in> set (map ep_id (event_properties d)) \<or> ep_value_type p \<notin> set value_types
             \<or> ep_event_id p \<notin> set (map e_id (events d)) then (Inl ErrConstraint, d)
          else (Inr (), d\<lparr>event_properties := event_properties d @ [p\<lparr>ep_id := i\<rparr>]\<rparr>)))"

fun pg_insert_properties :: "EventProperty list \<Rightarrow> (unit, pg) op" where
  "pg_insert_properties [] s = (Inr (), s)"
| "pg_insert_properties (p # ps) s =
     (case pg_insert_property p s of
        (Inl err, s') \<Rightarrow> (Inl err, s')
      | (Inr _, s') \<Rightarrow> pg_insert_properties ps s')"

text \<open>A rollback restores the tables, not the sequences.\<close>

definition pg_rollback_to :: "pg \<Rightarrow> pg \<Rightarrow> pg" where
  "pg_rollback_to start s = s\<lparr>pg_db := rollback_to (pg_db start) (pg_db s)\<rparr>"

definition pg_InsertEventProperties :: "EventProperty list \<Rightarrow> (unit, pg) op" where
  "pg_InsertEventProperties props s0 =
     (case pg_stmt [] [] nop_stmt s0 of \<comment> \<open>BeginTx\<close>
        (Inl err, s1) \<Rightarrow> (Inl err, s1)
      | (Inr _, s1) \<Rightarrow>
          (case pg_stmt [] [] nop_stmt s1 of \<comment> \<open>PrepareContext\<close>
             (Inl err, s2) \<Rightarrow> (Inl err, pg_rollback_to s1 s2)
           | (Inr _, s2) \<Rightarrow>
               (case pg_insert_properties props s2 of
                  (Inl err, s3) \<Rightarrow> (Inl err, pg_rollback_to s1 s3)
                | (Inr _, s3) \<Rightarrow>
                    (case pg_stmt [] [] nop_stmt s3 of \<comment> \<open>Commit\<close>
                       (Inl err, s4) \<Rightarrow> (Inl err, pg_rollback_to s1 s4)
                     | (Inr _, s4) \<Rightarrow> (Inr (), s4)))))"

definition pg_GetDeviceUserID :: "string \<Rightarrow> (int option, pg) op" where
  "pg_GetDeviceUserID dev = pg_stmt [] [dev] (sqlite_GetDeviceUserID dev)"

definition pg_CleanupEvents :: "int \<Rightarrow> instant \<Rightarrow> (nat, pg) op" where
  "pg_CleanupEvents pid before = pg_stmt [pid] [] (sqlite_CleanupEvents pid before)"

definition pg_GetProjectsWithRetention :: "(Project list, pg) op" where
  "pg_GetProjectsWithRetention = pg_stmt [] [] sqlite_GetProjectsWithRetention"

subsection \<open>Analytics\<close>

definition pgDateTrunc :: "string \<Rightarrow> string" where
  "pgDateTrunc interval =
     (if interval = ''hour'' then ''hour''
      else if interval = ''week'' then ''week''
      else if interval = ''month'' then ''month''
      else ''day'')"

definition pg_time_series :: "(string \<Rightarrow> string) \<Rightarrow> string list \<Rightarrow> TimeSeriesPoint list" where
  "pg_time_series collate periods =
     map (\<lambda>(p, c). \<lparr>tsp_timestamp = p, tsp_count = c\<rparr>)
       (sort_key (\<lambda>g. collate (fst g)) (group_counts periods))"

definition pg_GetOverview :: "int \<Rightarrow> instant \<Rightarrow> instant \<Rightarrow> (AnalyticsOverview, pg) op" where
  "pg_GetOverview pid lo hi s0 =
     (let (active, s1) = pg_stmt [pid] [] (query (\<lambda>d. Inr (length (remdups (map e_device_id (events_in pid lo hi d)))))) s0;
          (total, s2) = pg_stmt [pid] [] (query (\<lambda>d. Inr (length (events_in pid lo hi d)))) s1;
          (evs, s3) = pg_stmt [pid] [] (query (\<lambda>d. Inr (sql_limit 10 0 (order_by_count
             (group_counts (scan d (map e_name (events_in pid lo hi d)))))))) s2;
          (countries, s4) = pg_stmt [pid] [] (query (\<lambda>d. Inr (sql_limit 10 0 (order_by_count
             (group_counts (scan d (map e_country (events_in pid lo hi d)))))))) s3
      in (Inr \<lparr>ao_active_devices = or_else 0 active, ao_total_events = or_else 0 total,
               ao_top_events = event_counts (or_else [] evs) name_count,
               ao_top_countries = event_counts (or_else [] countries) country_count\<rparr>, s4))"

definition pg_GetEventsAnalytics ::
  "int \<Rightarrow> instant \<Rightarrow> instant \<Rightarrow> string \<Rightarrow> int \<Rightarrow> int \<Rightarrow> (EventsAnalytics, pg) op" where
  "pg_GetEventsAnalytics pid lo hi interval limit offset s0 =
     (case pg_stmt [pid] [] (query (\<lambda>d. Inr (sql_limit limit offset (order_by_count
             (group_counts (scan d (map e_name (events_in pid lo hi d)))))))) s0 of
        (Inl err, s1) \<Rightarrow> (Inl err, s1)
      | (Inr evs, s1) \<Rightarrow>
          (let trunc = pgDateTrunc interval;
               (series, s2) = pg_stmt [pid] [] (query (\<lambda>d. Inr (pg_time_series (pg_collate s1)
                  (map (\<lambda>e. db_strftime d trunc (e_created_at e)) (events_in pid lo hi d))))) s1
           in (Inr \<lparr>ea_events = event_counts evs name_count, ea_time_series = or_else [] series\<rparr>, s2)))"

fun pg_property_breakdowns :: "int \<Rightarrow> string \<Rightarrow> instant \<Rightarrow> instant \<Rightarrow> (string \<times> string) list \<Rightarrow> pg
    \<Rightarrow> PropertyBreakdown list \<times> pg" where
  "pg_property_breakdowns pid name lo hi [] s = ([], s)"
| "pg_property_breakdowns pid name lo hi ((key, typ) # rest) s0 =
     (let (vals, s1) = pg_stmt [pid] [name, key] (query (\<lambda>d. Inr (sql_limit 20 0 (order_by_count (group_counts (scan d
            (map (column_value (propertyValueColumn typ))
              (filter (\<lambda>p. ep_key p = key) (joined_properties pid name lo hi d))))))))) s0;
          (pbs, s2) = pg_property_breakdowns pid name lo hi rest s1
      in (\<lparr>pb_key = key, pb_type = typ,
           pb_values = event_counts (or_else [] vals) (\<lambda>v n. \<lparr>pv_value = v, pv_count = n\<rparr>)\<rparr> # pbs, s2))"

definition pg_GetEventProperties ::
  "int \<Rightarrow> string \<Rightarrow> instant \<Rightarrow> instant \<Rightarrow> int \<Rightarrow> int \<Rightarrow> (PropertyAnalytics, pg) op" where
  "pg_GetEventProperties pid name lo hi limit offset s0 =
     (case pg_stmt [pid] [name] (query (\<lambda>d. Inr (sql_limit limit offset (remdups (scan d
             (map (\<lambda>p. (ep_key p, ep_value_type p)) (joined_properties pid name lo hi d))))))) s0 of
        (Inl err, s1) \<Rightarrow> (Inl err, s1)
      | (Inr keys, s1) \<Rightarrow>
          (case pg_property_breakdowns pid name lo hi keys s1 of
             (pbs, s2) \<Rightarrow> (Inr \<lparr>pa_properties = pbs\<rparr>, s2)))"

definition pg_GetDevicesAnalytics :: "int \<Rightarrow> instant \<Rightarrow> instant \<Rightarrow> (DevicesAnalytics, pg) op" where
  "pg_GetDevicesAnalytics pid lo hi = pg_stmt [pid] [] (sqlite_GetDevicesAnalytics pid lo hi)"

definition pg_GetGeoAnalytics ::
  "int \<Rightarrow> instant \<Rightarrow> instant \<Rightarrow> int \<Rightarrow> int \<Rightarrow> (GeoAnalytics, pg) op" where
  "pg_GetGeoAnalytics pid lo hi limit offset = pg_stmt [pid] [] (sqlite_GetGeoAnalytics pid lo hi limit offset)"

definition pg_GetUsersAnalytics ::
  "int \<Rightarrow> instant \<Rightarrow> instant \<Rightarrow> string \<Rightarrow> (UsersAnalytics, pg) op" where
  "pg_GetUsersAnalytics pid lo hi interval s0 =
     (let (total, s1) = pg_stmt [pid] [] (query (\<lambda>d. Inr (length (filter (\<lambda>u. au_project_id u = pid) (app_users d))))) s0;
          trunc = pgDateTrunc interval;
          (series, s2) = pg_stmt [pid] [] (query (\<lambda>d. Inr (pg_time_series (pg_collate s1)
             (map (\<lambda>u. db_strftime d trunc (au_created_at u))
               (filter (\<lambda>u. au_project_id u = pid \<and> between lo hi (au_created_at u)) (app_users d)))))) s1
      in (Inr \<lparr>ua_time_series = or_else [] series, ua_total = or_else 0 total\<rparr>, s2))"

definition pg_GetRetentionAnalytics :: "int \<Rightarrow> instant \<Rightarrow> instant \<Rightarrow> (RetentionAnalytics, pg) op" where
  "pg_GetRetentionAnalytics pid lo hi s = (Inr \<lparr>ra_cohorts = []\<rparr>, s)"

subsection \<open>The store\<close>

definition PostgresStore :: "pg Store" where
  "PostgresStore =
     \<lparr>Close = pg_stmt [] [] nop_stmt, Ping = pg_stmt [] [] nop_stmt,
      CreateConsoleUser = pg_CreateConsoleUser, GetConsoleUserByID = pg_GetConsoleUserByID,
      GetConsoleUserByLogin = pg_GetConsoleUserByLogin, UpdateConsoleUser = pg_UpdateConsoleUser,
      DeleteConsoleUser = pg_DeleteConsoleUser, ListConsoleUsers = pg_ListConsoleUsers,
      CreateProject = pg_CreateProject, GetProject = pg_GetProject,
      UpdateProject = pg_UpdateProject, DeleteProject = pg_DeleteProject,
      ListProjects = pg_ListProjects, CreateProjectToken = pg_CreateProjectToken,
      GetProjectTokenByToken = pg_GetProjectTokenByToken, ListProjectTokens = pg_ListProjectTokens,
      UpdateProjectToken = pg_UpdateProjectToken, DeleteProjectToken = pg_DeleteProjectToken,
      UpsertDevice = pg_UpsertDevice, GetDevice = pg_GetDevice,
      LinkDeviceToUser = pg_LinkDeviceToUser, GetOrCreateAppUser = pg_GetOrCreateAppUser,
      InsertEvent = pg_InsertEvent, InsertEventProperties = pg_InsertEventProperties,
      GetDeviceUserID = pg_GetDeviceUserID, CleanupEvents = pg_CleanupEvents,
      GetOverview = pg_GetOverview, GetEventsAnalytics = pg_GetEventsAnalytics,
      GetEventProperties = pg_GetEventProperties, GetDevicesAnalytics = pg_GetDevicesAnalytics,
      GetGeoAnalytics = pg_GetGeoAnalytics, GetUsersAnalytics = pg_GetUsersAnalytics,
      GetRetentionAnalytics = pg_GetRetentionAnalytics,
      GetProjectsWithRetention = pg_GetProjectsWithRetention\<rparr>"

end
