(* ===== verification/Token_Admin.thy ===== *)
theory Token_Admin
  imports Projects_Handler Sqlite_Users
begin

text \<open>
  The tracking tokens of the projects: the contract behind their administration, what the handlers of
  \<open>internal/handler/projects.go\<close> do to the tokens, and how that meets \<open>TokenAuth\<close>.
\<close>

subsection \<open>The contract\<close>

text \<open>What an update writes of a token: not its id, project, value and creation time; the origins pass through the column.\<close>

definition token_written :: "ProjectToken \<Rightarrow> ProjectToken \<Rightarrow> ProjectToken" where
  "token_written t old =
     old\<lparr>tok_label := tok_label t, tok_active := tok_active t,
         tok_allowed_origins := decodeOrigins (encodeOrigins (tok_allowed_origins t)),
         tok_disabled_at := tok_disabled_at t\<rparr>"

locale token_admin_store =
  fixes st :: "'s Store"
    and wf :: "'s \<Rightarrow> bool"
    and tokens_at :: "'s \<Rightarrow> int \<Rightarrow> ProjectToken option"
  assumes list_tokens_wf: "ListProjectTokens st p s = (q, s') \<Longrightarrow> wf s \<Longrightarrow> wf s'"
    and list_tokens_view: "ListProjectTokens st p s = (q, s') \<Longrightarrow> tokens_at s' = tokens_at s"
    and list_tokens_found: "ListProjectTokens st p s = (Inr ts, s') \<Longrightarrow> wf s \<Longrightarrow>
          t \<in> set ts \<longleftrightarrow> tokens_at s (tok_id t) = Some t \<and> tok_project_id t = p"
    and create_token_wf: "CreateProjectToken st t s = (r, s') \<Longrightarrow> wf s \<Longrightarrow> wf s'"
    and create_token_ok: "CreateProjectToken st t s = (Inr t', s') \<Longrightarrow> wf s \<Longrightarrow>
          tokens_at s (tok_id t') = None \<and> t' = t\<lparr>tok_id := tok_id t'\<rparr> \<and>
          (\<exists>c. tokens_at s' = (tokens_at s)(tok_id t' \<mapsto>
             t'\<lparr>tok_allowed_origins := decodeOrigins (encodeOrigins (tok_allowed_origins t)),
                tok_created_at := c, tok_disabled_at := None\<rparr>))"
    and create_token_err: "CreateProjectToken st t s = (Inl e, s') \<Longrightarrow> wf s \<Longrightarrow> tokens_at s' = tokens_at s"
    and update_token_wf: "UpdateProjectToken st t s = (u, s') \<Longrightarrow> wf s \<Longrightarrow> wf s'"
    and update_token_ok: "UpdateProjectToken st t s = (Inr x, s') \<Longrightarrow> wf s \<Longrightarrow>
          tokens_at s' = (case tokens_at s (tok_id t) of None \<Rightarrow> tokens_at s
            | Some old \<Rightarrow> (tokens_at s)(tok_id t \<mapsto> token_written t old))"
    and update_token_err: "UpdateProjectToken st t s = (Inl e, s') \<Longrightarrow> wf s \<Longrightarrow> tokens_at s' = tokens_at s"
    and delete_token_wf: "DeleteProjectToken st i s = (u, s') \<Longrightarrow> wf s \<Longrightarrow> wf s'"
    and delete_token_ok: "DeleteProjectToken st i s = (Inr x, s') \<Longrightarrow> wf s \<Longrightarrow>
          tokens_at s' = (tokens_at s)(i := None)"
    and delete_token_err: "DeleteProjectToken st i s = (Inl e, s') \<Longrightarrow> wf s \<Longrightarrow> tokens_at s' = tokens_at s"
begin

lemma CreateToken_effect:
  assumes "CreateToken h rt r w s = (w', s')" and "ph_store h = st" and "wf s" and "fresh w"
  shows "wf s' \<and>
    (if succeeded w' then
       \<exists>i req v os t c. pathInt r ''id'' = Some i \<and> decodeJSON rt decode_create_token r = Some req \<and>
         GenerateToken (ph_lib h) = Some v \<and> normalized rt (ctr_allowed_origins req) = Inr os \<and>
         tokens_at s (tok_id t) = None \<and>
         t = \<lparr>tok_id = tok_id t, tok_project_id = i, tok_token = v, tok_label = ctr_label req, tok_active = True,
              tok_allowed_origins = decodeOrigins (encodeOrigins os), tok_created_at = c, tok_disabled_at = None\<rparr> \<and>
         tokens_at s' = (tokens_at s)(tok_id t \<mapsto> t)
     else tokens_at s' = tokens_at s)"
proof -
  consider (bad) "s' = s" "\<not> succeeded w'"
    | (go) i req v os where "pathInt r ''id'' = Some i" "decodeJSON rt decode_create_token r = Some req"
        "GenerateToken (ph_lib h) = Some v" "normalized rt (ctr_allowed_origins req) = Inr os"
    using assms(1,4) by (force simp: CreateToken_def fresh_replies split: option.splits sum.splits)
  then show ?thesis
  proof cases
    case bad
    then show ?thesis using assms(3) by simp
  next
    case go
    let ?t = "\<lparr>tok_id = 0, tok_project_id = i, tok_token = v, tok_label = ctr_label req, tok_active = True,
      tok_allowed_origins = os, tok_created_at = go_zero_time, tok_disabled_at = None\<rparr>"
    obtain q s1 where c: "CreateProjectToken st ?t s = (q, s1)" by fastforce
    note wf1 = create_token_wf [OF c assms(3)]
    show ?thesis
    proof (cases q)
      case (Inl e)
      then show ?thesis using assms go c wf1 create_token_err [OF c [unfolded Inl] assms(3)]
        by (auto simp: CreateToken_def fresh_replies)
    next
      case (Inr t')
      from create_token_ok [OF c [unfolded Inr] assms(3)] obtain k where k: "tokens_at s (tok_id t') = None"
        "t' = ?t\<lparr>tok_id := tok_id t'\<rparr>"
        "tokens_at s1 = (tokens_at s)(tok_id t' \<mapsto> t'\<lparr>tok_allowed_origins := decodeOrigins (encodeOrigins os),
           tok_created_at := k, tok_disabled_at := None\<rparr>)"
        by auto
      let ?u = "?t\<lparr>tok_id := tok_id t', tok_allowed_origins := decodeOrigins (encodeOrigins os), tok_created_at := k\<rparr>"
      have u: "t'\<lparr>tok_allowed_origins := decodeOrigins (encodeOrigins os), tok_created_at := k, tok_disabled_at := None\<rparr> = ?u"
        by (subst k(2)) simp
      have "s' = s1" "succeeded w'"
        using assms go c Inr by (auto simp: CreateToken_def fresh_replies)
      then show ?thesis using go wf1 k(1,3) u
        by (auto intro!: exI [of _ ?u])
    qed
  qed
qed

text \<open>A handler that looks the token up among those of the project in the path.\<close>

lemma with_token_cases:
  assumes "with_token h k r w s = (w', s')" and "ph_store h = st" and "wf s" and "fresh w"
  obtains (absent) "wf s'" "tokens_at s' = tokens_at s" "\<not> succeeded w'"
  | (found) t s1 where "pathInt r ''token_id'' = Some (tok_id t)" "tok_project_id t = atoi_value (path_value r ''id'')"
      "tokens_at s (tok_id t) = Some t" "wf s1" "tokens_at s1 = tokens_at s" "k t r w s1 = (w', s')"
proof (cases "pathInt r ''token_id''")
  case None
  then show thesis using assms absent by (auto simp: with_token_def fresh_replies)
next
  case (Some i)
  obtain q s1 where l: "ListProjectTokens st (atoi_value (path_value r ''id'')) s = (q, s1)" by fastforce
  note s1 = list_tokens_wf [OF l assms(3)] list_tokens_view [OF l]
  show thesis
  proof (cases q)
    case (Inl e)
    then show thesis using assms Some l s1 absent by (auto simp: with_token_def fresh_replies)
  next
    case (Inr ts)
    show thesis
    proof (cases "find (\<lambda>t. tok_id t = i) ts")
      case None
      then show thesis using assms Some l s1 absent Inr by (auto simp: with_token_def fresh_replies)
    next
      case t: (Some t)
      then have "t \<in> set ts" "tok_id t = i" by (auto simp: find_Some_iff in_set_conv_nth)
      moreover have "k t r w s1 = (w', s')" using assms(1,2) Some l Inr t by (simp add: with_token_def)
      ultimately show thesis
        using found [of t s1] Some s1 list_tokens_found [OF l [unfolded Inr] assms(3), of t] by simp
    qed
  qed
qed

lemma update_step:
  assumes "UpdateProjectToken st v s = (q, s')" and "wf s" and "tokens_at s (tok_id t) = Some t" and "tok_id v = tok_id t"
  shows "wf s' \<and> tokens_at s' = (case q of Inl _ \<Rightarrow> tokens_at s | Inr _ \<Rightarrow> (tokens_at s)(tok_id t \<mapsto> token_written v t))"
  using assms update_token_wf [of v s q s'] update_token_ok [of v s _ s'] update_token_err [of v s _ s']
  by (cases q) auto

lemma DisableToken_effect:
  assumes "DisableToken h r w s = (w', s')" and "ph_store h = st" and "wf s" and "fresh w"
  shows "wf s' \<and>
    (if succeeded w' then
       \<exists>t. pathInt r ''token_id'' = Some (tok_id t) \<and> tok_project_id t = atoi_value (path_value r ''id'') \<and>
         tokens_at s (tok_id t) = Some t \<and>
         tokens_at s' = (tokens_at s)(tok_id t \<mapsto>
           token_written (t\<lparr>tok_active := False, tok_disabled_at := Some (rq_clock r 0)\<rparr>) t)
     else tokens_at s' = tokens_at s)"
  using assms(1)[unfolded DisableToken_def] assms(2-4)
proof (cases rule: with_token_cases)
  case absent
  then show ?thesis by simp
next
  case (found t s1)
  let ?v = "t\<lparr>tok_active := False, tok_disabled_at := Some (rq_clock r 0)\<rparr>"
  obtain q s2 where u: "UpdateProjectToken st ?v s1 = (q, s2)" by fastforce
  show ?thesis
    using update_step [OF u, of t] found u assms(2,4)
    by (cases q) (auto simp: fresh_replies)
qed

lemma EnableToken_effect:
  assumes "EnableToken h r w s = (w', s')" and "ph_store h = st" and "wf s" and "fresh w"
  shows "wf s' \<and>
    (if succeeded w' then
       \<exists>t. pathInt r ''token_id'' = Some (tok_id t) \<and> tok_project_id t = atoi_value (path_value r ''id'') \<and>
         tokens_at s (tok_id t) = Some t \<and>
         tokens_at s' = (tokens_at s)(tok_id t \<mapsto> token_written (t\<lparr>tok_active := True, tok_disabled_at := None\<rparr>) t)
     else tokens_at s' = tokens_at s)"
  using assms(1)[unfolded EnableToken_def] assms(2-4)
proof (cases rule: with_token_cases)
  case absent
  then show ?thesis by simp
next
  case (found t s1)
  let ?v = "t\<lparr>tok_active := True, tok_disabled_at := None\<rparr>"
  obtain q s2 where u: "UpdateProjectToken st ?v s1 = (q, s2)" by fastforce
  show ?thesis
    using update_step [OF u, of t] found u assms(2,4)
    by (cases q) (auto simp: fresh_replies)
qed

lemma UpdateToken_effect:
  assumes "UpdateToken h rt r w s = (w', s')" and "ph_store h = st" and "wf s" and "fresh w"
  shows "wf s' \<and>
    (if succeeded w' then
       \<exists>t req os. pathInt r ''token_id'' = Some (tok_id t) \<and> tok_project_id t = atoi_value (path_value r ''id'') \<and>
         tokens_at s (tok_id t) = Some t \<and> decodeJSON rt decode_update_token r = Some req \<and>
         (case utr_allowed_origins req of None \<Rightarrow> os = tok_allowed_origins t | Some raws \<Rightarrow> normalized rt raws = Inr os) \<and>
         tokens_at s' = (tokens_at s)(tok_id t \<mapsto>
           token_written (t\<lparr>tok_label := (case utr_label req of None \<Rightarrow> tok_label t | Some l \<Rightarrow> l),
                            tok_allowed_origins := os\<rparr>) t)
     else tokens_at s' = tokens_at s)"
  using assms(1)[unfolded UpdateToken_def] assms(2-4)
proof (cases rule: with_token_cases)
  case absent
  then show ?thesis by simp
next
  case (found t s1)
  consider (bad) "s' = s1" "\<not> succeeded w'"
    | (go) req os where "decodeJSON rt decode_update_token r = Some req"
        "case utr_allowed_origins req of None \<Rightarrow> os = tok_allowed_origins t | Some raws \<Rightarrow> normalized rt raws = Inr os"
        "(case UpdateProjectToken st (t\<lparr>tok_label := (case utr_label req of None \<Rightarrow> tok_label t | Some l \<Rightarrow> l),
                            tok_allowed_origins := os\<rparr>) s1 of
            (q, s2) \<Rightarrow> s' = s2 \<and> (succeeded w' \<longleftrightarrow> (\<exists>x. q = Inr x)))"
  proof (cases "decodeJSON rt decode_update_token r")
    case None
    then show thesis using bad found(6) assms(4) by (auto simp: fresh_replies)
  next
    case (Some req)
    let ?os = "case utr_allowed_origins req of None \<Rightarrow> Inr (tok_allowed_origins t) | Some raws \<Rightarrow> normalized rt raws"
    show thesis
    proof (cases ?os)
      case (Inl e)
      then show thesis using bad found(6) assms(4) Some
        by (auto simp: fresh_replies Let_def split: option.splits)
    next
      case (Inr os)
      let ?v = "t\<lparr>tok_label := (case utr_label req of None \<Rightarrow> tok_label t | Some l \<Rightarrow> l), tok_allowed_origins := os\<rparr>"
      obtain q s2 where u: "UpdateProjectToken st ?v s1 = (q, s2)" by fastforce
      have v: "(case utr_allowed_origins req of
          None \<Rightarrow> Inr (case utr_label req of None \<Rightarrow> t | Some l \<Rightarrow> t\<lparr>tok_label := l\<rparr>)
        | Some os \<Rightarrow> map_sum id (\<lambda>os. (case utr_label req of None \<Rightarrow> t | Some l \<Rightarrow> t\<lparr>tok_label := l\<rparr>)
            \<lparr>tok_allowed_origins := os\<rparr>) (normalized rt os)) = Inr ?v"
        using Inr by (auto split: option.splits)
      have "s' = s2 \<and> (succeeded w' \<longleftrightarrow> (\<exists>x. q = Inr x))"
        using found(6) Some u assms(4) by (cases q) (auto simp: Let_def v assms(2) fresh_replies)
      then show thesis using go [OF Some, of os] Inr u by (auto split: option.splits)
    qed
  qed
  then show ?thesis
  proof cases
    case bad
    then show ?thesis using found by simp
  next
    case go
    let ?v = "t\<lparr>tok_label := (case utr_label req of None \<Rightarrow> tok_label t | Some l \<Rightarrow> l), tok_allowed_origins := os\<rparr>"
    obtain q s2 where u: "UpdateProjectToken st ?v s1 = (q, s2)" by fastforce
    have "wf s' \<and> tokens_at s' = (case q of Inl _ \<Rightarrow> tokens_at s | Inr _ \<Rightarrow> (tokens_at s)(tok_id t \<mapsto> token_written ?v t))"
      using update_step [OF u, of t] found(3-5) go(3) u by (simp split: sum.split)
    then show ?thesis using go u found(1-3) by (cases q) auto
  qed
qed

lemma DeleteToken_effect:
  assumes "DeleteToken h r w s = (w', s')" and "ph_store h = st" and "wf s" and "fresh w"
  shows "wf s' \<and>
    (if succeeded w' then \<exists>i. pathInt r ''token_id'' = Some i \<and> tokens_at s' = (tokens_at s)(i := None)
     else tokens_at s' = tokens_at s)"
  using assms(1,3,4) unfolding DeleteToken_def assms(2)
  by (auto simp: fresh_replies split: option.splits prod.splits sum.splits
      dest: delete_token_wf delete_token_ok delete_token_err)

end

subsection \<open>Administration meets authentication\<close>

text \<open>
  The lookup of \<open>TokenAuth\<close> and the administration see the same tokens: a value belongs to at most one
  token, and what is stored is read back as it was written.
\<close>

locale token_control = token_store st wf token_of + token_admin_store st wf tokens_at
  for st :: "'s Store" and wf and token_of and tokens_at +
  assumes token_of_iff: "wf s \<Longrightarrow> token_of s v = Some t \<longleftrightarrow> tokens_at s (tok_id t) = Some t \<and> tok_token t = v"
    and tokens_at_id: "tokens_at s i = Some t \<Longrightarrow> tok_id t = i"
    and stored_origins: "tokens_at s i = Some t \<Longrightarrow>
          decodeOrigins (encodeOrigins (tok_allowed_origins t)) = tok_allowed_origins t"
begin

lemma inactive_refused:
  assumes "TokenAuth st next r w s = (w', s')" and "wf s" and "w_sent w = None"
    and "tokens_at s (tok_id t) = Some t" and "\<not> tok_active t" and "header_get r ''X-Token'' = tok_token t"
  shows "refused w w' \<and> token_of s' = token_of s"
proof -
  have "token_of s (header_get r ''X-Token'') = Some t" using token_of_iff [OF assms(2)] assms(4,6) by simp
  then show ?thesis using token_auth_cases [OF assms(1-3)] assms(5) by (auto simp: admits_def)
qed

lemma disabled_refused:
  assumes "DisableToken h r w s = (w', s')" and "ph_store h = st" and "wf s" and "fresh w" and "succeeded w'"
    and "pathInt r ''token_id'' = Some i" and "tokens_at s i = Some t" and "header_get r2 ''X-Token'' = tok_token t"
    and "TokenAuth st next r2 w2 s' = (w2', s2)" and "w_sent w2 = None"
  shows "refused w2 w2' \<and> token_of s2 = token_of s'"
proof -
  let ?v = "token_written (t\<lparr>tok_active := False, tok_disabled_at := Some (rq_clock r 0)\<rparr>) t"
  have "wf s'" "tokens_at s' = (tokens_at s)(i \<mapsto> ?v)"
    using DisableToken_effect [OF assms(1-4)] assms(5-7) by auto
  moreover have "tok_id ?v = i" "\<not> tok_active ?v" "tok_token ?v = tok_token t"
    using tokens_at_id [OF assms(7)] by (simp_all add: token_written_def)
  ultimately show ?thesis
    using inactive_refused [OF assms(9) _ assms(10), of ?v] assms(8) by simp
qed

lemma enable_undoes_disable:
  assumes "DisableToken h r w s = (w1, s1)" and "EnableToken h r2 w2 s1 = (w3, s3)" and "ph_store h = st" and "wf s"
    and "fresh w" and "fresh w2" and "succeeded w1" and "succeeded w3"
    and "pathInt r ''token_id'' = Some i" and "pathInt r2 ''token_id'' = Some i"
    and "tokens_at s i = Some t" and "tok_active t" and "tok_disabled_at t = None"
  shows "tokens_at s3 = tokens_at s"
proof -
  let ?off = "t\<lparr>tok_active := False, tok_disabled_at := Some (rq_clock r 0)\<rparr>"
  have os: "decodeOrigins (encodeOrigins (tok_allowed_origins t)) = tok_allowed_origins t"
    using stored_origins [OF assms(11)] .
  have off: "token_written ?off t = ?off" using os by (simp add: token_written_def)
  have "wf s1" "tokens_at s1 = (tokens_at s)(i \<mapsto> ?off)"
    using DisableToken_effect [OF assms(1,3,4,5)] assms(7,9,11) off by auto
  moreover have "token_written (?off\<lparr>tok_active := True, tok_disabled_at := None\<rparr>) ?off = t"
    using os assms(12,13) by (simp add: token_written_def)
  ultimately have "tokens_at s3 = (tokens_at s)(i \<mapsto> t)"
    using EnableToken_effect [OF assms(2,3) _ assms(6)] assms(8,10) by auto
  then show ?thesis using assms(11) by auto
qed

lemma created_token_looked_up:
  assumes "wf s" and "wf s'" and "tokens_at s (tok_id t) = None" and "tokens_at s' = (tokens_at s)(tok_id t \<mapsto> t)"
  shows "token_of s (tok_token t) = None" and "token_of s' = (token_of s)(tok_token t \<mapsto> t)"
proof -
  have t: "token_of s' (tok_token t) = Some t" using token_of_iff [OF assms(2)] assms(4) by simp
  have old: "token_of s' v = Some u \<and> v \<noteq> tok_token t" if "token_of s v = Some u" for v u
  proof -
    have u: "tokens_at s (tok_id u) = Some u" "tok_token u = v" "tok_id u \<noteq> tok_id t"
      using that token_of_iff [OF assms(1)] assms(3) by auto
    then have "token_of s' v = Some u" using token_of_iff [OF assms(2), of v u] unfolding assms(4) by simp
    with t u(3) show ?thesis by auto
  qed
  then show none: "token_of s (tok_token t) = None" by (cases "token_of s (tok_token t)") auto
  have new: "token_of s v = Some u" if "token_of s' v = Some u" "v \<noteq> tok_token t" for v u
  proof -
    have "tokens_at s' (tok_id u) = Some u" "tok_token u = v" using that(1) token_of_iff [OF assms(2)] by auto
    then have "tokens_at s (tok_id u) = Some u" using that(2) unfolding assms(4) by (cases "tok_id u = tok_id t") auto
    then show ?thesis using \<open>tok_token u = v\<close> token_of_iff [OF assms(1)] by simp
  qed
  show "token_of s' = (token_of s)(tok_token t \<mapsto> t)"
  proof
    fix v
    show "token_of s' v = ((token_of s)(tok_token t \<mapsto> t)) v"
    proof (cases "v = tok_token t")
      case False
      then have "token_of s' v = token_of s v"
        using old [of v] new [of v] by (metis option.exhaust)
      then show ?thesis using False by simp
    qed (simp add: t)
  qed
qed

end

subsection \<open>The SQLite store fulfils both contracts\<close>

definition tokens_at :: "db \<Rightarrow> int \<Rightarrow> ProjectToken option" where
  "tokens_at d = row_at tok_id (map token_of_row (project_tokens d))"

lemma tok_of_row [simp]:
  "tok_id (token_of_row r) = tk_id r" "tok_token (token_of_row r) = tk_token r"
  "tok_project_id (token_of_row r) = tk_project_id r"
  by (simp_all add: token_of_row_def)

lemma tokens_at_tick [simp]: "tokens_at (tick_db d) = tokens_at d"
  by (simp add: tokens_at_def)

lemma same_tables_tokens: "same_tables d d' \<Longrightarrow> tokens_at d' = tokens_at d"
  by (cases d; cases d') (simp add: same_tables_def tokens_at_def)

lemma distinct_token_rows:
  assumes "db_ok d"
  shows "distinct (map tok_id (map token_of_row (project_tokens d)))"
    and "distinct (map tok_token (map token_of_row (project_tokens d)))"
  using db_okD(2,3) [OF assms] by (simp_all add: comp_def)

lemma tokens_at_in: "db_ok d \<Longrightarrow> tokens_at d (tok_id t) = Some t \<longleftrightarrow> t \<in> token_of_row ` set (project_tokens d)"
  using row_at_in [OF distinct_token_rows(1), of d t]
  by (auto simp: tokens_at_def dest: row_at_Some)

lemma decode_encode_decode: "decodeOrigins (encodeOrigins (decodeOrigins s)) = decodeOrigins s"
proof -
  let ?c = "decodeOrigins s"
  have idem: "filter (\<lambda>t. t \<noteq> '''') (map trim_space ?c) = ?c"
    by (simp add: decodeOrigins_def filter_map comp_def)
  show ?thesis
  proof (cases "?c = []")
    case False
    have clean: "\<forall>t \<in> set ?c. CHR 0x0A \<notin> set t"
      using split_on_no_sep trim_space_subset by (fastforce simp: decodeOrigins_def split: if_splits)
    have "'''' \<notin> set ?c" by (simp add: decodeOrigins_def)
    then have "join_with (CHR 0x0A) ?c \<noteq> []" using False by (auto simp: join_with_eq_Nil)
    then show ?thesis
      using split_on_join [OF False clean] idem False
      by (subst decodeOrigins_def) (simp add: encodeOrigins_def)
  qed (simp add: encodeOrigins_def decodeOrigins_def)
qed

lemma token_of_rows:
  assumes "db_ok d"
  shows "token_of d v = Some t \<longleftrightarrow> t \<in> token_of_row ` set (project_tokens d) \<and> tok_token t = v"
  using row_at_in [OF db_okD(3) [OF assms]]
  by (auto simp: token_of_def dest: row_at_Some)

lemma create_token_view:
  assumes "sqlite_CreateProjectToken t d = (Inr t', d')"
  shows "tokens_at d (tok_id t') = None \<and> t' = t\<lparr>tok_id := tok_id t'\<rparr> \<and>
    (\<exists>c. tokens_at d' = (tokens_at d)(tok_id t' \<mapsto>
       t'\<lparr>tok_allowed_origins := decodeOrigins (encodeOrigins (tok_allowed_origins t)),
          tok_created_at := c, tok_disabled_at := None\<rparr>))"
proof -
  let ?i = "next_id (map tk_id (project_tokens d))"
  let ?row = "\<lparr>tk_id = ?i, tk_project_id = tok_project_id t, tk_token = tok_token t, tk_label = tok_label t,
    tk_active = tok_active t, tk_allowed_origins = encodeOrigins (tok_allowed_origins t),
    tk_created_at = sqlite_now d, tk_disabled_at = None\<rparr>"
  have ids: "map tok_id (map token_of_row (project_tokens d)) = map tk_id (project_tokens d)" by simp
  have new: "?i \<notin> tok_id ` set (map token_of_row (project_tokens d))"
    using next_id_notin [of "map tk_id (project_tokens d)"] by (metis ids list.set_map)
  have d': "t' = t\<lparr>tok_id := ?i\<rparr>" "tokens_at d' = row_at tok_id (map token_of_row (project_tokens d) @ [token_of_row ?row])"
    using assms by (auto simp: sqlite_CreateProjectToken_def run_stmt_Inr Let_def tokens_at_def split: if_splits)
  have row: "token_of_row ?row = t\<lparr>tok_id := ?i, tok_allowed_origins := decodeOrigins (encodeOrigins (tok_allowed_origins t)),
      tok_created_at := sqlite_now d, tok_disabled_at := None\<rparr>"
    by (simp add: token_of_row_def)
  have "tokens_at d' = (tokens_at d)(?i \<mapsto> token_of_row ?row)"
    using row_at_snoc [of tok_id "token_of_row ?row" "map token_of_row (project_tokens d)"] new
    unfolding d'(2) by (simp add: tokens_at_def)
  moreover have "tokens_at d ?i = None" using new by (simp add: tokens_at_def row_at_None)
  ultimately show ?thesis unfolding row using d'(1) by auto
qed

lemma update_token_view:
  assumes "sqlite_UpdateProjectToken t d = (Inr x, d')"
  shows "tokens_at d' = (case tokens_at d (tok_id t) of None \<Rightarrow> tokens_at d
            | Some old \<Rightarrow> (tokens_at d)(tok_id t \<mapsto> token_written t old))"
proof -
  let ?f = "\<lambda>r. r\<lparr>tk_label := tok_label t, tk_active := tok_active t,
    tk_allowed_origins := encodeOrigins (tok_allowed_origins t), tk_disabled_at := tok_disabled_at t\<rparr>"
  have "token_of_row (?f r) = token_written t (token_of_row r)" for r
    by (simp add: token_of_row_def token_written_def)
  then have "map token_of_row (map (\<lambda>r. if tk_id r = tok_id t then ?f r else r) rows) =
      map (\<lambda>u. if tok_id u = tok_id t then token_written t u else u) (map token_of_row rows)" for rows
    by simp
  moreover have "tokens_at d' = row_at tok_id (map token_of_row
      (map (\<lambda>r. if tk_id r = tok_id t then ?f r else r) (project_tokens d)))"
    using assms by (auto simp: sqlite_UpdateProjectToken_def run_stmt_Inr tokens_at_def)
  ultimately show ?thesis
    unfolding tokens_at_def by (simp only:) (rule row_at_update, simp add: token_written_def)
qed

lemma delete_token_view:
  assumes "sqlite_DeleteProjectToken i d = (Inr x, d')"
  shows "tokens_at d' = (tokens_at d)(i := None)"
proof -
  have "map token_of_row (filter (\<lambda>r. tk_id r \<noteq> i) rows) = filter (\<lambda>t. tok_id t \<noteq> i) (map token_of_row rows)" for rows
    by (simp add: filter_map comp_def)
  then show ?thesis using assms
    by (auto simp: sqlite_DeleteProjectToken_def run_stmt_Inr tokens_at_def row_at_delete simp del: filter.simps)
qed

lemma list_tokens_view:
  assumes "sqlite_ListProjectTokens p d = (Inr ts, d')" and "db_ok d"
  shows "t \<in> set ts \<longleftrightarrow> tokens_at d (tok_id t) = Some t \<and> tok_project_id t = p"
  using assms unfolding tokens_at_in [OF assms(2)]
  by (auto simp: sqlite_ListProjectTokens_def query_Inr)

lemma token_failures:
  "sqlite_CreateProjectToken t d = (Inl e, d') \<Longrightarrow> tokens_at d' = tokens_at d"
  "sqlite_UpdateProjectToken t d = (Inl e, d') \<Longrightarrow> tokens_at d' = tokens_at d"
  "sqlite_DeleteProjectToken i d = (Inl e, d') \<Longrightarrow> tokens_at d' = tokens_at d"
  by (auto simp: sqlite_CreateProjectToken_def sqlite_UpdateProjectToken_def sqlite_DeleteProjectToken_def
      run_stmt_def Let_def tokens_at_def split: if_splits)

interpretation sqlite_control: token_control SQLiteStore db_ok token_of tokens_at
proof
  fix p s q s'
  assume "ListProjectTokens SQLiteStore p s = (q, s')"
  then have "same_tables s s'" by (auto simp: SQLiteStore_def dest: reads_same)
  then show "db_ok s \<Longrightarrow> db_ok s'" "tokens_at s' = tokens_at s" by (blast intro: same_tables_ok same_tables_tokens)+
next
  fix s v t assume "db_ok s"
  then show "token_of s v = Some t \<longleftrightarrow> tokens_at s (tok_id t) = Some t \<and> tok_token t = v"
    by (simp add: token_of_rows tokens_at_in)
next
  fix s i t assume t: "tokens_at s i = Some t"
  then show "tok_id t = i" by (auto simp: tokens_at_def dest: row_at_Some)
  have "t \<in> token_of_row ` set (project_tokens s)" using row_at_Some [OF t [unfolded tokens_at_def]] by simp
  then show "decodeOrigins (encodeOrigins (tok_allowed_origins t)) = tok_allowed_origins t"
    by (auto simp: token_of_row_def decode_encode_decode)
qed (auto simp: SQLiteStore_def list_tokens_view token_failures delete_token_view update_token_view
    dest: create_token_ok update_token_ok delete_token_ok create_token_view)

subsection \<open>Properties\<close>

text \<open>
  C15. \<open>CreateToken\<close> issues exactly one credential or changes no token: on success the value drawn by
  \<open>GenerateToken\<close> belonged to no token, and the lookup of \<open>TokenAuth\<close> finds under it, from then on, an
  active token of the project in the path with the requested label and the normalised origins of the
  request as the column stores them; every other value is looked up as before.
\<close>

theorem CreateToken_issues:
  assumes "CreateToken h rt r w d = (w', d')" and "ph_store h = SQLiteStore" and "db_ok d" and "fresh w"
  shows "db_ok d' \<and>
    (if succeeded w' then
       \<exists>i req v os t. pathInt r ''id'' = Some i \<and> decodeJSON rt decode_create_token r = Some req \<and>
         GenerateToken (ph_lib h) = Some v \<and> normalized rt (ctr_allowed_origins req) = Inr os \<and>
         tok_project_id t = i \<and> tok_active t \<and> tok_disabled_at t = None \<and> tok_label t = ctr_label req \<and>
         tok_allowed_origins t = decodeOrigins (encodeOrigins os) \<and>
         token_of d v = None \<and> token_of d' = (token_of d)(v \<mapsto> t)
     else tokens_at d' = tokens_at d)"
proof (cases "succeeded w'")
  case True
  with sqlite_control.CreateToken_effect [OF assms] obtain i req v os t c where
    req: "pathInt r ''id'' = Some i" "decodeJSON rt decode_create_token r = Some req"
      "GenerateToken (ph_lib h) = Some v" "normalized rt (ctr_allowed_origins req) = Inr os"
    and new: "tokens_at d (tok_id t) = None" "tokens_at d' = (tokens_at d)(tok_id t \<mapsto> t)" "db_ok d'"
    and t: "t = \<lparr>tok_id = tok_id t, tok_project_id = i, tok_token = v, tok_label = ctr_label req, tok_active = True,
              tok_allowed_origins = decodeOrigins (encodeOrigins os), tok_created_at = c, tok_disabled_at = None\<rparr>"
    by auto
  have fields: "tok_project_id t = i" "tok_active t" "tok_disabled_at t = None" "tok_label t = ctr_label req"
    "tok_allowed_origins t = decodeOrigins (encodeOrigins os)" "tok_token t = v"
    by (subst t, simp)+
  with sqlite_control.created_token_looked_up [OF assms(3) new(3,1,2)] req True new(3) show ?thesis
    by auto
next
  case False
  then show ?thesis using sqlite_control.CreateToken_effect [OF assms] by simp
qed

definition sample_projects :: "db ProjectsHandler" where
  "sample_projects = \<lparr>ph_store = SQLiteStore, ph_lib = sample_lib\<rparr>"

definition path_request :: "(string \<times> string) list \<Rightarrow> request" where
  "path_request vals = (sample_request '''' '''')\<lparr>rq_path_values := vals\<rparr>"

lemma CreateToken_issues_witness:
  "\<exists>t. token_of (snd (CreateToken sample_projects
        (sample_runtime (TObject [(''label'', TString ''web''), (''allowed_origins'', TArray [TString ''*''])]))
        (path_request [(''id'', ''2'')]) new_writer sample_db)) (hex_encode (map nat [0..31])) = Some t \<and>
     tok_project_id t = 2 \<and> tok_active t \<and> tok_label t = ''web'' \<and> tok_allowed_origins t = [''*'']"
proof -
  let ?rt = "sample_runtime (TObject [(''label'', TString ''web''), (''allowed_origins'', TArray [TString ''*''])])"
  let ?r = "path_request [(''id'', ''2'')]"
  let ?res = "CreateToken sample_projects ?rt ?r new_writer sample_db"
  have st: "ph_store sample_projects = SQLiteStore" by (simp add: sample_projects_def)
  have ok: "succeeded (fst ?res)" by code_simp
  have vals: "pathInt ?r ''id'' = Some 2" "GenerateToken (ph_lib sample_projects) = Some (hex_encode (map nat [0..31]))"
    by code_simp+
  have dec: "decodeJSON ?rt decode_create_token ?r = Some \<lparr>ctr_label = ''web'', ctr_allowed_origins = [''*'']\<rparr>"
    by code_simp
  have os: "normalized ?rt [''*''] = Inr [''*'']" "decodeOrigins (encodeOrigins [''*'']) = [''*'']" by code_simp+
  from CreateToken_issues [OF surjective_pairing st sample_db_ok fresh_new_writer(1), of ?rt ?r] ok
  show ?thesis by (auto simp: vals dec os)
qed

text \<open>
  C14. Revocation: after \<open>DisableToken\<close> has answered 200 for a token, \<open>TokenAuth\<close> refuses every request
  that carries its value, whatever handler it protects, and changes no token.
\<close>

theorem disabled_token_refused:
  assumes "DisableToken h r w d = (w', d')" and "ph_store h = SQLiteStore" and "db_ok d" and "fresh w"
    and "succeeded w'" and "pathInt r ''token_id'' = Some i" and "tokens_at d i = Some t"
    and "header_get r2 ''X-Token'' = tok_token t"
    and "TokenAuth SQLiteStore handler r2 w2 d' = (w2', d2)" and "w_sent w2 = None"
  shows "refused w2 w2' \<and> token_of d2 = token_of d'"
  by (rule sqlite_control.disabled_refused [OF assms])

lemma disabled_token_refused_witness:
  "let d' = snd (DisableToken sample_projects (path_request [(''id'', ''1''), (''token_id'', ''1'')]) new_writer sample_db)
   in refused new_writer (fst (TokenAuth SQLiteStore (\<lambda>r w s. (write_header 202 w, s)) (sample_request ''abc'' '''')
        new_writer d'))"
proof -
  let ?r = "path_request [(''id'', ''1''), (''token_id'', ''1'')]"
  let ?res = "DisableToken sample_projects ?r new_writer sample_db"
  let ?t = "\<lparr>tok_id = 1, tok_project_id = 1, tok_token = ''abc'', tok_label = '''', tok_active = True,
     tok_allowed_origins = [], tok_created_at = 0, tok_disabled_at = None\<rparr>"
  have st: "ph_store sample_projects = SQLiteStore" by (simp add: sample_projects_def)
  have ok: "succeeded (fst ?res)" "pathInt ?r ''token_id'' = Some 1" "tokens_at sample_db 1 = Some ?t"
    "header_get (sample_request ''abc'' '''') ''X-Token'' = tok_token ?t"
    by code_simp+
  show ?thesis
    using disabled_token_refused [OF surjective_pairing st sample_db_ok fresh_new_writer(1) ok surjective_pairing,
        where ?w2.0 = new_writer and handler = "\<lambda>r w s. (write_header 202 w, s)"]
    by (simp add: Let_def new_writer_def)
qed

text \<open>
  Enabling undoes disabling: for a token that was active, the two operations in a row leave every
  token, its origins included, as it was.
\<close>

theorem disable_enable_restores:
  assumes "DisableToken h r w d = (w1, d1)" and "EnableToken h r2 w2 d1 = (w3, d3)"
    and "ph_store h = SQLiteStore" and "db_ok d" and "fresh w" and "fresh w2" and "succeeded w1" and "succeeded w3"
    and "pathInt r ''token_id'' = Some i" and "pathInt r2 ''token_id'' = Some i"
    and "tokens_at d i = Some t" and "tok_active t" and "tok_disabled_at t = None"
  shows "tokens_at d3 = tokens_at d"
  by (rule sqlite_control.enable_undoes_disable [OF assms])

lemma disable_enable_restores_witness:
  "let r = path_request [(''id'', ''1''), (''token_id'', ''1'')];
       d1 = snd (DisableToken sample_projects r new_writer sample_db)
   in tokens_at (snd (EnableToken sample_projects r new_writer d1)) = tokens_at sample_db \<and>
      map_option tok_active (tokens_at d1 1) = Some False"
proof -
  let ?r = "path_request [(''id'', ''1''), (''token_id'', ''1'')]"
  let ?res = "DisableToken sample_projects ?r new_writer sample_db"
  let ?res3 = "EnableToken sample_projects ?r new_writer (snd ?res)"
  let ?t = "\<lparr>tok_id = 1, tok_project_id = 1, tok_token = ''abc'', tok_label = '''', tok_active = True,
     tok_allowed_origins = [], tok_created_at = 0, tok_disabled_at = None\<rparr>"
  have st: "ph_store sample_projects = SQLiteStore" by (simp add: sample_projects_def)
  have ok: "succeeded (fst ?res)" "succeeded (fst ?res3)" "pathInt ?r ''token_id'' = Some 1"
    "pathInt ?r ''token_id'' = Some 1" "tokens_at sample_db 1 = Some ?t" "tok_active ?t" "tok_disabled_at ?t = None"
    by code_simp+
  have "map_option tok_active (tokens_at (snd ?res) 1) = Some False" by code_simp
  with disable_enable_restores [OF surjective_pairing surjective_pairing st sample_db_ok fresh_new_writer(1)
      fresh_new_writer(1) ok]
  show ?thesis by (simp add: Let_def)
qed

text \<open>
  \<open>DeleteToken\<close> never looks at the project in the path: token 1 belongs to project 1, and deleting it
  under project 2 answers 200 and removes it, where disabling it under project 2 answers 404.
\<close>

theorem DeleteToken_ignores_project:
  "let r = path_request [(''id'', ''2''), (''token_id'', ''1'')]
   in map_option tok_project_id (tokens_at sample_db 1) = Some 1 \<and>
      status (fst (DisableToken sample_projects r new_writer sample_db)) = 404 \<and>
      (case DeleteToken sample_projects r new_writer sample_db of
         (w', d') \<Rightarrow> status w' = 200 \<and> tokens_at d' 1 = None)"
  by code_simp

end
