(* ===== verification/Postgres_Ok.thy ===== *)
theory Postgres_Ok
  imports Postgres_Store Token_Admin
begin

text \<open>
  The Postgres store keeps the schema's constraints and fulfils the contracts of the interface.  What it
  shares with SQLite is transferred through \<open>pg_stmt\<close>; what it inserts is proved once, for every sequence.
\<close>

subsection \<open>Running a statement\<close>

lemma pg_stmt_cases:
  assumes "pg_stmt ints texts f s = (r, s')"
  obtains (unbound) "r = Inl ErrDriver" "pg_db s' = tick_db (pg_db s)" | (ran) "f (pg_db s) = (r, pg_db s')"
  using assms that by (auto simp: pg_stmt_def pg_tick_def split: if_splits prod.splits)

lemma pg_stmt_keeps:
  assumes "pg_stmt ints texts f s = (r, s')" and "P (pg_db s)" and "\<And>r d'. f (pg_db s) = (r, d') \<Longrightarrow> P d'"
    and "\<And>d. P d \<Longrightarrow> P (tick_db d)"
  shows "P (pg_db s')"
  using assms(1) by (cases rule: pg_stmt_cases) (use assms(2-4) in auto)

lemma pg_stmt_Inr: "pg_stmt ints texts f s = (Inr x, s') \<Longrightarrow> f (pg_db s) = (Inr x, pg_db s')"
  by (erule pg_stmt_cases) auto

lemma pg_stmt_Inl:
  "pg_stmt ints texts f s = (Inl e, s') \<Longrightarrow> pg_db s' = tick_db (pg_db s) \<and> e = ErrDriver \<or> f (pg_db s) = (Inl e, pg_db s')"
  by (erule pg_stmt_cases) auto

text \<open>Every insertion with a sequence has this shape: a check of the constraints, then one new row.\<close>

lemma serial_insert_cases:
  assumes "pg_serial tab ints texts
    (\<lambda>i. run_stmt (\<lambda>d. if bad i d then (Inl ErrConstraint, d) else (Inr (res i), row_added i d))) s = (r, s')"
  obtains (failed) e where "r = Inl e" "pg_db s' = tick_db (pg_db s)"
  | (inserted) i where "r = Inr (res i)" "\<not> bad i (pg_db s)" "pg_db s' = tick_db (row_added i (pg_db s))"
      "i = pg_seq s tab + 1" "pg_seq s' = (pg_seq s)(tab := i)"
  using assms that
  by (auto simp: pg_serial_def pg_tick_def run_stmt_def Let_def split: if_splits)

subsection \<open>Accounts\<close>

lemma pg_create_user:
  assumes "pg_CreateConsoleUser u s = (r, s')"
  shows "db_ok (pg_db s) \<Longrightarrow> db_ok (pg_db s')"
    and "r = Inr u' \<Longrightarrow> users_of (pg_db s) (cu_id u') = None \<and> u' = u\<lparr>cu_id := cu_id u'\<rparr> \<and>
           (\<exists>t. users_of (pg_db s') = (users_of (pg_db s))(cu_id u' \<mapsto> u'\<lparr>cu_created_at := t\<rparr>))"
    and "r = Inl e \<Longrightarrow> users_of (pg_db s') = users_of (pg_db s)"
proof -
  let ?us = "console_users (pg_db s)"
  have *: "pg_db s' = tick_db (pg_db s) \<and> (\<exists>e. r = Inl e) \<or>
    (\<exists>i t. r = Inr (u\<lparr>cu_id := i\<rparr>) \<and> i \<notin> cu_id ` set ?us \<and> cu_role u \<in> set roles \<and> \<not> user_conflict u ?us \<and>
       pg_db s' = tick_db ((pg_db s)\<lparr>console_users := ?us @ [u\<lparr>cu_id := i, cu_created_at := t\<rparr>]\<rparr>))"
    using assms unfolding pg_CreateConsoleUser_def by (cases rule: serial_insert_cases) auto
  show "db_ok (pg_db s) \<Longrightarrow> db_ok (pg_db s')"
  proof -
    assume ok: "db_ok (pg_db s)"
    have "db_ok ((pg_db s)\<lparr>console_users := ?us @ [u\<lparr>cu_id := i, cu_created_at := t\<rparr>]\<rparr>)"
      if "i \<notin> cu_id ` set ?us" "cu_role u \<in> set roles" "\<not> user_conflict u ?us" for i t
      using ok that
      by (intro users_changed_ok)
         (auto simp: db_ok_defs user_conflict_def emails_append emails_Cons split: option.splits)
    then show ?thesis using * ok by auto
  qed
  show "r = Inr u' \<Longrightarrow> users_of (pg_db s) (cu_id u') = None \<and> u' = u\<lparr>cu_id := cu_id u'\<rparr> \<and>
           (\<exists>t. users_of (pg_db s') = (users_of (pg_db s))(cu_id u' \<mapsto> u'\<lparr>cu_created_at := t\<rparr>))"
  proof -
    assume "r = Inr u'"
    with * obtain i t where i: "u' = u\<lparr>cu_id := i\<rparr>" "i \<notin> cu_id ` set ?us"
      "pg_db s' = tick_db ((pg_db s)\<lparr>console_users := ?us @ [u\<lparr>cu_id := i, cu_created_at := t\<rparr>]\<rparr>)" by auto
    then show ?thesis using row_at_snoc [of cu_id "u\<lparr>cu_id := i, cu_created_at := t\<rparr>" ?us]
      by (auto simp: users_of_def row_at_None)
  qed
  show "r = Inl e \<Longrightarrow> users_of (pg_db s') = users_of (pg_db s)" using * by auto
qed

lemmas pg_console_defs = PostgresStore_def pg_GetConsoleUserByID_def pg_GetConsoleUserByLogin_def
  pg_UpdateConsoleUser_def pg_DeleteConsoleUser_def

interpretation pg_console: console_store PostgresStore "\<lambda>s. db_ok (pg_db s)" "\<lambda>s. users_of (pg_db s)"
proof
  fix i s r s'
  assume "GetConsoleUserByID PostgresStore i s = (r, s')"
  then have g: "pg_stmt [i] [] (sqlite_GetConsoleUserByID i) s = (r, s')" by (simp add: pg_console_defs)
  show "db_ok (pg_db s) \<Longrightarrow> db_ok (pg_db s')"
    using pg_stmt_keeps [OF g, of db_ok] reads_same(1) same_tables_ok by fastforce
  show "users_of (pg_db s') = users_of (pg_db s)"
    using pg_stmt_keeps [OF g, of "\<lambda>d. users_of d = users_of (pg_db s)"] reads_same(1) same_tables_users by fastforce
next
  fix i s u s'
  assume "GetConsoleUserByID PostgresStore i s = (Inr u, s')" and "db_ok (pg_db s)"
  then show "users_of (pg_db s) i = Some u"
    using sqlite_console.get_user_found [of i "pg_db s" u "pg_db s'"]
    by (auto simp: pg_console_defs SQLiteStore_def dest: pg_stmt_Inr)
next
  fix l s r s'
  assume "GetConsoleUserByLogin PostgresStore l s = (r, s')"
  then have g: "pg_stmt [] [l] (sqlite_GetConsoleUserByLogin l) s = (r, s')" by (simp add: pg_console_defs)
  show "db_ok (pg_db s) \<Longrightarrow> db_ok (pg_db s')"
    using pg_stmt_keeps [OF g, of db_ok] reads_same(2) same_tables_ok by fastforce
  show "users_of (pg_db s') = users_of (pg_db s)"
    using pg_stmt_keeps [OF g, of "\<lambda>d. users_of d = users_of (pg_db s)"] reads_same(2) same_tables_users by fastforce
next
  fix l s u s'
  assume "GetConsoleUserByLogin PostgresStore l s = (Inr u, s')" and "db_ok (pg_db s)"
  then show "users_of (pg_db s) (cu_id u) = Some u \<and> (cu_username u = l \<or> cu_email u = Some l)"
    using get_by_login_found [of l "pg_db s" u "pg_db s'"] by (auto simp: pg_console_defs dest: pg_stmt_Inr)
next
  fix l s s' i u
  assume "GetConsoleUserByLogin PostgresStore l s = (Inl ErrNoRows, s')" and "users_of (pg_db s) i = Some u"
  then show "cu_username u \<noteq> l \<and> cu_email u \<noteq> Some l"
    using get_by_login_none [of l "pg_db s" "pg_db s'" i u] by (auto simp: pg_console_defs dest: pg_stmt_Inl)
next
  fix u s r s'
  assume "CreateConsoleUser PostgresStore u s = (r, s')"
  then have "pg_CreateConsoleUser u s = (r, s')" by (simp add: PostgresStore_def)
  then show "db_ok (pg_db s) \<Longrightarrow> db_ok (pg_db s')" by (rule pg_create_user)
next
  fix u s u' s'
  assume "CreateConsoleUser PostgresStore u s = (Inr u', s')"
  then have "pg_CreateConsoleUser u s = (Inr u', s')" by (simp add: PostgresStore_def)
  from pg_create_user(2) [OF this refl] show "users_of (pg_db s) (cu_id u') = None \<and> u' = u\<lparr>cu_id := cu_id u'\<rparr> \<and>
      (\<exists>t. users_of (pg_db s') = (users_of (pg_db s))(cu_id u' \<mapsto> u'\<lparr>cu_created_at := t\<rparr>))" .
next
  fix u s e s'
  assume "CreateConsoleUser PostgresStore u s = (Inl e, s')"
  then have "pg_CreateConsoleUser u s = (Inl e, s')" by (simp add: PostgresStore_def)
  from pg_create_user(3) [OF this refl] show "users_of (pg_db s') = users_of (pg_db s)" .
next
  fix s i u assume "users_of (pg_db s) i = Some u"
  then show "cu_id u = i" by (auto simp: users_of_def dest: row_at_Some)
next
  fix u s q s'
  assume "UpdateConsoleUser PostgresStore u s = (q, s')" and ok: "db_ok (pg_db s)"
  then show "db_ok (pg_db s')" using update_user_ok
    by (auto simp: pg_console_defs elim!: pg_stmt_keeps)
next
  fix u s x s'
  assume "UpdateConsoleUser PostgresStore u s = (Inr x, s')"
  then have "sqlite_UpdateConsoleUser u (pg_db s) = (Inr x, pg_db s')"
    by (auto simp: pg_console_defs dest: pg_stmt_Inr)
  from update_user_view(1) [OF this refl] show "users_of (pg_db s') =
      (case users_of (pg_db s) (cu_id u) of None \<Rightarrow> users_of (pg_db s)
       | Some old \<Rightarrow> (users_of (pg_db s))(cu_id u \<mapsto> u\<lparr>cu_created_at := cu_created_at old\<rparr>))" .
next
  fix u s e s'
  assume "UpdateConsoleUser PostgresStore u s = (Inl e, s')"
  then show "users_of (pg_db s') = users_of (pg_db s)"
    using update_user_view(2) by (auto simp: pg_console_defs dest!: pg_stmt_Inl)
next
  fix i s q s'
  assume "DeleteConsoleUser PostgresStore i s = (q, s')" and "db_ok (pg_db s)"
  then show "db_ok (pg_db s')" using delete_user_ok
    by (auto simp: pg_console_defs elim!: pg_stmt_keeps)
next
  fix i s x s'
  assume "DeleteConsoleUser PostgresStore i s = (Inr x, s')"
  then show "users_of (pg_db s') = (users_of (pg_db s))(i := None)"
    using delete_user_view(1) by (auto simp: pg_console_defs dest!: pg_stmt_Inr)
next
  fix i s e s'
  assume "DeleteConsoleUser PostgresStore i s = (Inl e, s')"
  then show "users_of (pg_db s') = users_of (pg_db s)"
    using delete_user_view(2) by (auto simp: pg_console_defs dest!: pg_stmt_Inl)
qed

subsection \<open>Tokens\<close>

lemma pg_create_token:
  assumes "pg_CreateProjectToken t s = (r, s')"
  shows "db_ok (pg_db s) \<Longrightarrow> db_ok (pg_db s')"
    and "r = Inr t' \<Longrightarrow> tokens_at (pg_db s) (tok_id t') = None \<and> t' = t\<lparr>tok_id := tok_id t'\<rparr> \<and>
      (\<exists>c. tokens_at (pg_db s') = (tokens_at (pg_db s))(tok_id t' \<mapsto>
         t'\<lparr>tok_allowed_origins := decodeOrigins (encodeOrigins (tok_allowed_origins t)),
            tok_created_at := c, tok_disabled_at := None\<rparr>))"
    and "r = Inl e \<Longrightarrow> tokens_at (pg_db s') = tokens_at (pg_db s)"
proof -
  let ?ts = "project_tokens (pg_db s)"
  let ?row = "\<lambda>i c. \<lparr>tk_id = i, tk_project_id = tok_project_id t, tk_token = tok_token t, tk_label = tok_label t,
    tk_active = tok_active t, tk_allowed_origins = encodeOrigins (tok_allowed_origins t),
    tk_created_at = c, tk_disabled_at = None\<rparr>"
  have *: "pg_db s' = tick_db (pg_db s) \<and> (\<exists>e. r = Inl e) \<or>
    (\<exists>i c. r = Inr (t\<lparr>tok_id := i\<rparr>) \<and> i \<notin> tk_id ` set ?ts \<and> tok_token t \<notin> tk_token ` set ?ts \<and>
       tok_project_id t \<in> prj_id ` set (projects (pg_db s)) \<and>
       pg_db s' = tick_db ((pg_db s)\<lparr>project_tokens := ?ts @ [?row i c]\<rparr>))"
    using assms unfolding pg_CreateProjectToken_def by (cases rule: serial_insert_cases) auto
  show "db_ok (pg_db s) \<Longrightarrow> db_ok (pg_db s')"
  proof -
    assume ok: "db_ok (pg_db s)"
    have "db_ok ((pg_db s)\<lparr>project_tokens := ?ts @ [?row i c]\<rparr>)"
      if "i \<notin> tk_id ` set ?ts" "tok_token t \<notin> tk_token ` set ?ts" "tok_project_id t \<in> prj_id ` set (projects (pg_db s))"
      for i c
      using that by (intro tokens_changed_ok ok) (simp_all add: db_okD [OF ok])
    then show ?thesis using * ok by auto
  qed
  show "r = Inr t' \<Longrightarrow> tokens_at (pg_db s) (tok_id t') = None \<and> t' = t\<lparr>tok_id := tok_id t'\<rparr> \<and>
      (\<exists>c. tokens_at (pg_db s') = (tokens_at (pg_db s))(tok_id t' \<mapsto>
         t'\<lparr>tok_allowed_origins := decodeOrigins (encodeOrigins (tok_allowed_origins t)),
            tok_created_at := c, tok_disabled_at := None\<rparr>))"
  proof -
    assume "r = Inr t'"
    with * obtain i c where i: "t' = t\<lparr>tok_id := i\<rparr>" "i \<notin> tk_id ` set ?ts"
      "pg_db s' = tick_db ((pg_db s)\<lparr>project_tokens := ?ts @ [?row i c]\<rparr>)" by auto
    have new: "i \<notin> tok_id ` set (map token_of_row ?ts)" using i(2) by (simp add: image_image)
    have row: "token_of_row (?row i c) = t'\<lparr>tok_allowed_origins := decodeOrigins (encodeOrigins (tok_allowed_origins t)),
        tok_created_at := c, tok_disabled_at := None\<rparr>"
      by (simp add: token_of_row_def i(1))
    have "tokens_at (pg_db s') = row_at tok_id (map token_of_row ?ts @ [token_of_row (?row i c)])"
      unfolding i(3) by (simp add: tokens_at_def)
    also have "\<dots> = (tokens_at (pg_db s))(i \<mapsto> token_of_row (?row i c))"
      using row_at_snoc [of tok_id "token_of_row (?row i c)" "map token_of_row ?ts"] new by (simp add: tokens_at_def)
    finally show ?thesis using i(1) new unfolding row by (auto simp: tokens_at_def row_at_None)
  qed
  show "r = Inl e \<Longrightarrow> tokens_at (pg_db s') = tokens_at (pg_db s)" using * by auto
qed

lemmas pg_token_defs = PostgresStore_def pg_GetProjectTokenByToken_def pg_ListProjectTokens_def
  pg_UpdateProjectToken_def pg_DeleteProjectToken_def

interpretation pg_control: token_control PostgresStore "\<lambda>s. db_ok (pg_db s)" "\<lambda>s. token_of (pg_db s)" "\<lambda>s. tokens_at (pg_db s)"
proof
  fix t s r s'
  assume "GetProjectTokenByToken PostgresStore t s = (r, s')"
  then have g: "pg_stmt [] [t] (sqlite_GetProjectTokenByToken t) s = (r, s')" by (simp add: pg_token_defs)
  have same: "same_tables (pg_db s) (pg_db s')"
    by (rule pg_stmt_keeps [OF g]) (auto dest: reads_same intro: same_tables_trans)
  then show "db_ok (pg_db s) \<Longrightarrow> db_ok (pg_db s')" by (blast intro: same_tables_ok)
  show "token_of (pg_db s') = token_of (pg_db s)"
    using same by (cases "pg_db s"; cases "pg_db s'") (simp add: same_tables_def token_of_def fun_eq_iff)
next
  fix t s pt s'
  assume "GetProjectTokenByToken PostgresStore t s = (Inr pt, s')" "db_ok (pg_db s)"
  then show "token_of (pg_db s) t = Some pt" by (auto simp: pg_token_defs dest!: pg_stmt_Inr intro: get_token_result)
next
  fix s t pt assume "token_of (pg_db s) t = Some pt"
  then show "tok_token pt = t" by (rule sqlite_tokens.token_of_token)
next
  fix p s q s'
  assume "ListProjectTokens PostgresStore p s = (q, s')"
  then have g: "pg_stmt [p] [] (sqlite_ListProjectTokens p) s = (q, s')" by (simp add: pg_token_defs)
  have "same_tables (pg_db s) (pg_db s')"
    by (rule pg_stmt_keeps [OF g]) (auto dest: reads_same intro: same_tables_trans)
  then show "db_ok (pg_db s) \<Longrightarrow> db_ok (pg_db s')" "tokens_at (pg_db s') = tokens_at (pg_db s)"
    by (blast intro: same_tables_ok same_tables_tokens)+
next
  fix p s ts s' t
  assume "ListProjectTokens PostgresStore p s = (Inr ts, s')" and "db_ok (pg_db s)"
  then show "t \<in> set ts \<longleftrightarrow> tokens_at (pg_db s) (tok_id t) = Some t \<and> tok_project_id t = p"
    using list_tokens_view [of p "pg_db s" ts "pg_db s'" t] by (simp add: pg_token_defs pg_stmt_Inr)
next
  fix t s r s'
  assume "CreateProjectToken PostgresStore t s = (r, s')"
  then have "pg_CreateProjectToken t s = (r, s')" by (simp add: PostgresStore_def)
  then show "db_ok (pg_db s) \<Longrightarrow> db_ok (pg_db s')" by (rule pg_create_token)
next
  fix t s t' s'
  assume "CreateProjectToken PostgresStore t s = (Inr t', s')"
  then have "pg_CreateProjectToken t s = (Inr t', s')" by (simp add: PostgresStore_def)
  from pg_create_token(2) [OF this refl] show "tokens_at (pg_db s) (tok_id t') = None \<and> t' = t\<lparr>tok_id := tok_id t'\<rparr> \<and>
      (\<exists>c. tokens_at (pg_db s') = (tokens_at (pg_db s))(tok_id t' \<mapsto>
         t'\<lparr>tok_allowed_origins := decodeOrigins (encodeOrigins (tok_allowed_origins t)),
            tok_created_at := c, tok_disabled_at := None\<rparr>))" .
next
  fix t s e s'
  assume "CreateProjectToken PostgresStore t s = (Inl e, s')"
  then have "pg_CreateProjectToken t s = (Inl e, s')" by (simp add: PostgresStore_def)
  from pg_create_token(3) [OF this refl] show "tokens_at (pg_db s') = tokens_at (pg_db s)" .
next
  fix t s u s'
  assume "UpdateProjectToken PostgresStore t s = (u, s')" and "db_ok (pg_db s)"
  then show "db_ok (pg_db s')" using update_token_ok by (auto simp: pg_token_defs elim!: pg_stmt_keeps)
next
  fix t s x s'
  assume "UpdateProjectToken PostgresStore t s = (Inr x, s')"
  then have "sqlite_UpdateProjectToken t (pg_db s) = (Inr x, pg_db s')" by (auto simp: pg_token_defs dest: pg_stmt_Inr)
  from update_token_view [OF this] show "tokens_at (pg_db s') = (case tokens_at (pg_db s) (tok_id t) of
      None \<Rightarrow> tokens_at (pg_db s) | Some old \<Rightarrow> (tokens_at (pg_db s))(tok_id t \<mapsto> token_written t old))" .
next
  fix t s e s'
  assume "UpdateProjectToken PostgresStore t s = (Inl e, s')"
  then show "tokens_at (pg_db s') = tokens_at (pg_db s)"
    using token_failures(2) by (auto simp: pg_token_defs dest!: pg_stmt_Inl)
next
  fix i s u s'
  assume "DeleteProjectToken PostgresStore i s = (u, s')" and "db_ok (pg_db s)"
  then show "db_ok (pg_db s')" using delete_token_ok by (auto simp: pg_token_defs elim!: pg_stmt_keeps)
next
  fix i s x s'
  assume "DeleteProjectToken PostgresStore i s = (Inr x, s')"
  then show "tokens_at (pg_db s') = (tokens_at (pg_db s))(i := None)"
    using delete_token_view by (auto simp: pg_token_defs dest!: pg_stmt_Inr)
next
  fix i s e s'
  assume "DeleteProjectToken PostgresStore i s = (Inl e, s')"
  then show "tokens_at (pg_db s') = tokens_at (pg_db s)"
    using token_failures(3) by (auto simp: pg_token_defs dest!: pg_stmt_Inl)
next
  fix s v t assume "db_ok (pg_db s)"
  then show "token_of (pg_db s) v = Some t \<longleftrightarrow> tokens_at (pg_db s) (tok_id t) = Some t \<and> tok_token t = v"
    by (rule sqlite_control.token_of_iff)
next
  fix s i t assume t: "tokens_at (pg_db s) i = Some t"
  show "tok_id t = i" by (rule sqlite_control.tokens_at_id [OF t])
  show "decodeOrigins (encodeOrigins (tok_allowed_origins t)) = tok_allowed_origins t"
    by (rule sqlite_control.stored_origins [OF t])
qed

subsection \<open>Users of the tracked applications\<close>

lemma pg_insert_user_cases:
  assumes "pg_insert_app_user p a s = (r, s')"
  obtains (failed) e where "r = Inl e" "pg_db s' = tick_db (pg_db s)"
  | (inserted) i t where "r = Inr i" "i \<notin> au_id ` set (app_users (pg_db s))"
      "(p, a) \<notin> user_key ` set (app_users (pg_db s))" "p \<in> prj_id ` set (projects (pg_db s))"
      "pg_db s' = tick_db ((pg_db s)\<lparr>app_users := app_users (pg_db s) @
         [\<lparr>au_id = i, au_project_id = p, au_anonymous_id = a, au_created_at = t\<rparr>]\<rparr>)"
proof -
  from assms [unfolded pg_insert_app_user_def] show thesis
  proof (cases rule: serial_insert_cases)
    case (failed e)
    then show ?thesis by (rule that(1))
  next
    case (inserted i)
    show ?thesis by (rule that(2) [of i "pg_now (pg_db s)"]) (use inserted in simp_all)
  qed
qed

text \<open>
  Either the user was there, or the lookup failed or found none; in the last case the insertion failed or
  added one.
\<close>

lemma pg_get_or_create_cases:
  assumes "pg_GetOrCreateAppUser p a s = (r, s')" and ok: "db_ok (pg_db s)"
  obtains (failed) e where "r = Inl e" "same_tables (pg_db s) (pg_db s')"
  | (found) u where "r = Inr u" "row_at user_key (app_users (pg_db s)) (p, a) = Some u" "same_tables (pg_db s) (pg_db s')"
  | (created) u t d where "r = Inr u" "au_project_id u = p" "au_anonymous_id u = a" "same_tables (pg_db s) d"
      "au_id u \<notin> au_id ` set (app_users d)" "(p, a) \<notin> user_key ` set (app_users d)" "p \<in> prj_id ` set (projects d)"
      "pg_db s' = tick_db (d\<lparr>app_users := app_users d @
         [\<lparr>au_id = au_id u, au_project_id = p, au_anonymous_id = a, au_created_at = t\<rparr>]\<rparr>)"
proof -
  let ?q = "query (\<lambda>d. query_row (scan d (filter (\<lambda>u. au_project_id u = p \<and> au_anonymous_id u = a) (app_users d))))"
  obtain r1 s1 where q: "pg_stmt [p] [a] ?q s = (r1, s1)" by fastforce
  have same: "same_tables (pg_db s) (pg_db s1)"
    by (rule pg_stmt_keeps [OF q]) (auto dest: query_same intro: same_tables_trans)
  show thesis
  proof (cases r1)
    case (Inr u)
    have "row_at user_key (app_users (pg_db s)) (p, a) = Some u"
      using pg_stmt_Inr [OF q [unfolded Inr]] find_user [OF ok, of "pg_db s" p a]
      by (auto simp: query_Inr split: option.splits)
    moreover have "r = Inr u" "s' = s1" using assms(1) q Inr by (simp_all add: pg_GetOrCreateAppUser_def)
    ultimately show thesis using found same by blast
  next
    case (Inl e)
    show thesis
    proof (cases "e = ErrNoRows")
      case False
      then have "r = Inl e" "s' = s1" using assms(1) q Inl by (simp_all add: pg_GetOrCreateAppUser_def)
      then show thesis using failed same by blast
    next
      case True
      obtain r2 s2 where i: "pg_insert_app_user p a s1 = (r2, s2)" by fastforce
      from i show thesis
      proof (cases rule: pg_insert_user_cases)
        case (failed e')
        then have "r = Inl e'" "s' = s2" using assms(1) q Inl True i by (simp_all add: pg_GetOrCreateAppUser_def)
        then show thesis using that(1) failed(2) same_tables_trans [OF same same_tables_tick] by simp
      next
        case (inserted j t)
        let ?u = "\<lparr>au_id = j, au_project_id = p, au_anonymous_id = a, au_created_at = go_zero_time\<rparr>"
        have "r = Inr ?u" "s' = s2" using assms(1) q Inl True i inserted(1) by (simp_all add: pg_GetOrCreateAppUser_def)
        then show thesis using created [of ?u "pg_db s1" t] inserted same by simp
      qed
    qed
  qed
qed

lemma same_tables_views:
  assumes "same_tables d d'"
  shows "user_of d' = user_of d" "link_of d' = link_of d" "events_of d' = events_of d" "props_of d' = props_of d"
  using assms by (cases d; cases d'; simp add: same_tables_def user_of_def link_of_def events_of_def props_of_def fun_eq_iff)+

lemma user_added_views:
  assumes "(p, a) \<notin> user_key ` set (app_users d)" and "i \<notin> au_id ` set (app_users d)"
    and "d' = tick_db (d\<lparr>app_users := app_users d @
         [\<lparr>au_id = i, au_project_id = p, au_anonymous_id = a, au_created_at = t\<rparr>]\<rparr>)"
  shows "user_of d (p, a) = None" "user_of d' = (user_of d)((p, a) \<mapsto> i)" "i \<notin> ran (user_of d)" "link_of d' = link_of d"
proof -
  let ?u = "\<lparr>au_id = i, au_project_id = p, au_anonymous_id = a, au_created_at = t\<rparr>"
  show "user_of d (p, a) = None" using assms(1) by (simp add: user_of_def row_at_None)
  show "user_of d' = (user_of d)((p, a) \<mapsto> i)"
    using row_at_snoc [of user_key ?u "app_users d"] assms(1) by (simp add: assms(3) user_of_def fun_eq_iff)
  show "i \<notin> ran (user_of d)" using ran_user_of [of d] assms(2) by auto
  show "link_of d' = link_of d" by (simp add: assms(3) link_of_def fun_eq_iff)
qed

interpretation pg_users: identity_store PostgresStore "\<lambda>s. db_ok (pg_db s)" "\<lambda>s. user_of (pg_db s)" "\<lambda>s. link_of (pg_db s)"
proof
  fix p a s r s'
  assume "GetOrCreateAppUser PostgresStore p a s = (r, s')" and ok: "db_ok (pg_db s)"
  then have g: "pg_GetOrCreateAppUser p a s = (r, s')" by (simp add: PostgresStore_def)
  from g ok show "db_ok (pg_db s')"
  proof (cases rule: pg_get_or_create_cases)
    case (created u t d)
    have "db_ok d" using same_tables_ok [OF created(4) ok] .
    then show ?thesis using created(5-8) by (auto intro!: app_users_added_ok)
  qed (use ok same_tables_ok in blast)+
  from g ok show "link_of (pg_db s') = link_of (pg_db s)"
  proof (cases rule: pg_get_or_create_cases)
    case (created u t d)
    show ?thesis using user_added_views(4) [OF created(6,5,8)] same_tables_views(2) [OF created(4)] by simp
  qed (blast dest: same_tables_views)+
next
  fix p a s u s'
  assume "GetOrCreateAppUser PostgresStore p a s = (Inr u, s')" and ok: "db_ok (pg_db s)"
  then have g: "pg_GetOrCreateAppUser p a s = (Inr u, s')" by (simp add: PostgresStore_def)
  from g ok show "au_project_id u = p \<and> au_anonymous_id u = a \<and> user_of (pg_db s') = (user_of (pg_db s))((p, a) \<mapsto> au_id u) \<and>
          (case user_of (pg_db s) (p, a) of Some i \<Rightarrow> au_id u = i | None \<Rightarrow> au_id u \<notin> ran (user_of (pg_db s)))"
  proof (cases rule: pg_get_or_create_cases)
    case (found v)
    then have u: "u = v" by simp
    have v: "user_of (pg_db s) (p, a) = Some (au_id u)" using found(2) u by (simp add: user_of_def)
    then show ?thesis
      using row_at_Some [OF found(2)] u same_tables_views(1) [OF found(3)] by auto
  next
    case (created v t d)
    then have u: "u = v" by simp
    note views = user_added_views [OF created(6,5,8)]
    show ?thesis using views(1-3) created(2,3) u by (simp add: same_tables_views(1) [OF created(4)])
  qed simp
next
  fix p a s e s'
  assume "GetOrCreateAppUser PostgresStore p a s = (Inl e, s')" and ok: "db_ok (pg_db s)"
  then have "pg_GetOrCreateAppUser p a s = (Inl e, s')" by (simp add: PostgresStore_def)
  from this ok show "user_of (pg_db s') = user_of (pg_db s)"
    by (cases rule: pg_get_or_create_cases) (simp_all add: same_tables_views)
next
  fix dev uid s q s'
  assume "LinkDeviceToUser PostgresStore dev uid s = (q, s')"
  then have l: "pg_stmt [uid] [dev] (sqlite_LinkDeviceToUser dev uid) s = (q, s')"
    by (simp add: PostgresStore_def pg_LinkDeviceToUser_def)
  show "db_ok (pg_db s) \<Longrightarrow> db_ok (pg_db s')" using link_device_ok by (auto intro: pg_stmt_keeps [OF l])
  show "user_of (pg_db s') = user_of (pg_db s)"
    by (rule pg_stmt_keeps [OF l]) (auto dest: link_device_view(1))
next
  fix dev uid s x s'
  assume "LinkDeviceToUser PostgresStore dev uid s = (Inr x, s')"
  then have "sqlite_LinkDeviceToUser dev uid (pg_db s) = (Inr x, pg_db s')"
    by (auto simp: PostgresStore_def pg_LinkDeviceToUser_def dest: pg_stmt_Inr)
  from link_device_view(2) [OF this] show "link_of (pg_db s') =
      (if link_of (pg_db s) dev = None then link_of (pg_db s) else (link_of (pg_db s))(dev \<mapsto> Some uid))" by simp
next
  fix dev uid s e s'
  assume "LinkDeviceToUser PostgresStore dev uid s = (Inl e, s')"
  then show "link_of (pg_db s') = link_of (pg_db s)"
    by (auto simp: PostgresStore_def pg_LinkDeviceToUser_def dest!: pg_stmt_Inl link_device_view(3))
qed

subsection \<open>Events\<close>

lemma pg_insert_event_cases:
  assumes "pg_InsertEvent ev s = (r, s')"
  obtains (failed) e where "r = Inl e" "pg_db s' = tick_db (pg_db s)"
  | (known) "r = Inr False" "ev_id ev \<in> e_id ` set (events (pg_db s))" "pg_db s' = tick_db (pg_db s)"
  | (stored) now where "r = Inr True" "ev_id ev \<notin> e_id ` set (events (pg_db s))"
      "ev_project_id ev \<in> prj_id ` set (projects (pg_db s))" "ev_device_id ev \<in> d_id ` set (devices (pg_db s))"
      "user_ref_ok (pg_db s) (ev_user_id ev)"
      "pg_db s' = tick_db ((pg_db s)\<lparr>events := events (pg_db s) @ [event_row now ev]\<rparr>)"
proof -
  let ?bad = "ev_project_id ev \<notin> set (map prj_id (projects (pg_db s)))
      \<or> ev_device_id ev \<notin> set (map d_id (devices (pg_db s))) \<or> \<not> user_ref_ok (pg_db s) (ev_user_id ev)"
  let ?known = "ev_id ev \<in> set (map e_id (events (pg_db s)))"
  have *: "r = (if ?known then Inr False else if ?bad then Inl ErrConstraint else Inr True) \<and>
      pg_db s' = tick_db (if ?known \<or> ?bad then pg_db s
        else (pg_db s)\<lparr>events := events (pg_db s) @ [event_row (pg_now (pg_db s)) ev]\<rparr>)"
    if "r \<noteq> Inl ErrDriver \<or> pg_db s' \<noteq> tick_db (pg_db s)"
    using assms that by (auto simp: pg_InsertEvent_def pg_stmt_def pg_tick_def run_stmt_def split: if_splits)
  show thesis
  proof (cases "r = Inl ErrDriver \<and> pg_db s' = tick_db (pg_db s)")
    case True
    then show ?thesis using that(1) by blast
  next
    case False
    then have r: "r = (if ?known then Inr False else if ?bad then Inl ErrConstraint else Inr True)"
      and d: "pg_db s' = tick_db (if ?known \<or> ?bad then pg_db s
        else (pg_db s)\<lparr>events := events (pg_db s) @ [event_row (pg_now (pg_db s)) ev]\<rparr>)" using * by blast+
    consider ?known | "\<not> ?known" ?bad | "\<not> ?known" "\<not> ?bad" by blast
    then show ?thesis
    proof cases
      case 1
      show ?thesis by (rule that(2)) (use r d 1 in simp_all)
    next
      case 2
      show ?thesis by (rule that(1)) (use r d 2 in simp_all)
    next
      case 3
      show ?thesis by (rule that(3)) (use r d 3 in simp_all)
    qed
  qed
qed

lemma pg_insert_property_cases:
  assumes "pg_insert_property p s = (r, s')"
  obtains (failed) e where "r = Inl e" "pg_db s' = tick_db (pg_db s)"
  | (inserted) i where "r = Inr ()" "i \<notin> ep_id ` set (event_properties (pg_db s))" "ep_value_type p \<in> set value_types"
      "ep_event_id p \<in> e_id ` set (events (pg_db s))"
      "pg_db s' = tick_db ((pg_db s)\<lparr>event_properties := event_properties (pg_db s) @ [p\<lparr>ep_id := i\<rparr>]\<rparr>)"
proof -
  from assms [unfolded pg_insert_property_def] show thesis
  proof (cases rule: serial_insert_cases)
    case (failed e)
    then show ?thesis by (rule that(1))
  next
    case (inserted i)
    show ?thesis by (rule that(2) [of i]) (use inserted in simp_all)
  qed
qed

lemma pg_insert_property_view:
  assumes "pg_insert_property p s = (r, s')"
  shows "db_ok (pg_db s) \<Longrightarrow> db_ok (pg_db s')" "events_of (pg_db s') = events_of (pg_db s)"
    and "r = Inr u \<Longrightarrow> props_of (pg_db s') = props_of (pg_db s) @ [strip_id p]"
  using assms
  by (cases rule: pg_insert_property_cases; auto intro!: property_added_ok simp: events_of_def props_of_def)+

lemma pg_insert_properties_view:
  assumes "pg_insert_properties ps s = (r, s')"
  shows "(db_ok (pg_db s) \<longrightarrow> db_ok (pg_db s')) \<and> events_of (pg_db s') = events_of (pg_db s) \<and>
    (is_ok r \<longrightarrow> props_of (pg_db s') = props_of (pg_db s) @ map strip_id ps)"
  using assms
proof (induction ps arbitrary: s)
  case (Cons p ps)
  obtain q s1 where q: "pg_insert_property p s = (q, s1)" by fastforce
  note v = pg_insert_property_view [OF q]
  show ?case
  proof (cases q)
    case (Inl e)
    then show ?thesis using Cons.prems q v(1,2) by auto
  next
    case (Inr u)
    then have "pg_insert_properties ps s1 = (r, s')" using Cons.prems q by simp
    from Cons.IH [OF this] show ?thesis using v(1,2) v(3) [OF Inr] by simp
  qed
qed simp

lemma rollback_views [simp]:
  "events_of (rollback_to d d') = events_of d" "props_of (rollback_to d d') = props_of d"
  by (simp_all add: events_of_def props_of_def fun_eq_iff)

text \<open>The transaction: all properties are added, in order, or none.\<close>

lemma pg_nop_state: "pg_stmt [] [] nop_stmt s = (r, s') \<Longrightarrow> pg_db s' = tick_db (pg_db s)"
  by (erule pg_stmt_cases) (auto dest: nop_stmt_state)

lemma pg_insert_event_properties_view:
  assumes "pg_InsertEventProperties ps s = (r, s')"
  shows "(db_ok (pg_db s) \<longrightarrow> db_ok (pg_db s')) \<and> events_of (pg_db s') = events_of (pg_db s) \<and>
    props_of (pg_db s') = props_of (pg_db s) @ (if is_ok r then map strip_id ps else [])"
proof -
  obtain r1 s1 where st1: "pg_stmt [] [] nop_stmt s = (r1, s1)" by fastforce
  obtain r2 s2 where st2: "pg_stmt [] [] nop_stmt s1 = (r2, s2)" by fastforce
  obtain r3 s3 where st3: "pg_insert_properties ps s2 = (r3, s3)" by fastforce
  obtain r4 s4 where st4: "pg_stmt [] [] nop_stmt s3 = (r4, s4)" by fastforce
  have p: "(db_ok (pg_db s) \<longrightarrow> db_ok (pg_db s3)) \<and> events_of (pg_db s3) = events_of (pg_db s) \<and>
    (is_ok r3 \<longrightarrow> props_of (pg_db s3) = props_of (pg_db s) @ map strip_id ps)"
    using pg_insert_properties_view [OF st3] by (simp add: pg_nop_state [OF st1] pg_nop_state [OF st2])
  note run = assms [unfolded pg_InsertEventProperties_def, simplified st1 st2 st3 st4 prod.case]
  note db = pg_nop_state [OF st1] pg_nop_state [OF st2] pg_nop_state [OF st4] pg_rollback_to_def
  consider e where "r1 = Inl e" | x e where "r1 = Inr x" "r2 = Inl e" | x y e where "r1 = Inr x" "r2 = Inr y" "r3 = Inl e"
    | x y z where "r1 = Inr x" "r2 = Inr y" "r3 = Inr z" by (cases r1; cases r2; cases r3) auto
  then show ?thesis
  proof cases
    case 1
    then have "r = Inl e" "s' = s1" using run by simp_all
    then show ?thesis by (simp add: db)
  next
    case 2
    then have "r = Inl e" "s' = pg_rollback_to s1 s2" using run by simp_all
    then show ?thesis by (simp add: db)
  next
    case 3
    then have "r = Inl e" "s' = pg_rollback_to s1 s3" using run by simp_all
    then show ?thesis by (simp add: db)
  next
    case 4
    show ?thesis
    proof (cases r4)
      case (Inl e)
      then have "r = Inl e" "s' = pg_rollback_to s1 s4" using run 4 by simp_all
      then show ?thesis by (simp add: db)
    next
      case (Inr u)
      then have "r = Inr ()" "s' = s4" using run 4 by simp_all
      then show ?thesis using p 4(3) by (simp add: db)
    qed
  qed
qed

interpretation pg_events: event_store PostgresStore "\<lambda>s. db_ok (pg_db s)" "\<lambda>s. events_of (pg_db s)" "\<lambda>s. props_of (pg_db s)"
proof
  fix ev s r s'
  assume "InsertEvent PostgresStore ev s = (r, s')"
  then have i: "pg_InsertEvent ev s = (r, s')" by (simp add: PostgresStore_def)
  show "db_ok (pg_db s')" if "db_ok (pg_db s)"
    using i that by (cases rule: pg_insert_event_cases) (auto intro!: events_added_ok simp: event_row_def)
  show "props_of (pg_db s') = props_of (pg_db s)"
    using i by (cases rule: pg_insert_event_cases) (simp_all add: props_of_def)
next
  fix ev s s'
  assume "InsertEvent PostgresStore ev s = (Inr True, s')"
  then have "pg_InsertEvent ev s = (Inr True, s')" by (simp add: PostgresStore_def)
  then show "events_of (pg_db s) (ev_id ev) = None \<and>
      (\<exists>e. stored_as ev e \<and> events_of (pg_db s') = (events_of (pg_db s))(ev_id ev \<mapsto> e))"
  proof (cases rule: pg_insert_event_cases)
    case (stored now)
    have id: "e_id (event_row now ev) = ev_id ev" by (simp add: event_row_def)
    show ?thesis
      using stored(2) row_at_snoc [of e_id "event_row now ev" "events (pg_db s)"] event_row_stored [of ev now]
      by (auto simp: stored(6) events_of_def row_at_None id)
  qed simp_all
next
  fix ev s s'
  assume "InsertEvent PostgresStore ev s = (Inr False, s')"
  then have "pg_InsertEvent ev s = (Inr False, s')" by (simp add: PostgresStore_def)
  then show "events_of (pg_db s) (ev_id ev) \<noteq> None \<and> events_of (pg_db s') = events_of (pg_db s)"
    by (cases rule: pg_insert_event_cases) (simp_all add: events_of_def row_at_None)
next
  fix ev s s' x
  assume "InsertEvent PostgresStore ev s = (Inl x, s')"
  then have "pg_InsertEvent ev s = (Inl x, s')" by (simp add: PostgresStore_def)
  then show "events_of (pg_db s') = events_of (pg_db s)"
    by (cases rule: pg_insert_event_cases) simp_all
next
  fix ps s q s'
  assume "InsertEventProperties PostgresStore ps s = (q, s')"
  then have i: "pg_InsertEventProperties ps s = (q, s')" by (simp add: PostgresStore_def)
  show "db_ok (pg_db s) \<Longrightarrow> db_ok (pg_db s')" "events_of (pg_db s') = events_of (pg_db s)"
    using pg_insert_event_properties_view [OF i] by simp_all
next
  fix ps s u s'
  assume "InsertEventProperties PostgresStore ps s = (Inr u, s')"
  then have i: "pg_InsertEventProperties ps s = (Inr u, s')" by (simp add: PostgresStore_def)
  show "props_of (pg_db s') = props_of (pg_db s) @ map strip_id ps"
    using pg_insert_event_properties_view [OF i] by simp
next
  fix ps s x s'
  assume "InsertEventProperties PostgresStore ps s = (Inl x, s')"
  then have i: "pg_InsertEventProperties ps s = (Inl x, s')" by (simp add: PostgresStore_def)
  show "props_of (pg_db s') = props_of (pg_db s)"
    using pg_insert_event_properties_view [OF i] by simp
next
  fix dev s u' s'
  assume "GetDeviceUserID PostgresStore dev s = (u', s')"
  then have "pg_stmt [] [dev] (sqlite_GetDeviceUserID dev) s = (u', s')"
    by (simp add: PostgresStore_def pg_GetDeviceUserID_def)
  then have "pg_db s' = tick_db (pg_db s)" by (cases rule: pg_stmt_cases) (auto dest: device_user_state)
  then show "db_ok (pg_db s) \<Longrightarrow> db_ok (pg_db s')" "events_of (pg_db s') = events_of (pg_db s)"
    "props_of (pg_db s') = props_of (pg_db s)" by simp_all
qed

end
