(* ===== verification/Postgres_Reach.thy ===== *)
theory Postgres_Reach
  imports Postgres_Ok
begin

text \<open>
  The Postgres databases a run can reach: the schema's constraints hold in all of them, and the id of a
  deleted row is never given out again, since it comes from a sequence.
\<close>

subsection \<open>Where ids come from\<close>

fun ids_of :: "pg_table \<Rightarrow> db \<Rightarrow> int set" where
  "ids_of PgProjects d = prj_id ` set (projects d)"
| "ids_of PgTokens d = tk_id ` set (project_tokens d)"
| "ids_of PgConsoleUsers d = cu_id ` set (console_users d)"
| "ids_of PgAppUsers d = au_id ` set (app_users d)"
| "ids_of PgProperties d = ep_id ` set (event_properties d)"

lemma ids_of_tick [simp]: "ids_of tab (tick_db d) = ids_of tab d"
  by (cases tab) simp_all

lemma ids_of_same: "same_tables d d' \<Longrightarrow> ids_of tab d' = ids_of tab d"
  by (cases tab; cases d; cases d') (simp_all add: same_tables_def)

lemma ids_of_rollback [simp]: "ids_of tab (rollback_to d d') = ids_of tab d"
  by (cases tab) (simp_all add: rollback_to_def)

text \<open>A statement that draws no id.\<close>

definition no_new_ids :: "db \<Rightarrow> db \<Rightarrow> bool" where
  "no_new_ids d d' \<longleftrightarrow> (\<forall>tab. ids_of tab d' \<subseteq> ids_of tab d)"

lemma no_new_ids_tables:
  assumes "prj_id ` set (projects d') \<subseteq> prj_id ` set (projects d)"
    and "tk_id ` set (project_tokens d') \<subseteq> tk_id ` set (project_tokens d)"
    and "cu_id ` set (console_users d') \<subseteq> cu_id ` set (console_users d)"
    and "au_id ` set (app_users d') \<subseteq> au_id ` set (app_users d)"
    and "ep_id ` set (event_properties d') \<subseteq> ep_id ` set (event_properties d)"
  shows "no_new_ids d d'"
  unfolding no_new_ids_def
proof
  fix tab show "ids_of tab d' \<subseteq> ids_of tab d" using assms by (cases tab) simp_all
qed

lemma no_new_ids_refl [simp]: "no_new_ids d d" "no_new_ids d (tick_db d)"
  by (simp_all add: no_new_ids_def)

lemma no_new_ids_trans: "no_new_ids d d' \<Longrightarrow> no_new_ids d' d'' \<Longrightarrow> no_new_ids d d''"
  by (meson no_new_ids_def subset_trans)

lemma no_new_ids_same: "same_tables d d' \<Longrightarrow> no_new_ids d d'"
  by (simp add: no_new_ids_def ids_of_same)

lemma no_new_ids_run:
  assumes "run_stmt f d = (r, d')" and "\<And>r d'. f d = (r, d') \<Longrightarrow> no_new_ids d d'"
  shows "no_new_ids d d'"
  using assms no_new_ids_trans [OF _ no_new_ids_refl(2)] by (auto simp: run_stmt_def split: if_splits prod.splits)

lemma changes_draw_no_id:
  "sqlite_UpdateConsoleUser u d = (r, d') \<Longrightarrow> no_new_ids d d'"
  "sqlite_DeleteConsoleUser i d = (r, d') \<Longrightarrow> no_new_ids d d'"
  "sqlite_UpdateProject p d = (r, d') \<Longrightarrow> no_new_ids d d'"
  "sqlite_UpdateProjectToken t d = (r, d') \<Longrightarrow> no_new_ids d d'"
  "sqlite_DeleteProjectToken i d = (r, d') \<Longrightarrow> no_new_ids d d'"
  "sqlite_LinkDeviceToUser dev uid d = (r, d') \<Longrightarrow> no_new_ids d d'"
  unfolding sqlite_UpdateConsoleUser_def sqlite_DeleteConsoleUser_def sqlite_UpdateProject_def
    sqlite_UpdateProjectToken_def sqlite_DeleteProjectToken_def sqlite_LinkDeviceToUser_def
  by (erule no_new_ids_run; rule no_new_ids_tables; auto split: if_splits intro: rev_image_eqI)+

lemma deletions_draw_no_id:
  "sqlite_DeleteProject i d = (r, d') \<Longrightarrow> no_new_ids d d'"
  "sqlite_CleanupEvents p before d = (n, d') \<Longrightarrow> no_new_ids d d'"
proof -
  have e: "no_new_ids d (delete_events P d)" for P d
    by (rule no_new_ids_tables) (auto simp: delete_events_def)
  have dev: "no_new_ids d (delete_devices P d)" for P d
    by (rule no_new_ids_tables) (auto simp: delete_devices_def delete_events_def Let_def)
  have u: "no_new_ids d (delete_app_users P d)" for P d
    by (rule no_new_ids_tables) (auto simp: delete_app_users_def Let_def)
  have p: "no_new_ids d (delete_project i d)"
  proof -
    define d3 where "d3 = delete_app_users (\<lambda>u. au_project_id u = i)
      (delete_devices (\<lambda>x. d_project_id x = i) (delete_events (\<lambda>e. e_project_id e = i) d))"
    have "no_new_ids d d3" unfolding d3_def by (rule no_new_ids_trans [OF no_new_ids_trans [OF e dev] u])
    moreover have "no_new_ids d3 (delete_project i d)"
      unfolding delete_project_def Let_def d3_def [symmetric] by (rule no_new_ids_tables) auto
    ultimately show ?thesis by (rule no_new_ids_trans)
  qed
  show "sqlite_DeleteProject i d = (r, d') \<Longrightarrow> no_new_ids d d'"
    unfolding sqlite_DeleteProject_def by (erule no_new_ids_run) (use p in auto)
  show "sqlite_CleanupEvents p before d = (n, d') \<Longrightarrow> no_new_ids d d'"
    unfolding sqlite_CleanupEvents_def by (erule no_new_ids_run) (use e in \<open>auto simp: Let_def\<close>)
qed

subsection \<open>Sequences only grow\<close>

definition fresh_ids :: "pg \<Rightarrow> pg \<Rightarrow> bool" where
  "fresh_ids s s' \<longleftrightarrow> (\<forall>tab. pg_seq s tab \<le> pg_seq s' tab \<and> (pg_seq s tab < 2 ^ 31 \<longrightarrow> pg_seq s' tab < 2 ^ 31) \<and>
     (\<forall>i \<in> ids_of tab (pg_db s'). i \<in> ids_of tab (pg_db s) \<or> pg_seq s tab < i \<and> i \<le> pg_seq s' tab))"

lemma fresh_ids_refl [simp]: "fresh_ids s s"
  by (simp add: fresh_ids_def)

lemma fresh_ids_trans: "fresh_ids s1 s2 \<Longrightarrow> fresh_ids s2 s3 \<Longrightarrow> fresh_ids s1 s3"
  unfolding fresh_ids_def by (meson order.trans le_less_trans less_le_trans)

lemma fresh_ids_stmt:
  assumes "pg_stmt ints texts f s = (r, s')" and "\<And>r d'. f (pg_db s) = (r, d') \<Longrightarrow> no_new_ids (pg_db s) d'"
  shows "fresh_ids s s'"
proof -
  have "no_new_ids (pg_db s) (pg_db s')"
    by (rule pg_stmt_keeps [OF assms(1)]) (auto intro: assms(2) no_new_ids_trans)
  moreover have "pg_seq s' = pg_seq s"
    using assms(1) by (auto simp: pg_stmt_def pg_tick_def split: if_splits prod.splits)
  ultimately show ?thesis unfolding fresh_ids_def no_new_ids_def by auto
qed

lemma fresh_ids_insert:
  assumes "pg_serial tab ints texts
    (\<lambda>i. run_stmt (\<lambda>d. if bad i d then (Inl ErrConstraint, d) else (Inr (res i), row_added i d))) s = (r, s')"
    and "\<And>t i d. ids_of t (row_added i d) = (if t = tab then insert i (ids_of t d) else ids_of t d)"
  shows "fresh_ids s s'"
proof -
  have i4: "int4 (pg_seq s tab + 1) \<Longrightarrow> pg_seq s tab + 1 < 2 ^ 31" by (simp add: int4_def)
  have seq: "pg_seq s' = pg_seq s \<or> (pg_seq s' = (pg_seq s)(tab := pg_seq s tab + 1) \<and> pg_seq s tab + 1 < 2 ^ 31)"
    using assms(1) i4 by (auto simp: pg_serial_def pg_tick_def Let_def split: if_splits prod.splits)
  from assms(1) show ?thesis
  proof (cases rule: serial_insert_cases)
    case (failed e)
    then show ?thesis using seq by (auto simp: fresh_ids_def)
  next
    case (inserted i)
    have "pg_seq s' tab = pg_seq s tab + 1" using inserted(4,5) by simp
    with seq have "pg_seq s tab + 1 < 2 ^ 31" by auto
    then show ?thesis using inserted by (auto simp: fresh_ids_def assms(2))
  qed
qed

lemma inserts_fresh:
  "pg_CreateConsoleUser u s = (r1, s') \<Longrightarrow> fresh_ids s s'"
  "pg_CreateProject p s = (r2, s') \<Longrightarrow> fresh_ids s s'"
  "pg_CreateProjectToken t s = (r3, s') \<Longrightarrow> fresh_ids s s'"
  "pg_insert_app_user i a s = (r4, s') \<Longrightarrow> fresh_ids s s'"
  "pg_insert_property x s = (r5, s') \<Longrightarrow> fresh_ids s s'"
proof -

  show "pg_CreateConsoleUser u s = (r1, s') \<Longrightarrow> fresh_ids s s'"
    unfolding pg_CreateConsoleUser_def
  proof (erule fresh_ids_insert)
    fix t i d
    show "ids_of t (d\<lparr>console_users := console_users d @ [u\<lparr>cu_id := i, cu_created_at := pg_now d\<rparr>]\<rparr>) =
      (if t = PgConsoleUsers then insert i (ids_of t d) else ids_of t d)" by (cases t) auto
  qed
  show "pg_CreateProject p s = (r2, s') \<Longrightarrow> fresh_ids s s'"
    unfolding pg_CreateProject_def
  proof (erule fresh_ids_insert)
    fix t i d
    show "ids_of t (d\<lparr>projects := projects d @ [p\<lparr>prj_id := i, prj_created_at := pg_now d\<rparr>]\<rparr>) =
      (if t = PgProjects then insert i (ids_of t d) else ids_of t d)" by (cases t) auto
  qed
  show "pg_CreateProjectToken t s = (r3, s') \<Longrightarrow> fresh_ids s s'"
    unfolding pg_CreateProjectToken_def
    by (erule fresh_ids_insert) (case_tac ta; simp)
  show "pg_insert_app_user i a s = (r4, s') \<Longrightarrow> fresh_ids s s'"
    unfolding pg_insert_app_user_def
    by (erule fresh_ids_insert) (case_tac t; simp)
  show "pg_insert_property x s = (r5, s') \<Longrightarrow> fresh_ids s s'"
    unfolding pg_insert_property_def
    by (erule fresh_ids_insert) (case_tac t; simp)
qed

subsection \<open>Reading\<close>

definition pg_same :: "pg \<Rightarrow> pg \<Rightarrow> bool" where
  "pg_same s s' \<longleftrightarrow> same_tables (pg_db s) (pg_db s') \<and> pg_seq s' = pg_seq s"

lemma pg_same_refl [simp]: "pg_same s s"
  by (simp add: pg_same_def)

lemma pg_same_trans: "pg_same s1 s2 \<Longrightarrow> pg_same s2 s3 \<Longrightarrow> pg_same s1 s3"
  by (auto simp: pg_same_def intro: same_tables_trans)

lemma pg_stmt_same:
  assumes "pg_stmt ints texts f s = (r, s')" and "\<And>r d'. f (pg_db s) = (r, d') \<Longrightarrow> same_tables (pg_db s) d'"
  shows "pg_same s s'"
proof -
  have "same_tables (pg_db s) (pg_db s')"
    by (rule pg_stmt_keeps [OF assms(1)]) (auto intro: assms(2) same_tables_trans [OF _ same_tables_tick])
  moreover have "pg_seq s' = pg_seq s"
    using assms(1) by (auto simp: pg_stmt_def pg_tick_def split: if_splits prod.splits)
  ultimately show ?thesis by (simp add: pg_same_def)
qed

lemma pg_query_same: "pg_stmt ints texts (query q) s = (r, s') \<Longrightarrow> pg_same s s'"
  by (erule pg_stmt_same) (rule query_same)

lemma pg_simple_reads_same:
  "pg_stmt [] [] nop_stmt s = (r0, s') \<Longrightarrow> pg_same s s'"
  "pg_GetConsoleUserByID i s = (r1, s') \<Longrightarrow> pg_same s s'"
  "pg_GetConsoleUserByLogin l s = (r1, s') \<Longrightarrow> pg_same s s'"
  "pg_ListConsoleUsers s = (r2, s') \<Longrightarrow> pg_same s s'"
  "pg_GetProject i s = (r3, s') \<Longrightarrow> pg_same s s'"
  "pg_ListProjects s = (r4, s') \<Longrightarrow> pg_same s s'"
  "pg_GetProjectsWithRetention s = (r4, s') \<Longrightarrow> pg_same s s'"
  "pg_GetProjectTokenByToken t s = (r5, s') \<Longrightarrow> pg_same s s'"
  "pg_ListProjectTokens i s = (r6, s') \<Longrightarrow> pg_same s s'"
  "pg_GetDevice x s = (r7, s') \<Longrightarrow> pg_same s s'"
  "pg_GetDeviceUserID x s = (r8, s') \<Longrightarrow> pg_same s s'"
  "pg_GetDevicesAnalytics i lo hi s = (r9, s') \<Longrightarrow> pg_same s s'"
  "pg_GetGeoAnalytics i lo hi n m s = (r10, s') \<Longrightarrow> pg_same s s'"
  unfolding pg_GetConsoleUserByID_def pg_GetConsoleUserByLogin_def pg_ListConsoleUsers_def pg_GetProject_def
    pg_ListProjects_def pg_GetProjectsWithRetention_def pg_GetProjectTokenByToken_def pg_ListProjectTokens_def
    pg_GetDevice_def pg_GetDeviceUserID_def pg_GetDevicesAnalytics_def pg_GetGeoAnalytics_def
  by (erule pg_stmt_same, erule read_same)+

lemma pg_property_breakdowns_same:
  "pg_property_breakdowns i nm lo hi keys s = (r, s') \<Longrightarrow> pg_same s s'"
proof (induction keys arbitrary: r s s')
  case (Cons k ks)
  show ?case
  proof (cases k)
    case (Pair nm' vt)
    show ?thesis
      using Cons.prems Cons.IH pg_same_trans
      by (fastforce simp: Pair Let_def split: prod.splits dest!: pg_query_same)
  qed
qed simp

lemma pg_analytics_same:
  "pg_GetOverview i lo hi s = (r1, s') \<Longrightarrow> pg_same s s'"
  "pg_GetEventsAnalytics i lo hi iv n m s = (r2, s') \<Longrightarrow> pg_same s s'"
  "pg_GetEventProperties i nm lo hi n m s = (r3, s') \<Longrightarrow> pg_same s s'"
  "pg_GetUsersAnalytics i lo hi iv s = (r4, s') \<Longrightarrow> pg_same s s'"
  "pg_GetRetentionAnalytics i lo hi s = (r5, s') \<Longrightarrow> pg_same s s'"
  unfolding pg_GetOverview_def pg_GetEventsAnalytics_def pg_GetEventProperties_def pg_GetUsersAnalytics_def
    pg_GetRetentionAnalytics_def
  by (auto simp: Let_def split: prod.splits sum.splits
      dest!: pg_query_same pg_property_breakdowns_same intro: pg_same_trans)

lemmas pg_reads_same = pg_simple_reads_same pg_analytics_same

subsection \<open>Reachable databases\<close>

definition pg_kept :: "pg \<Rightarrow> pg \<Rightarrow> bool" where
  "pg_kept s s' \<longleftrightarrow> (db_ok (pg_db s) \<longrightarrow> db_ok (pg_db s')) \<and> fresh_ids s s'"

lemma pg_kept_trans: "pg_kept s1 s2 \<Longrightarrow> pg_kept s2 s3 \<Longrightarrow> pg_kept s1 s3"
  by (auto simp: pg_kept_def intro: fresh_ids_trans)

lemma pg_kept_same: "pg_same s s' \<Longrightarrow> pg_kept s s'"
  by (auto simp: pg_same_def pg_kept_def fresh_ids_def ids_of_same dest: same_tables_ok)

lemma pg_kept_stmt:
  assumes "pg_stmt ints texts f s = (r, s')" and "\<And>r d'. f (pg_db s) = (r, d') \<Longrightarrow> db_ok (pg_db s) \<Longrightarrow> db_ok d'"
    and "\<And>r d'. f (pg_db s) = (r, d') \<Longrightarrow> no_new_ids (pg_db s) d'"
  shows "pg_kept s s'"
  using fresh_ids_stmt [OF assms(1,3)] pg_stmt_keeps [OF assms(1), of db_ok] assms(2)
  by (auto simp: pg_kept_def)

lemma pg_changes_kept:
  "pg_UpdateConsoleUser u s = (r, s') \<Longrightarrow> pg_kept s s'"
  "pg_DeleteConsoleUser i s = (r, s') \<Longrightarrow> pg_kept s s'"
  "pg_UpdateProject p s = (r, s') \<Longrightarrow> pg_kept s s'"
  "pg_DeleteProject i s = (r, s') \<Longrightarrow> pg_kept s s'"
  "pg_UpdateProjectToken t s = (r, s') \<Longrightarrow> pg_kept s s'"
  "pg_DeleteProjectToken i s = (r, s') \<Longrightarrow> pg_kept s s'"
  "pg_LinkDeviceToUser dev uid s = (r, s') \<Longrightarrow> pg_kept s s'"
  "pg_CleanupEvents i before s = (n, s') \<Longrightarrow> pg_kept s s'"
  unfolding pg_UpdateConsoleUser_def pg_DeleteConsoleUser_def pg_UpdateProject_def pg_DeleteProject_def
    pg_UpdateProjectToken_def pg_DeleteProjectToken_def pg_LinkDeviceToUser_def pg_CleanupEvents_def
  by (erule pg_kept_stmt, erule (1) write_ok, erule changes_draw_no_id deletions_draw_no_id)+

lemma pg_upsert_kept: "pg_UpsertDevice x s = (r, s') \<Longrightarrow> pg_kept s s'"
  unfolding pg_UpsertDevice_def
proof (erule pg_kept_stmt)
  fix r d' assume u: "run_stmt (\<lambda>d.
          if dev_id x \<in> set (map d_id (devices d)) then
            (Inr (), d\<lparr>devices :=
               map (\<lambda>r. if d_id r = dev_id x
                        then r\<lparr>d_os_version := Some (dev_os_version x), d_app_version := Some (dev_app_version x),
                               d_locale := Some (dev_locale x), d_last_seen_at := pg_now d\<rparr> else r)
                 (devices d)\<rparr>)
          else if dev_project_id x \<notin> set (map prj_id (projects d)) then (Inl ErrConstraint, d)
          else
            (Inr (), d\<lparr>devices := devices d @
               [\<lparr>d_id = dev_id x, d_project_id = dev_project_id x, d_user_id = None, d_platform = dev_platform x,
                 d_os_version = Some (dev_os_version x), d_app_version = Some (dev_app_version x),
                 d_locale = Some (dev_locale x), d_first_seen_at = pg_now d, d_last_seen_at = pg_now d\<rparr>]\<rparr>)) (pg_db s) = (r, d')"
  show "db_ok (pg_db s) \<Longrightarrow> db_ok d'"
    by (rule run_stmt_ok [OF u]) (assumption, rule device_upserted_ok)
  show "no_new_ids (pg_db s) d'"
    by (rule no_new_ids_run [OF u], rule no_new_ids_tables) (auto split: if_splits)
qed

lemma pg_kept_serial:
  assumes "db_ok (pg_db s) \<Longrightarrow> db_ok (pg_db s')" and "fresh_ids s s'"
  shows "pg_kept s s'"
  using assms by (simp add: pg_kept_def)

lemma pg_create_project_ok:
  assumes "pg_CreateProject p s = (r, s')" and ok: "db_ok (pg_db s)"
  shows "db_ok (pg_db s')"
proof -
  from assms(1) [unfolded pg_CreateProject_def] show ?thesis
  proof (cases rule: serial_insert_cases)
    case (inserted i)
    have "db_ok ((pg_db s)\<lparr>projects := projects (pg_db s) @ [p\<lparr>prj_id := i, prj_created_at := pg_now (pg_db s)\<rparr>]\<rparr>)"
      using inserted(2) by (intro projects_changed_ok ok) (auto simp: db_okD [OF ok])
    then show ?thesis by (simp add: inserted(3))
  qed (simp add: ok)
qed

lemma pg_insert_event_kept:
  assumes "pg_InsertEvent ev s = (r, s')"
  shows "pg_kept s s'"
proof -
  have seq: "pg_seq s' = pg_seq s"
    using assms by (auto simp: pg_InsertEvent_def pg_stmt_def pg_tick_def split: if_splits prod.splits)
  have "no_new_ids (pg_db s) (pg_db s')"
    using assms by (cases rule: pg_insert_event_cases) (auto intro: no_new_ids_tables)
  then have "fresh_ids s s'" using seq by (auto simp: fresh_ids_def no_new_ids_def)
  then show ?thesis
    using pg_events.insert_event_wf [of ev s r s'] assms by (simp add: pg_kept_def PostgresStore_def)
qed

lemma pg_insert_properties_kept: "pg_insert_properties ps s = (r, s') \<Longrightarrow> pg_kept s s'"
proof (induction ps arbitrary: s)
  case (Cons p ps)
  obtain q s1 where q: "pg_insert_property p s = (q, s1)" by fastforce
  have k: "pg_kept s s1" using pg_insert_property_view(1) [OF q] inserts_fresh(5) [OF q] by (rule pg_kept_serial)
  show ?case
  proof (cases q)
    case (Inr u)
    then have "pg_insert_properties ps s1 = (r, s')" using Cons.prems q by simp
    from pg_kept_trans [OF k Cons.IH [OF this]] show ?thesis .
  qed (use Cons.prems q k in simp)
qed (simp add: pg_kept_def)

text \<open>A transaction that is rolled back has used up its ids.\<close>

lemma pg_rollback_kept:
  assumes "pg_kept s s'"
  shows "pg_kept s (pg_rollback_to s s')"
  using assms by (simp add: pg_kept_def fresh_ids_def pg_rollback_to_def)

lemma pg_insert_event_properties_kept:
  assumes "pg_InsertEventProperties ps s = (r, s')"
  shows "pg_kept s s'"
proof -
  obtain r1 s1 where st1: "pg_stmt [] [] nop_stmt s = (r1, s1)" by fastforce
  obtain r2 s2 where st2: "pg_stmt [] [] nop_stmt s1 = (r2, s2)" by fastforce
  obtain r3 s3 where st3: "pg_insert_properties ps s2 = (r3, s3)" by fastforce
  obtain r4 s4 where st4: "pg_stmt [] [] nop_stmt s3 = (r4, s4)" by fastforce
  note run = assms [unfolded pg_InsertEventProperties_def, simplified st1 st2 st3 st4 prod.case]
  note nop = pg_kept_same [OF pg_simple_reads_same(1)]
  have k1: "pg_kept s s1" and k2: "pg_kept s1 s2" using nop [OF st1] nop [OF st2] .
  have k3: "pg_kept s1 s3" using pg_kept_trans [OF k2 pg_insert_properties_kept [OF st3]] .
  have k4: "pg_kept s1 s4" using pg_kept_trans [OF k3 nop [OF st4]] .
  have "s' \<in> {s1, pg_rollback_to s1 s2, pg_rollback_to s1 s3, pg_rollback_to s1 s4, s4}"
    using run by (simp split: sum.splits)
  then show ?thesis
    using k1 pg_kept_trans [OF k1 pg_rollback_kept [OF k2]] pg_kept_trans [OF k1 pg_rollback_kept [OF k3]]
      pg_kept_trans [OF k1 pg_rollback_kept [OF k4]] pg_kept_trans [OF k1 k4] by blast
qed

lemma pg_get_or_create_kept:
  assumes "pg_GetOrCreateAppUser p a s = (r, s')"
  shows "pg_kept s s'"
proof -
  let ?q = "query (\<lambda>d. query_row (scan d (filter (\<lambda>u. au_project_id u = p \<and> au_anonymous_id u = a) (app_users d))))"
  obtain r1 s1 where q: "pg_stmt [p] [a] ?q s = (r1, s1)" by fastforce
  obtain r2 s2 where i: "pg_insert_app_user p a s1 = (r2, s2)" by fastforce
  have "s' = s1 \<or> s' = s2"
    using assms by (auto simp: pg_GetOrCreateAppUser_def q i split: sum.splits if_splits)
  moreover have "fresh_ids s s1" using pg_kept_same [OF pg_query_same [OF q]] by (simp add: pg_kept_def)
  moreover have "fresh_ids s1 s2" by (rule inserts_fresh(4) [OF i])
  ultimately have "fresh_ids s s'" by (auto intro: fresh_ids_trans)
  then show ?thesis
    using pg_users.get_or_create_wf [of p a s r s'] assms by (simp add: pg_kept_def PostgresStore_def)
qed

lemma pg_creates_kept:
  "pg_CreateConsoleUser u s = (r1, s') \<Longrightarrow> pg_kept s s'"
  "pg_CreateProject p s = (r2, s') \<Longrightarrow> pg_kept s s'"
  "pg_CreateProjectToken t s = (r3, s') \<Longrightarrow> pg_kept s s'"
  by (rule pg_kept_serial; (erule (1) pg_create_user(1) pg_create_project_ok pg_create_token(1) | erule inserts_fresh))+

lemmas pg_writes_kept = pg_changes_kept pg_creates_kept pg_upsert_kept pg_insert_event_kept
  pg_insert_event_properties_kept pg_get_or_create_kept

inductive pg_step :: "pg \<Rightarrow> pg \<Rightarrow> bool" where
  pg_ping: "pg_stmt [] [] nop_stmt s = (r, s') \<Longrightarrow> pg_step s s'"
| pg_create_console_user: "pg_CreateConsoleUser u s = (r, s') \<Longrightarrow> pg_step s s'"
| pg_update_console_user: "pg_UpdateConsoleUser u s = (r, s') \<Longrightarrow> pg_step s s'"
| pg_delete_console_user: "pg_DeleteConsoleUser i s = (r, s') \<Longrightarrow> pg_step s s'"
| pg_get_console_user_by_id: "pg_GetConsoleUserByID i s = (r, s') \<Longrightarrow> pg_step s s'"
| pg_get_console_user_by_login: "pg_GetConsoleUserByLogin l s = (r, s') \<Longrightarrow> pg_step s s'"
| pg_list_console_users: "pg_ListConsoleUsers s = (r, s') \<Longrightarrow> pg_step s s'"
| pg_create_project: "pg_CreateProject p s = (r, s') \<Longrightarrow> pg_step s s'"
| pg_update_project: "pg_UpdateProject p s = (r, s') \<Longrightarrow> pg_step s s'"
| pg_delete_project: "pg_DeleteProject i s = (r, s') \<Longrightarrow> pg_step s s'"
| pg_get_project: "pg_GetProject i s = (r, s') \<Longrightarrow> pg_step s s'"
| pg_list_projects: "pg_ListProjects s = (r, s') \<Longrightarrow> pg_step s s'"
| pg_get_projects_with_retention: "pg_GetProjectsWithRetention s = (r, s') \<Longrightarrow> pg_step s s'"
| pg_create_project_token: "pg_CreateProjectToken t s = (r, s') \<Longrightarrow> pg_step s s'"
| pg_update_project_token: "pg_UpdateProjectToken t s = (r, s') \<Longrightarrow> pg_step s s'"
| pg_delete_project_token: "pg_DeleteProjectToken i s = (r, s') \<Longrightarrow> pg_step s s'"
| pg_get_project_token_by_token: "pg_GetProjectTokenByToken x s = (r, s') \<Longrightarrow> pg_step s s'"
| pg_list_project_tokens: "pg_ListProjectTokens i s = (r, s') \<Longrightarrow> pg_step s s'"
| pg_upsert_device: "pg_UpsertDevice v s = (r, s') \<Longrightarrow> pg_step s s'"
| pg_get_device: "pg_GetDevice x s = (r, s') \<Longrightarrow> pg_step s s'"
| pg_link_device_to_user: "pg_LinkDeviceToUser x i s = (r, s') \<Longrightarrow> pg_step s s'"
| pg_get_or_create_app_user: "pg_GetOrCreateAppUser i a s = (r, s') \<Longrightarrow> pg_step s s'"
| pg_insert_event: "pg_InsertEvent ev s = (r, s') \<Longrightarrow> pg_step s s'"
| pg_insert_event_properties: "pg_InsertEventProperties ps s = (r, s') \<Longrightarrow> pg_step s s'"
| pg_get_device_user_id: "pg_GetDeviceUserID x s = (r, s') \<Longrightarrow> pg_step s s'"
| pg_cleanup_events: "pg_CleanupEvents i before s = (r, s') \<Longrightarrow> pg_step s s'"
| pg_get_overview: "pg_GetOverview i lo hi s = (r, s') \<Longrightarrow> pg_step s s'"
| pg_get_events_analytics: "pg_GetEventsAnalytics i lo hi iv n m s = (r, s') \<Longrightarrow> pg_step s s'"
| pg_get_event_properties: "pg_GetEventProperties i nm lo hi n m s = (r, s') \<Longrightarrow> pg_step s s'"
| pg_get_devices_analytics: "pg_GetDevicesAnalytics i lo hi s = (r, s') \<Longrightarrow> pg_step s s'"
| pg_get_geo_analytics: "pg_GetGeoAnalytics i lo hi n m s = (r, s') \<Longrightarrow> pg_step s s'"
| pg_get_users_analytics: "pg_GetUsersAnalytics i lo hi iv s = (r, s') \<Longrightarrow> pg_step s s'"
| pg_get_retention_analytics: "pg_GetRetentionAnalytics i lo hi s = (r, s') \<Longrightarrow> pg_step s s'"

lemma pg_step_kept: "pg_step s s' \<Longrightarrow> pg_kept s s'"
  by (induction rule: pg_step.induct)
     (erule pg_writes_kept | erule pg_reads_same [THEN pg_kept_same])+

text \<open>A run, and the database before its first statement.\<close>

inductive pg_run :: "pg \<Rightarrow> pg \<Rightarrow> bool" where
  run_start: "pg_run s s"
| run_step: "pg_run s s' \<Longrightarrow> pg_step s' s'' \<Longrightarrow> pg_run s s''"

lemma pg_run_kept: "pg_run s s' \<Longrightarrow> pg_kept s s'"
  by (induction rule: pg_run.induct) (simp add: pg_kept_def, blast intro: pg_kept_trans pg_step_kept)

definition empty_pg :: "db \<Rightarrow> (string \<Rightarrow> bool) \<Rightarrow> (string \<Rightarrow> bool) \<Rightarrow> (string \<Rightarrow> string) \<Rightarrow> pg" where
  "empty_pg d text ts collate =
     \<lparr>pg_db = empty_db (db_fault d) (db_clock d) (db_plan d) (db_strftime d), pg_seq = (\<lambda>_. 0),
      pg_text_ok = text, pg_timestamp_ok = ts, pg_collate = collate\<rparr>"

text \<open>
  Integrity of the Postgres store: after any sequence of its methods on a new database, whatever
  statements fail and whatever was rolled back, the keys are unique, every foreign key resolves, the CHECK
  constraints hold, and every id lies between 1 and the last value of its sequence, within 32 bits.
\<close>

theorem pg_reachable_ok:
  assumes "pg_run (empty_pg d text ts collate) s"
  shows "db_ok (pg_db s) \<and> pg_seq s tab < 2 ^ 31 \<and> (\<forall>i. i \<in> ids_of tab (pg_db s) \<longrightarrow> 1 \<le> i \<and> i \<le> pg_seq s tab)"
proof -
  let ?e = "empty_pg d text ts collate"
  have e: "db_ok (pg_db ?e)" "pg_seq ?e tab = 0" "ids_of tab (pg_db ?e) = {}"
    by (simp_all add: empty_pg_def empty_db_ok) (cases tab; simp add: empty_db_def)
  from pg_run_kept [OF assms] have "db_ok (pg_db s)" and f: "fresh_ids ?e s" using e(1) by (simp_all add: pg_kept_def)
  moreover have "pg_seq s tab < 2 ^ 31"
    using f e(2) unfolding fresh_ids_def by (metis zero_less_numeral zero_less_power)
  moreover have "1 \<le> i \<and> i \<le> pg_seq s tab" if "i \<in> ids_of tab (pg_db s)" for i
    using f e(2,3) that unfolding fresh_ids_def by (metis empty_iff zle_add1_eq_le add.commute int_one_le_iff_zero_less)
  ultimately show ?thesis by blast
qed

text \<open>A new database, and a project for the examples.\<close>

definition sample_pg :: pg where
  "sample_pg = empty_pg sample_db (\<lambda>_. True) (\<lambda>_. True) (\<lambda>t. t)"

definition shop :: Project where
  "shop = \<lparr>prj_id = 0, prj_name = ''shop'', prj_retention_days = 7, prj_created_at = 0\<rparr>"

lemma pg_reachable_ok_witness:
  "let s = snd (pg_CreateProject shop sample_pg)
   in db_ok (pg_db s) \<and> ids_of PgProjects (pg_db s) = {1} \<and> 1 \<le> pg_seq s PgProjects \<and> pg_seq s PgProjects < 2 ^ 31"
proof -
  let ?s = "snd (pg_CreateProject shop sample_pg)"
  have "pg_run sample_pg ?s" by (rule run_step [OF run_start pg_create_project [OF surjective_pairing]])
  note pg_reachable_ok [OF this [unfolded sample_pg_def], folded sample_pg_def, of PgProjects]
  moreover have "map prj_id (projects (pg_db ?s)) = [1]" by code_simp
  then have "ids_of PgProjects (pg_db ?s) = {1}" by (simp flip: list.set_map)
  ultimately show ?thesis by (simp add: Let_def)
qed

text \<open>
  On Postgres an id is given once: an account, token, project, user or property whose id was drawn and
  is not there any more never comes back under that id, whatever statements run, fail or are rolled
  back in between; a session token of a deleted account never becomes that of another one.
\<close>

theorem pg_ids_never_reused:
  assumes "pg_run s s'" and "i \<le> pg_seq s tab" and "i \<notin> ids_of tab (pg_db s)"
  shows "i \<notin> ids_of tab (pg_db s')"
  using pg_run_kept [OF assms(1)] assms(2,3) unfolding pg_kept_def fresh_ids_def by force

lemma pg_ids_never_reused_witness:
  "let s = snd (pg_DeleteProject 1 (snd (pg_CreateProject shop sample_pg))); s' = snd (pg_CreateProject shop s)
   in map prj_id (projects (pg_db s')) = [2] \<and> 1 \<notin> ids_of PgProjects (pg_db s')"
proof -
  let ?s = "snd (pg_DeleteProject 1 (snd (pg_CreateProject shop sample_pg)))"
  let ?s' = "snd (pg_CreateProject shop ?s)"
  have "pg_run ?s ?s'" by (rule run_step [OF run_start pg_create_project [OF surjective_pairing]])
  moreover have "1 \<le> pg_seq ?s PgProjects" "projects (pg_db ?s) = []" "map prj_id (projects (pg_db ?s')) = [2]"
    by code_simp+
  ultimately show ?thesis using pg_ids_never_reused [of ?s ?s' 1 PgProjects] by (simp add: Let_def)
qed

end
