(* ===== verification/Postgres_Access.thy ===== *)
theory Postgres_Access
  imports Access Postgres_Reach
begin

text \<open>
  The server on Postgres: the store keeps to the tables as the SQLite store does, so that what \<open>Access\<close>
  proves for every backend holds for it too.
\<close>

subsection \<open>Which tables a method changes\<close>

lemma pg_reading:
  assumes "\<And>d d'. same_tables d d' \<Longrightarrow> I d \<Longrightarrow> I d'"
  shows "reading_methods PostgresStore (\<lambda>s. I (pg_db s))"
  by unfold_locales (auto simp: PostgresStore_def pg_same_def dest!: pg_reads_same intro: assms)

lemma pg_stmt_frame:
  assumes "pg_stmt ints texts f s = (r, s')" and "\<And>r d'. f (pg_db s) = (r, d') \<Longrightarrow> g d' = g (pg_db s)"
    and "\<And>d. g (tick_db d) = g d"
  shows "g (pg_db s') = g (pg_db s)"
  by (rule pg_stmt_keeps [OF assms(1), of "\<lambda>d. g d = g (pg_db s)"]) (auto simp: assms(3) intro: assms(2))

lemma pg_insert_frame:
  assumes "pg_serial tab ints texts
    (\<lambda>i. run_stmt (\<lambda>d. if bad i d then (Inl ErrConstraint, d) else (Inr (res i), row_added i d))) s = (r, s')"
    and "\<And>i d. g (row_added i d) = g d" and "\<And>d. g (tick_db d) = g d"
  shows "g (pg_db s') = g (pg_db s)"
  using assms(1) by (cases rule: serial_insert_cases) (simp_all add: assms(2,3))

lemma pg_tracking_writes:
  "pg_LinkDeviceToUser dev uid s = (r1, s') \<Longrightarrow> console_rows (pg_db s') = console_rows (pg_db s)"
  "pg_UpsertDevice x s = (r1, s') \<Longrightarrow> console_rows (pg_db s') = console_rows (pg_db s)"
  "pg_insert_app_user i a s = (r3, s') \<Longrightarrow> console_rows (pg_db s') = console_rows (pg_db s)"
  "pg_insert_property p s = (r4, s') \<Longrightarrow> console_rows (pg_db s') = console_rows (pg_db s)"
proof -
  show "pg_LinkDeviceToUser dev uid s = (r1, s') \<Longrightarrow> console_rows (pg_db s') = console_rows (pg_db s)"
    unfolding pg_LinkDeviceToUser_def by (erule pg_stmt_frame [where g = console_rows]) (erule tracking_writes, simp)
  show "pg_UpsertDevice x s = (r1, s') \<Longrightarrow> console_rows (pg_db s') = console_rows (pg_db s)"
    unfolding pg_UpsertDevice_def
    by (erule pg_stmt_frame [where g = console_rows]) (auto simp: run_stmt_def split: if_splits)
  show "pg_insert_app_user i a s = (r3, s') \<Longrightarrow> console_rows (pg_db s') = console_rows (pg_db s)"
    unfolding pg_insert_app_user_def by (erule pg_insert_frame [where g = console_rows]) simp_all
  show "pg_insert_property p s = (r4, s') \<Longrightarrow> console_rows (pg_db s') = console_rows (pg_db s)"
    unfolding pg_insert_property_def by (erule pg_insert_frame [where g = console_rows]) simp_all
qed

lemma pg_insert_event_console:
  "pg_InsertEvent ev s = (r, s') \<Longrightarrow> console_rows (pg_db s') = console_rows (pg_db s)"
  by (erule pg_insert_event_cases) simp_all

lemma pg_get_or_create_console:
  assumes "pg_GetOrCreateAppUser p a s = (r, s')"
  shows "console_rows (pg_db s') = console_rows (pg_db s)"
proof -
  let ?q = "query (\<lambda>d. query_row (scan d (filter (\<lambda>u. au_project_id u = p \<and> au_anonymous_id u = a) (app_users d))))"
  obtain r1 s1 where q: "pg_stmt [p] [a] ?q s = (r1, s1)" by fastforce
  obtain r2 s2 where i: "pg_insert_app_user p a s1 = (r2, s2)" by fastforce
  have "console_rows (pg_db s1) = console_rows (pg_db s)"
    using pg_query_same [OF q] same_tables_rows by (simp add: pg_same_def)
  moreover have "s' = s1 \<or> s' = s2"
    using assms by (auto simp: pg_GetOrCreateAppUser_def q i split: sum.splits if_splits)
  ultimately show ?thesis using pg_tracking_writes(3) [OF i] by auto
qed

lemma pg_insert_properties_console:
  "pg_insert_properties ps s = (r, s') \<Longrightarrow> console_rows (pg_db s') = console_rows (pg_db s)"
  by (induction ps arbitrary: s) (auto split: prod.splits sum.splits dest!: pg_tracking_writes(4))

lemma pg_insert_event_properties_console:
  assumes "pg_InsertEventProperties ps s = (r, s')"
  shows "console_rows (pg_db s') = console_rows (pg_db s)"
proof -
  obtain r1 s1 where st1: "pg_stmt [] [] nop_stmt s = (r1, s1)" by fastforce
  obtain r2 s2 where st2: "pg_stmt [] [] nop_stmt s1 = (r2, s2)" by fastforce
  obtain r3 s3 where st3: "pg_insert_properties ps s2 = (r3, s3)" by fastforce
  obtain r4 s4 where st4: "pg_stmt [] [] nop_stmt s3 = (r4, s4)" by fastforce
  note run = assms [unfolded pg_InsertEventProperties_def, simplified st1 st2 st3 st4 prod.case]
  have "s' \<in> {s1, pg_rollback_to s1 s2, pg_rollback_to s1 s3, pg_rollback_to s1 s4, s4}"
    using run by (simp split: sum.splits)
  then show ?thesis
    using pg_nop_state [OF st1] pg_nop_state [OF st2] pg_nop_state [OF st4] pg_insert_properties_console [OF st3]
    by (auto simp: pg_rollback_to_def rollback_to_def)
qed

lemma pg_management_writes:
  "pg_CreateProject p s = (r1, s') \<Longrightarrow>
     console_users (pg_db s') = console_users (pg_db s) \<and> tracking_data (pg_db s') = tracking_data (pg_db s)"
  "pg_UpdateProject p s = (r2, s') \<Longrightarrow>
     console_users (pg_db s') = console_users (pg_db s) \<and> tracking_data (pg_db s') = tracking_data (pg_db s)"
  "pg_CreateProjectToken t s = (r3, s') \<Longrightarrow>
     console_users (pg_db s') = console_users (pg_db s) \<and> tracking_data (pg_db s') = tracking_data (pg_db s)"
  "pg_UpdateProjectToken t s = (r2, s') \<Longrightarrow>
     console_users (pg_db s') = console_users (pg_db s) \<and> tracking_data (pg_db s') = tracking_data (pg_db s)"
  "pg_DeleteProjectToken i s = (r2, s') \<Longrightarrow>
     console_users (pg_db s') = console_users (pg_db s) \<and> tracking_data (pg_db s') = tracking_data (pg_db s)"
proof -
  let ?g = "\<lambda>d. (console_users d, tracking_data d)"
  note stmt = pg_stmt_frame [where g = ?g] and ins = pg_insert_frame [where g = ?g]
  show "pg_CreateProject p s = (r1, s') \<Longrightarrow>
     console_users (pg_db s') = console_users (pg_db s) \<and> tracking_data (pg_db s') = tracking_data (pg_db s)"
    unfolding pg_CreateProject_def by (drule ins) simp_all
  show "pg_UpdateProject p s = (r2, s') \<Longrightarrow>
     console_users (pg_db s') = console_users (pg_db s) \<and> tracking_data (pg_db s') = tracking_data (pg_db s)"
    unfolding pg_UpdateProject_def by (drule stmt) (auto dest!: management_writes)
  show "pg_CreateProjectToken t s = (r3, s') \<Longrightarrow>
     console_users (pg_db s') = console_users (pg_db s) \<and> tracking_data (pg_db s') = tracking_data (pg_db s)"
    unfolding pg_CreateProjectToken_def by (drule ins) simp_all
  show "pg_UpdateProjectToken t s = (r2, s') \<Longrightarrow>
     console_users (pg_db s') = console_users (pg_db s) \<and> tracking_data (pg_db s') = tracking_data (pg_db s)"
    unfolding pg_UpdateProjectToken_def by (drule stmt) (auto dest!: management_writes)
  show "pg_DeleteProjectToken i s = (r2, s') \<Longrightarrow>
     console_users (pg_db s') = console_users (pg_db s) \<and> tracking_data (pg_db s') = tracking_data (pg_db s)"
    unfolding pg_DeleteProjectToken_def by (drule stmt) (auto dest!: management_writes)
qed

lemma pg_delete_project_users:
  "pg_DeleteProject i s = (r, s') \<Longrightarrow> console_users (pg_db s') = console_users (pg_db s)"
  unfolding pg_DeleteProject_def by (erule pg_stmt_frame) (erule delete_project_users, simp)

lemma pg_account_writes:
  "pg_CreateConsoleUser u s = (r1, s') \<Longrightarrow> projects (pg_db s') = projects (pg_db s) \<and>
     project_tokens (pg_db s') = project_tokens (pg_db s) \<and> tracking_data (pg_db s') = tracking_data (pg_db s)"
  "pg_UpdateConsoleUser u s = (r2, s') \<Longrightarrow> projects (pg_db s') = projects (pg_db s) \<and>
     project_tokens (pg_db s') = project_tokens (pg_db s) \<and> tracking_data (pg_db s') = tracking_data (pg_db s)"
  "pg_DeleteConsoleUser i s = (r2, s') \<Longrightarrow> projects (pg_db s') = projects (pg_db s) \<and>
     project_tokens (pg_db s') = project_tokens (pg_db s) \<and> tracking_data (pg_db s') = tracking_data (pg_db s)"
proof -
  let ?g = "\<lambda>d. (projects d, project_tokens d, tracking_data d)"
  note stmt = pg_stmt_frame [where g = ?g] and ins = pg_insert_frame [where g = ?g]
  show "pg_CreateConsoleUser u s = (r1, s') \<Longrightarrow> projects (pg_db s') = projects (pg_db s) \<and>
     project_tokens (pg_db s') = project_tokens (pg_db s) \<and> tracking_data (pg_db s') = tracking_data (pg_db s)"
    unfolding pg_CreateConsoleUser_def by (drule ins) simp_all
  show "pg_UpdateConsoleUser u s = (r2, s') \<Longrightarrow> projects (pg_db s') = projects (pg_db s) \<and>
     project_tokens (pg_db s') = project_tokens (pg_db s) \<and> tracking_data (pg_db s') = tracking_data (pg_db s)"
    unfolding pg_UpdateConsoleUser_def by (drule stmt) (auto dest!: account_writes)
  show "pg_DeleteConsoleUser i s = (r2, s') \<Longrightarrow> projects (pg_db s') = projects (pg_db s) \<and>
     project_tokens (pg_db s') = project_tokens (pg_db s) \<and> tracking_data (pg_db s') = tracking_data (pg_db s)"
    unfolding pg_DeleteConsoleUser_def by (drule stmt) (auto dest!: account_writes)
qed

lemma pg_kept_ok: "pg_kept s s' \<Longrightarrow> db_ok (pg_db s) \<Longrightarrow> db_ok (pg_db s')"
  by (simp add: pg_kept_def)

lemmas pg_write_ok = pg_writes_kept [THEN pg_kept_ok]

interpretation pg_tracking: tracking_methods PostgresStore "\<lambda>s. tracking_change d0 (pg_db s)" for d0
  by (rule tracking_methods.intro [OF pg_reading [OF change_same_tables(2)]]; (assumption | unfold_locales))
     (auto simp: PostgresStore_def change_defs intro: pg_write_ok dest: pg_tracking_writes pg_insert_event_console
        pg_get_or_create_console pg_insert_event_properties_console)

interpretation pg_management: project_methods PostgresStore "\<lambda>s. management_change d0 (pg_db s)" for d0
  by (rule project_methods.intro [OF pg_reading [OF change_same_tables(3)]]; (assumption | unfold_locales))
     (auto simp: PostgresStore_def change_defs intro: pg_write_ok dest: pg_management_writes)

interpretation pg_deletion: project_deletion PostgresStore "\<lambda>s. deletion_change d0 (pg_db s)" for d0
  by (rule project_deletion.intro [OF project_methods.intro [OF pg_reading [OF change_same_tables(4)]]];
      (assumption | unfold_locales))
     (auto simp: PostgresStore_def change_defs intro: pg_write_ok dest: pg_management_writes pg_delete_project_users)

interpretation pg_accounts: account_administration PostgresStore "\<lambda>s. account_change d0 (pg_db s)" for d0
  by (rule account_administration.intro [OF account_methods.intro [OF pg_reading [OF change_same_tables(5)]]];
      (assumption | unfold_locales))
     (auto simp: PostgresStore_def change_defs intro: pg_write_ok dest: pg_account_writes)

interpretation pg_reads: reading_methods PostgresStore "\<lambda>s. same_tables d0 (pg_db s)" for d0
  by (rule pg_reading [OF change_same_tables(1)])

interpretation pg_backend: backend PostgresStore pg_db
  by (intro backend.intro backend_axioms.intro pg_console.console_store_axioms pg_control.token_store_axioms
      pg_reads.reading_methods_axioms pg_tracking.tracking_methods_axioms
      pg_management.project_methods_axioms pg_deletion.project_deletion_axioms
      pg_accounts.account_administration_axioms)

end
