(* ===== verification/Postgres_System.thy ===== *)
theory Postgres_System
  imports System Postgres_Access
begin

text \<open>
  The running system on Postgres, and where it differs from the one on SQLite: what became of an id, and
  which events arrive.
\<close>

subsection \<open>Access\<close>

definition sample_pg_app :: "pg app" where
  "sample_pg_app =
     \<lparr>ap_store = PostgresStore, ap_svc = NewService ''k'', ap_lib = sample_lib, ap_geo = None,
      ap_cfg = sample_config ''root'', ap_version = ''1'', ap_console = Inr sample_console\<rparr>"

text \<open>A server on Postgres with the tables of the SQLite examples.\<close>

definition stocked_pg :: pg where
  "stocked_pg = sample_pg\<lparr>pg_db := sample_db, pg_seq := (\<lambda>_. 2)\<rparr>"

text \<open>
  C4. Access control of the whole server on Postgres, as on SQLite: the schema holds after every request, and
  the tables are unchanged unless an admitting, active token (tracking data only) or the claims of a valid
  session token permit it; and the accounts change only by one action of their machine.
\<close>

theorem pg_server_access_control:
  assumes "New a rt r new_writer S = (w', S')" and "ap_store a = PostgresStore" and "db_ok (pg_db (sv_store S))"
  shows "db_ok (pg_db (sv_store S')) \<and>
    (same_tables (pg_db (sv_store S)) (pg_db (sv_store S')) \<or>
     token_permits (pg_db (sv_store S)) r (pg_db (sv_store S')) \<or>
     (\<exists>cl. bearer a r = Some cl \<and> permitted cl (pg_db (sv_store S)) (pg_db (sv_store S')))) \<and>
    (users_of (pg_db (sv_store S')) = users_of (pg_db (sv_store S)) \<or>
     (\<exists>cl. bearer a r = Some cl \<and>
        account_step (ap_lib a) cl (users_of (pg_db (sv_store S))) (users_of (pg_db (sv_store S')))))"
  using pg_backend.access_control [OF assms] pg_backend.refines_accounts [OF assms] by blast

lemma pg_server_access_control_witness:
  "let d' = pg_db (sv_store (snd (New sample_pg_app (sample_runtime TNull)
        (console_request ''DELETE'' [''api'', ''v1'', ''projects'', ''1'']) new_writer (boot stocked_pg))))
   in permitted \<lparr>cl_user_id = 1, cl_username = ''ann'', cl_role = ''admin''\<rparr> sample_db d' \<and>
      map prj_id (projects d') = [2]"
proof -
  let ?rt = "sample_runtime TNull" and ?r = "console_request ''DELETE'' [''api'', ''v1'', ''projects'', ''1'']"
  let ?res = "New sample_pg_app ?rt ?r new_writer (boot stocked_pg)"
  have st: "ap_store sample_pg_app = PostgresStore" by (simp add: sample_pg_app_def)
  have d: "pg_db (sv_store (boot stocked_pg)) = sample_db" by (simp add: boot_def stocked_pg_def)
  have "map prj_id (projects (pg_db (sv_store (snd (New_limit n sample_pg_app ?rt ?r new_writer (boot stocked_pg)))))) = [2]" for n
    by code_simp
  then have ps: "map prj_id (projects (pg_db (sv_store (snd ?res)))) = [2]" unfolding New_limit .
  have old: "map prj_id (projects sample_db) = [1, 2]" "token_of sample_db (header_get ?r ''X-Token'') = None"
    "bearer sample_pg_app ?r = Some \<lparr>cl_user_id = 1, cl_username = ''ann'', cl_role = ''admin''\<rparr>" by code_simp+
  have "\<not> same_tables sample_db (pg_db (sv_store (snd ?res)))"
    using ps old(1) same_tables_rows(1) by force
  moreover note pg_server_access_control [OF surjective_pairing st, of "boot stocked_pg" ?rt ?r, unfolded d,
      OF sample_db_ok, THEN conjunct2, THEN conjunct1]
  ultimately have "permitted \<lparr>cl_user_id = 1, cl_username = ''ann'', cl_role = ''admin''\<rparr> sample_db
      (pg_db (sv_store (snd ?res)))"
    using old(2,3) by (simp add: token_permits_def)
  with ps show ?thesis by (simp add: Let_def)
qed

subsection \<open>Reachable states\<close>

interpretation pg_program: program_backend PostgresStore pg_db
proof
  fix i before s n s'
  assume "CleanupEvents PostgresStore i before s = (n, s')"
  then have c: "pg_CleanupEvents i before s = (n, s')" by (simp add: PostgresStore_def)
  then have "db_ok (pg_db s) \<Longrightarrow> db_ok (pg_db s')" by (rule pg_write_ok)
  moreover have "console_users (pg_db s') = console_users (pg_db s)"
    using c unfolding pg_CleanupEvents_def
    by (rule pg_stmt_frame) (auto simp: sqlite_CleanupEvents_def run_stmt_def Let_def delete_events_def split: if_splits)
  ultimately show "deletion_change (pg_db s) (pg_db s')" by (simp add: deletion_change_def keeps_ok_def)
next
  fix s r s'
  assume "GetProjectsWithRetention PostgresStore s = (r, s')"
  then show "same_tables (pg_db s) (pg_db s')" using pg_reads_same(7) by (auto simp: PostgresStore_def pg_same_def)
qed

interpretation pg_closed: closed_program PostgresStore "pg_run s0" for s0
  by unfold_locales (auto simp: PostgresStore_def intro: run_step pg_step.intros)

definition new_pg :: "pg \<Rightarrow> bool" where
  "new_pg s \<longleftrightarrow> (\<exists>d text ts collate. s = empty_pg d text ts collate)"

lemma new_pg_ok: "new_pg s \<Longrightarrow> db_ok (pg_db s) \<and> users_of (pg_db s) = Map.empty"
  by (auto simp: new_pg_def empty_pg_def empty_db_ok) (simp add: users_of_def empty_db_def row_at_def fun_eq_iff)

lemma pg_system_run:
  assumes "system_reachable PostgresStore new_pg a S"
  shows "\<exists>s0. new_pg s0 \<and> pg_run s0 (sv_store S)"
proof -
  have "\<exists>s0. new_pg s0 \<and> pg_run s0 (sv_store S)" if "system_reachable PostgresStore (\<lambda>s. s = s0) a S" "new_pg s0" for s0
    using that pg_closed.program_keeps [OF that(1)] run_start by blast
  moreover have "\<exists>s0. new_pg s0 \<and> system_reachable PostgresStore (\<lambda>s. s = s0) a S"
    using assms by (induction rule: system_reachable.induct) (auto intro: system_reachable.intros)
  ultimately show ?thesis by blast
qed

text \<open>
  C5. In every state the system on Postgres reaches, over requests, retention passes and restarts, whatever
  statements fail or are rolled back: the schema holds, the accounts are a state of their machine (so a
  second factor that is on has a secret, and roles are known ones), and every id lies between 1 and
  the last value of its sequence, which fits 32 bits.
\<close>

theorem pg_system_invariant:
  assumes "system_reachable PostgresStore new_pg a S"
  shows "db_ok (pg_db (sv_store S)) \<and> accounts_reachable (users_of (pg_db (sv_store S))) \<and>
    (\<forall>i u. users_of (pg_db (sv_store S)) i = Some u \<longrightarrow>
       (cu_totp_enabled u \<longrightarrow> cu_totp_secret u \<noteq> None) \<and> cu_role u \<in> set roles) \<and>
    pg_seq (sv_store S) tab < 2 ^ 31 \<and>
    (\<forall>i. i \<in> ids_of tab (pg_db (sv_store S)) \<longrightarrow> 1 \<le> i \<and> i \<le> pg_seq (sv_store S) tab)"
proof -
  have ok: "db_ok (pg_db (sv_store S))" and acc: "accounts_reachable (users_of (pg_db (sv_store S)))"
    using pg_program.system_accounts [OF assms new_pg_ok] by simp_all
  have "(cu_totp_enabled u \<longrightarrow> cu_totp_secret u \<noteq> None) \<and> cu_role u \<in> set roles"
    if "users_of (pg_db (sv_store S)) i = Some u" for i u
    using accounts_okD [OF accounts_reachable_ok [OF acc] that] by (simp add: account_ok_def)
  moreover obtain s0 where "new_pg s0" "pg_run s0 (sv_store S)" using pg_system_run [OF assms] by blast
  then have "pg_seq (sv_store S) tab < 2 ^ 31 \<and>
      (\<forall>i. i \<in> ids_of tab (pg_db (sv_store S)) \<longrightarrow> 1 \<le> i \<and> i \<le> pg_seq (sv_store S) tab)"
    using pg_reachable_ok unfolding new_pg_def by blast
  ultimately show ?thesis using ok acc by blast
qed

lemma new_pg_sample: "new_pg sample_pg"
  unfolding new_pg_def sample_pg_def by blast

lemma pg_system_invariant_witness:
  "let s = snd (bootstrapAdmin PostgresStore sample_lib (sample_config ''root'') sample_pg);
       S = snd (New sample_pg_app (sample_runtime TNull) (console_request ''POST'' [''api'', ''v1'', ''projects''])
         new_writer (boot s))
   in map cu_username (console_users (pg_db s)) = [''root''] \<and> db_ok (pg_db (sv_store S)) \<and>
      accounts_reachable (users_of (pg_db (sv_store S)))"
proof -
  let ?res = "bootstrapAdmin PostgresStore sample_lib (sample_config ''root'') sample_pg"
  have run: "fst ?res = Inr ()" "map cu_username (console_users (pg_db (snd ?res))) = [''root'']" by code_simp+
  have a: "ap_store sample_pg_app = PostgresStore" "ap_lib sample_pg_app = sample_lib"
    "ap_cfg sample_pg_app = sample_config ''root''" by (simp_all add: sample_pg_app_def)
  from system_reachable.first_start [where created = new_pg, OF new_pg_sample a(1)]
  have "system_reachable PostgresStore new_pg sample_pg_app (boot (snd ?res))"
    using ok_pair [OF run(1)] a(2,3) by simp
  then have "system_reachable PostgresStore new_pg sample_pg_app (snd (New sample_pg_app (sample_runtime TNull)
      (console_request ''POST'' [''api'', ''v1'', ''projects'']) new_writer (boot (snd ?res))))"
    by (rule system_reachable.step) (rule system_step.serve [OF surjective_pairing])
  from pg_system_invariant [OF this] run(2) show ?thesis by (simp add: Let_def)
qed

text \<open>
  C36. On Postgres a dead id stays dead: whatever the system does next (a request, a retention pass), an
  account, token, project, user or property whose id the sequence has passed and that is not there
  does not come to be there.  So the session token of a deleted account never becomes another account's.
\<close>

theorem pg_dead_ids_stay_dead:
  assumes "system_step a S S'" and "ap_store a = PostgresStore" and "i \<le> pg_seq (sv_store S) tab"
    and "i \<notin> ids_of tab (pg_db (sv_store S))"
  shows "i \<le> pg_seq (sv_store S') tab \<and> i \<notin> ids_of tab (pg_db (sv_store S'))"
proof -
  have "pg_run (sv_store S) (sv_store S')" by (rule pg_closed.step_keeps [OF assms(1,2) run_start])
  from pg_ids_never_reused [OF this assms(3,4)] pg_run_kept [OF this] show ?thesis
    using assms(3) by (auto simp: pg_kept_def fresh_ids_def intro: order.trans)
qed

text \<open>Requests of the examples: deleting account 2, creating an account \<open>eve\<close>.\<close>

definition delete_bob :: request where
  "delete_bob = console_request ''DELETE'' [''api'', ''v1'', ''users'', ''2'']"

definition create_eve :: request where
  "create_eve = console_request ''POST'' [''api'', ''v1'', ''users'']"

definition eve_body :: json_tree where
  "eve_body = TObject [(''username'', TString ''eve''), (''password'', TString ''password1''), (''role'', TString ''admin'')]"

lemma pg_dead_ids_stay_dead_witness:
  "let S = snd (New sample_pg_app (sample_runtime TNull) delete_bob new_writer (boot stocked_pg));
       S' = snd (New sample_pg_app (sample_runtime eve_body) create_eve new_writer S)
   in map cu_username (console_users (pg_db (sv_store S'))) = [''ann'', ''eve''] \<and>
      2 \<notin> ids_of PgConsoleUsers (pg_db (sv_store S'))"
proof -
  let ?S = "snd (New sample_pg_app (sample_runtime TNull) delete_bob new_writer (boot stocked_pg))"
  let ?S' = "snd (New sample_pg_app (sample_runtime eve_body) create_eve new_writer ?S)"
  have st: "ap_store sample_pg_app = PostgresStore" by (simp add: sample_pg_app_def)
  have "map cu_id (console_users (pg_db (sv_store (snd
      (New_limit n sample_pg_app (sample_runtime TNull) delete_bob new_writer (boot stocked_pg)))))) = [1] \<and>
    pg_seq (sv_store (snd (New_limit n sample_pg_app (sample_runtime TNull) delete_bob new_writer (boot stocked_pg))))
      PgConsoleUsers = 2 \<and>
    map cu_username (console_users (pg_db (sv_store (snd (New_limit n sample_pg_app (sample_runtime eve_body) create_eve
      new_writer (snd (New_limit n sample_pg_app (sample_runtime TNull) delete_bob new_writer (boot stocked_pg)))))))) =
      [''ann'', ''eve'']" for n
    by code_simp
  then have run: "map cu_id (console_users (pg_db (sv_store ?S))) = [1]" "pg_seq (sv_store ?S) PgConsoleUsers = 2"
    "map cu_username (console_users (pg_db (sv_store ?S'))) = [''ann'', ''eve'']" unfolding New_limit by blast+
  then have "2 \<notin> ids_of PgConsoleUsers (pg_db (sv_store ?S))" by (simp flip: list.set_map)
  with pg_dead_ids_stay_dead [OF system_step.serve [OF surjective_pairing] st, of 2 "boot stocked_pg"]
    pg_dead_ids_stay_dead [OF system_step.serve [OF surjective_pairing] st, of 2 ?S PgConsoleUsers] run(2)
  have "2 \<notin> ids_of PgConsoleUsers (pg_db (sv_store ?S'))" by simp
  with run(3) show ?thesis by (simp add: Let_def)
qed

text \<open>A service that knows a second session token, \<open>bob\<close>'s.\<close>

definition bob_claims :: Claims where
  "bob_claims = \<lparr>cl_user_id = 2, cl_username = ''bob'', cl_role = ''viewer''\<rparr>"

definition two_sessions_app :: "db app" where
  "two_sessions_app = sample_app\<lparr>ap_lib := sample_lib\<lparr>
     al_parse := \<lambda>s. if s = ''bob'' then Some \<lparr>jt_method = HMAC, jt_claims = bob_claims,
        jt_expires = Some (14400 * second), jt_issued = Some 0\<rparr> else al_parse sample_lib s,
     al_verify := \<lambda>k s. s \<in> {''tok'', ''bob''}\<rparr>\<rparr>"

definition bob_request :: "string \<Rightarrow> string list \<Rightarrow> request" where
  "bob_request method segs = (console_request method segs)\<lparr>rq_header := [(''Authorization'', ''Bearer bob'')]\<rparr>"

lemma session_outlives_account_run:
  "let S1 = snd (New_limit n two_sessions_app (sample_runtime TNull) delete_bob new_writer (boot sample_db));
       S2 = snd (New_limit n two_sessions_app (sample_runtime eve_body) create_eve new_writer S1);
       (w, S3) = New_limit n two_sessions_app (sample_runtime TNull)
         (bob_request ''GET'' [''api'', ''v1'', ''auth'', ''me'']) new_writer S2;
       (w', S4) = New_limit n two_sessions_app (sample_runtime TNull)
         (bob_request ''POST'' [''api'', ''v1'', ''auth'', ''totp'', ''setup'']) new_writer S3
   in users_of (sv_store S1) 2 = None \<and>
      map_option cu_username (users_of (sv_store S2) 2) = Some ''eve'' \<and>
      (case w_body w of [UserReply u] \<Rightarrow> cu_username u = ''eve'' \<and> cu_role u = ''admin'' | _ \<Rightarrow> False) \<and>
      status w' = 200 \<and> map_option cu_totp_secret (users_of (sv_store S4) 2) = Some (Some ''s'')"
  by code_simp

text \<open>
  On SQLite the id of the account created last is given again after its deletion: the session token of the
  deleted account \<open>bob\<close>, a viewer, is then a session of the administrator \<open>eve\<close> created next; it reads
  her account and replaces the secret of her second factor.
\<close>

theorem sqlite_session_outlives_account:
  "let S1 = snd (New two_sessions_app (sample_runtime TNull) delete_bob new_writer (boot sample_db));
       S2 = snd (New two_sessions_app (sample_runtime eve_body) create_eve new_writer S1);
       (w, S3) = New two_sessions_app (sample_runtime TNull)
         (bob_request ''GET'' [''api'', ''v1'', ''auth'', ''me'']) new_writer S2;
       (w', S4) = New two_sessions_app (sample_runtime TNull)
         (bob_request ''POST'' [''api'', ''v1'', ''auth'', ''totp'', ''setup'']) new_writer S3
   in users_of (sv_store S1) 2 = None \<and>
      map_option cu_username (users_of (sv_store S2) 2) = Some ''eve'' \<and>
      (case w_body w of [UserReply u] \<Rightarrow> cu_username u = ''eve'' \<and> cu_role u = ''admin'' | _ \<Rightarrow> False) \<and>
      status w' = 200 \<and> map_option cu_totp_secret (users_of (sv_store S4) 2) = Some (Some ''s'')"
  unfolding New_limit by (rule session_outlives_account_run)

subsection \<open>Which events arrive\<close>

text \<open>The settings of the server, and the tables, while only failing statements run.\<close>

definition untouched :: "pg \<Rightarrow> pg \<Rightarrow> bool" where
  "untouched s s' \<longleftrightarrow> pg_same s s' \<and> pg_timestamp_ok s' = pg_timestamp_ok s"

lemma untouched_trans: "untouched s1 s2 \<Longrightarrow> untouched s2 s3 \<Longrightarrow> untouched s1 s3"
  by (auto simp: untouched_def intro: pg_same_trans)

lemma pg_device_user_untouched:
  assumes "pg_GetDeviceUserID dev s = (q, s1)"
  shows "untouched s s1"
proof -
  have "pg_timestamp_ok s1 = pg_timestamp_ok s"
    using assms by (auto simp: pg_GetDeviceUserID_def pg_stmt_def pg_tick_def split: if_splits prod.splits)
  then show ?thesis using pg_simple_reads_same(11) [OF assms] by (simp add: untouched_def)
qed

lemma pg_bad_timestamp_one:
  assumes "\<not> pg_timestamp_ok s (ev_timestamp (mk ev))"
  shows "\<exists>s'. track_one PostgresStore rt mk ev s = (False, s') \<and> untouched s s'"
  using assms
  by (simp add: track_one_def PostgresStore_def pg_InsertEvent_def untouched_def pg_same_def pg_tick_def)

lemma pg_bad_timestamps_loop:
  assumes "track_loop PostgresStore rt mk evs n s = (n', s')"
    and "\<And>ev. ev \<in> set evs \<Longrightarrow> \<not> pg_timestamp_ok s (ev_timestamp (mk ev))"
  shows "n' = n \<and> untouched s s'"
  using assms
proof (induction evs arbitrary: s)
  case Nil
  then show ?case by (simp add: untouched_def)
next
  case (Cons ev evs)
  obtain s1 where one: "track_one PostgresStore rt mk ev s = (False, s1)" and u: "untouched s s1"
    using pg_bad_timestamp_one [of s mk ev] Cons.prems(2) by auto
  have "track_loop PostgresStore rt mk evs n s1 = (n', s')"
    using Cons.prems(1) one by (simp only: track_loop_Cons prod.case) simp
  then have "n' = n \<and> untouched s1 s'"
    using Cons.IH [of s1] Cons.prems(2) u by (simp add: untouched_def)
  then show ?case using untouched_trans [OF u] by blast
qed



end
