(* ===== verification/Calendar.thy ===== *)
theory Calendar
  imports Analytics_Handler
begin

text \<open>
  Years, months and days of an instant in the local zone, as far as the program uses them of the package
  \<open>time\<close>: \<open>Year\<close>, \<open>Month\<close> and \<open>AddDate\<close> with months.  Days are counted from the 1st of January 1970.
\<close>

subsection \<open>Days and dates\<close>

definition leap :: "int \<Rightarrow> bool" where
  "leap y \<longleftrightarrow> 4 dvd y \<and> (\<not> 100 dvd y \<or> 400 dvd y)"

definition year_length :: "int \<Rightarrow> int" where
  "year_length y = (if leap y then 366 else 365)"

definition month_lengths :: "int \<Rightarrow> int list" where
  "month_lengths y = [31, if leap y then 29 else 28, 31, 30, 31, 30, 31, 31, 30, 31, 30, 31]"

text \<open>The days before the first of January of a year, and before the first of a month (1 is January) in its year.\<close>

definition days_before_year :: "int \<Rightarrow> int" where
  "days_before_year y = 365 * (y - 1970) + ((y - 1) div 4 - (y - 1) div 100 + (y - 1) div 400 - 477)"

definition days_before_month :: "int \<Rightarrow> int \<Rightarrow> int" where
  "days_before_month y m = sum_list (take (nat (m - 1)) (month_lengths y))"

definition month_length :: "int \<Rightarrow> int \<Rightarrow> int" where
  "month_length y m = month_lengths y ! nat (m - 1)"

definition days_of_date :: "int \<Rightarrow> int \<Rightarrow> int \<Rightarrow> int" where
  "days_of_date y m d = days_before_year y + days_before_month y m + (d - 1)"

text \<open>The date of a day: skip whole cycles of 400 years, then years, then months.\<close>

lemma year_length_pos: "0 < year_length y"
  by (simp add: year_length_def)

function find_year :: "int \<Rightarrow> int \<Rightarrow> int \<times> int" where
  "find_year y d = (if d < year_length y then (y, d) else find_year (y + 1) (d - year_length y))"
  by pat_completeness auto
termination by (relation "measure (\<lambda>(y, d). nat d)") (auto simp: year_length_def split: if_splits)

declare find_year.simps [simp del]

fun find_month :: "int list \<Rightarrow> int \<Rightarrow> int \<Rightarrow> int \<times> int" where
  "find_month [] m d = (m, d)"
| "find_month (l # ls) m d = (if d < l then (m, d) else find_month ls (m + 1) (d - l))"

definition date_of_days :: "int \<Rightarrow> int \<times> int \<times> int" where
  "date_of_days n =
     (let (y, r) = find_year (1970 + 400 * (n div 146097)) (n mod 146097); (m, d) = find_month (month_lengths y) 1 r
      in (y, m, d + 1))"

subsection \<open>Each date has its day\<close>

lemma div_step:
  assumes n: "0 < n"
  shows "y div n - (y - 1) div n = of_bool (n dvd (y::int))"
proof (cases "n dvd y")
  case True
  then obtain k where y: "y = n * k" ..
  have "(n * k - 1) div n = k - 1"
    using n by (intro int_div_pos_eq [where r = "n - 1"]) (simp_all add: algebra_simps)
  then show ?thesis using True n by (simp add: y)
next
  case False
  then have "0 < y mod n" using n pos_mod_sign [OF n, of y] by (simp add: dvd_eq_mod_eq_0 order_less_le)
  then have "(y - 1) div n = y div n"
    using n pos_mod_bound [OF n, of y] mult_div_mod_eq [of n y]
    by (intro int_div_pos_eq [where r = "y mod n - 1"]) simp_all
  then show ?thesis using False by simp
qed

lemma days_before_next_year: "days_before_year (y + 1) = days_before_year y + year_length y"
proof -
  have "400 dvd y \<longrightarrow> 100 dvd y" "100 dvd y \<longrightarrow> 4 dvd y" by (auto elim: dvd_trans [rotated])
  moreover have "days_before_year (y + 1) - days_before_year y =
      365 + (y div 4 - (y - 1) div 4) - (y div 100 - (y - 1) div 100) + (y div 400 - (y - 1) div 400)"
  proof -
    have "365 * (y + 1 - 1970) + (a - b + c - 477) - (365 * (y - 1970) + (a' - b' + c' - 477)) = 365 + (a - a') - (b - b') + (c - c')"
      for a b c a' b' c' :: int by simp
    then show ?thesis unfolding days_before_year_def add_diff_cancel_right' .
  qed
  then have "days_before_year (y + 1) - days_before_year y = 365 + of_bool (4 dvd y) - of_bool (100 dvd y) + of_bool (400 dvd y)"
    by (simp only: div_step zero_less_numeral)
  ultimately show ?thesis
    by (cases "4 dvd y"; cases "100 dvd y"; cases "400 dvd y") (simp_all add: year_length_def leap_def)
qed

lemma days_before_cycle: "days_before_year (1970 + 400 * k) = 146097 * k"
proof -
  have "(1969 + 400 * k) div 4 = 492 + 100 * k" "(1969 + 400 * k) div 100 = 19 + 4 * k"
    "(1969 + 400 * k) div 400 = 4 + k"
    by (rule int_div_pos_eq [where r = 1] int_div_pos_eq [where r = 69] int_div_pos_eq [where r = 369]; simp)+
  then show ?thesis by (simp add: days_before_year_def)
qed

lemma days_before_year_less:
  assumes "y < y'" shows "days_before_year y + year_length y \<le> days_before_year y'"
  using assms
proof (induction y' rule: int_gr_induct)
  case base
  then show ?case by (simp add: days_before_next_year)
next
  case (step i)
  then show ?case using year_length_pos [of i] days_before_next_year [of i] by simp
qed

lemma find_year_finds:
  assumes "find_year y d = (y', r)" and "0 \<le> d"
  shows "days_before_year y' + r = days_before_year y + d \<and> 0 \<le> r \<and> r < year_length y'"
  using assms
proof (induction y d rule: find_year.induct)
  case (1 y d)
  then show ?case
    using find_year.simps [of y d] by (auto simp: days_before_next_year split: if_splits)
qed

lemma find_year_unique:
  assumes "0 \<le> r" "r < year_length y" and "0 \<le> r'" "r' < year_length y'"
    and "days_before_year y + r = days_before_year y' + r'"
  shows "y = y' \<and> r = r'"
  using assms days_before_year_less [of y y'] days_before_year_less [of y' y] by (cases y y' rule: linorder_cases) auto

lemma find_month_finds:
  "i < length ls \<Longrightarrow> \<forall>l\<in>set ls. 0 < l \<Longrightarrow> 0 \<le> r \<Longrightarrow> r < ls ! i \<Longrightarrow>
   find_month ls m (sum_list (take i ls) + r) = (m + int i, r)"
proof (induction ls arbitrary: i m)
  case (Cons l ls)
  show ?case
  proof (cases i)
    case (Suc j)
    have "0 \<le> sum_list (take j ls)"
      using Cons.prems(2) by (intro sum_list_nonneg) (auto dest: in_set_takeD intro: less_imp_le)
    then show ?thesis using Suc Cons.prems Cons.IH [of j "m + 1"] by (simp add: algebra_simps)
  qed (use Cons.prems in simp)
qed simp

lemma month_lengths_simps [simp]:
  "length (month_lengths y) = 12" "sum_list (month_lengths y) = year_length y"
  by (simp_all add: month_lengths_def year_length_def)

lemma month_lengths_between: "l \<in> set (month_lengths y) \<Longrightarrow> 28 \<le> l \<and> l \<le> 31"
  by (auto simp: month_lengths_def)

text \<open>Go's months and days of a month, and that they are found again.\<close>

definition date_ok :: "int \<Rightarrow> int \<Rightarrow> int \<Rightarrow> bool" where
  "date_ok y m d \<longleftrightarrow> 1 \<le> m \<and> m \<le> 12 \<and> 1 \<le> d \<and> d \<le> month_length y m"

lemma month_end_in_year:
  "i < 12 \<Longrightarrow> sum_list (take i (month_lengths y)) + month_lengths y ! i \<le> year_length y"
  "0 \<le> sum_list (take i (month_lengths y))"
proof -
  show "0 \<le> sum_list (take i (month_lengths y))"
    by (intro sum_list_nonneg) (fastforce dest: in_set_takeD month_lengths_between)
  assume i: "i < 12"
  have "0 \<le> sum_list (drop (Suc i) (month_lengths y))"
    by (intro sum_list_nonneg) (fastforce dest: in_set_dropD month_lengths_between)
  moreover have "sum_list (month_lengths y) =
      sum_list (take i (month_lengths y)) + month_lengths y ! i + sum_list (drop (Suc i) (month_lengths y))"
    using i by (subst id_take_nth_drop [of i "month_lengths y"]) simp_all
  ultimately show "sum_list (take i (month_lengths y)) + month_lengths y ! i \<le> year_length y" by simp
qed

theorem date_of_days_of_date:
  assumes "date_ok y m d"
  shows "date_of_days (days_of_date y m d) = (y, m, d)"
proof -
  let ?n = "days_of_date y m d" and ?i = "nat (m - 1)"
  have i: "?i < 12" "int ?i = m - 1" and d: "0 \<le> d - 1" "d - 1 < month_lengths y ! ?i"
    using assms by (auto simp: date_ok_def month_length_def)
  obtain y' r where f: "find_year (1970 + 400 * (?n div 146097)) (?n mod 146097) = (y', r)" by fastforce
  have "days_before_year y' + r = ?n \<and> 0 \<le> r \<and> r < year_length y'"
    using find_year_finds [OF f] by (simp add: days_before_cycle)
  moreover have "?n = days_before_year y + (sum_list (take ?i (month_lengths y)) + (d - 1))"
    by (simp add: days_of_date_def days_before_month_def)
  ultimately have "y = y' \<and> sum_list (take ?i (month_lengths y)) + (d - 1) = r"
    using month_end_in_year(1) [OF i(1), of y] month_end_in_year(2) [of ?i y] d by (intro find_year_unique) auto
  then have y: "y' = y" and r: "r = sum_list (take ?i (month_lengths y)) + (d - 1)" by auto
  have "find_month (month_lengths y) 1 (sum_list (take ?i (month_lengths y)) + (d - 1)) = (m, d - 1)"
    using find_month_finds [of ?i "month_lengths y" "d - 1" 1] month_lengths_between [of _ y] i d by fastforce
  then show ?thesis using f by (simp add: date_of_days_def y r)
qed


lemma find_month_total:
  "\<forall>l\<in>set ls. 0 < l \<Longrightarrow> 0 \<le> r \<Longrightarrow> r < sum_list ls \<Longrightarrow>
   \<exists>i<length ls. \<exists>q. find_month ls m r = (m + int i, q) \<and> r = sum_list (take i ls) + q \<and> 0 \<le> q \<and> q < ls ! i"
proof (induction ls arbitrary: m r)
  case (Cons l ls)
  show ?case
  proof (cases "r < l")
    case False
    then obtain i q where "i < length ls" "find_month ls (m + 1) (r - l) = (m + 1 + int i, q)"
      "r - l = sum_list (take i ls) + q" "0 \<le> q" "q < ls ! i"
      using Cons.prems Cons.IH [of "r - l" "m + 1"] by auto
    then show ?thesis using False by (intro exI [of _ "Suc i"]) auto
  qed (use Cons.prems in auto)
qed simp

lemma date_of_days_ok:
  assumes "date_of_days n = (y, m, d)"
  shows "date_ok y m d" and "days_of_date y m d = n"
proof -
  obtain r q where f: "find_year (1970 + 400 * (n div 146097)) (n mod 146097) = (y, r)"
    and g: "find_month (month_lengths y) 1 r = (m, d - 1)"
    using assms by (auto simp: date_of_days_def split: prod.splits)
  have r: "days_before_year y + r = n" "0 \<le> r" "r < year_length y"
    using find_year_finds [OF f] by (simp_all add: days_before_cycle)
  have "\<forall>l\<in>set (month_lengths y). 0 < l" using month_lengths_between by fastforce
  then obtain i q where i: "i < 12" "m = 1 + int i" "q = d - 1" "r = sum_list (take i (month_lengths y)) + q"
      "0 \<le> q" "q < month_lengths y ! i"
    using find_month_total [of "month_lengths y" r 1] r g by auto
  show "date_ok y m d" using i by (auto simp: date_ok_def month_length_def)
  show "days_of_date y m d = n" using i r(1) by (simp add: days_of_date_def days_before_month_def)
qed

subsection \<open>Instants in a zone\<close>

text \<open>\<open>t.Date()\<close>: year, month and day of the month on the wall clock.\<close>

definition date_of :: "(instant \<Rightarrow> int) \<Rightarrow> instant \<Rightarrow> int \<times> int \<times> int" where
  "date_of zone t = date_of_days ((t + zone t) div nanos_per_day)"

definition year_of :: "(instant \<Rightarrow> int) \<Rightarrow> instant \<Rightarrow> int" where
  "year_of zone t = fst (date_of zone t)"

definition month_of :: "(instant \<Rightarrow> int) \<Rightarrow> instant \<Rightarrow> int" where
  "month_of zone t = fst (snd (date_of zone t))"

text \<open>
  \<open>t.AddDate(0, n, 0)\<close>: the year and the month are normalised, the day of the month is not; a day the
  month does not have is a day of the next one.
\<close>

definition add_months :: "(instant \<Rightarrow> int) \<Rightarrow> int \<Rightarrow> instant \<Rightarrow> instant" where
  "add_months zone n t =
     (let wall = t + zone t; (y, m, d) = date_of_days (wall div nanos_per_day); i = m - 1 + n
      in local_instant zone (days_of_date (y + i div 12) (i mod 12 + 1) d * nanos_per_day + wall mod nanos_per_day))"

definition month_before :: "int \<Rightarrow> int \<Rightarrow> int \<times> int" where
  "month_before y m = (if m = 1 then (y - 1, 12) else (y, m - 1))"

lemma local_instant_constant: "(\<And>t. zone t = z) \<Longrightarrow> local_instant zone wall = wall - z"
  by (simp add: local_instant_def)

lemma nanos_per_day_pos: "0 < nanos_per_day"
  by (simp add: nanos_per_day_def)

lemma day_of_wall: "0 \<le> c \<Longrightarrow> c < nanos_per_day \<Longrightarrow> (n * nanos_per_day + c) div nanos_per_day = n"
  using nanos_per_day_pos by simp

lemma days_of_next_month:
  "1 < m \<Longrightarrow> m \<le> 12 \<Longrightarrow> days_of_date y (m - 1) d = days_of_date y m (d - month_length y (m - 1))"
proof -
  assume m: "1 < m" "m \<le> 12"
  define i where "i = nat (m - 2)"
  have i: "nat (m - 1) = Suc i" "nat (m - 2) = i" "i < 12" using m by (auto simp: i_def)
  then have "take (Suc i) (month_lengths y) = take i (month_lengths y) @ [month_lengths y ! i]"
    by (simp add: take_Suc_conv_app_nth)
  then show ?thesis by (simp add: days_of_date_def days_before_month_def month_length_def i)
qed

lemma month_length_between: "1 \<le> m \<Longrightarrow> m \<le> 12 \<Longrightarrow> 28 \<le> month_length y m \<and> month_length y m \<le> 31"
  unfolding month_length_def by (intro month_lengths_between [of _ y] nth_mem) auto

theorem month_before_date:
  assumes z: "\<And>t. zone t = z" and d: "date_of zone t = (y, m, d)" and "month_before y m = (y', m')"
  shows "date_of zone (add_months zone (-1) t) =
    (if d \<le> month_length y' m' then (y', m', d) else (y, m, d - month_length y' m'))"
proof -
  let ?n = "days_of_date (y + (m - 2) div 12) ((m - 2) mod 12 + 1) d" and ?c = "(t + z) mod nanos_per_day"
  have n: "date_of_days ((t + z) div nanos_per_day) = (y, m, d)" using d by (simp add: date_of_def z)
  have ok: "date_ok y m d" by (rule date_of_days_ok [OF n])
  have wall: "date_of zone (add_months zone (-1) t) = date_of_days ?n"
    using nanos_per_day_pos
    by (simp add: date_of_def add_months_def local_instant_constant [OF z] z n day_of_wall Let_def)
  have m: "1 \<le> m" "m \<le> 12" "1 \<le> d" "d \<le> 31" using ok month_length_between [of m y] by (auto simp: date_ok_def)
  consider "m = 1" "y' = y - 1" "m' = 12" | "1 < m" "y' = y" "m' = m - 1"
    using assms(3) m by (auto simp: month_before_def split: if_splits)
  then have prev: "?n = days_of_date y' m' d \<and> 1 \<le> m' \<and> m' \<le> 12"
  proof cases
    case 2
    then have "(m - 2) div 12 = 0" "(m - 2) mod 12 = m - 2" using m by simp_all
    then show ?thesis using 2 m by simp
  qed simp
  show ?thesis
  proof (cases "d \<le> month_length y' m'")
    case True
    then have "date_ok y' m' d" using prev m by (simp add: date_ok_def)
    from date_of_days_of_date [OF this] show ?thesis using prev True by (simp add: wall)
  next
    case False
    moreover have "month_length (y - 1) 12 = 31" by (simp add: month_length_def month_lengths_def)
    ultimately have m': "1 < m" "y' = y" "m' = m - 1" using assms(3) m by (auto simp: month_before_def split: if_splits)
    then have "date_ok y m (d - month_length y' m')"
      using False m month_length_between [of m y] month_length_between [of m' y'] by (simp add: date_ok_def)
    from date_of_days_of_date [OF this] show ?thesis
      using prev False m m' days_of_next_month [of m y d] by (simp add: wall)
  qed
qed


subsection \<open>The order of months\<close>

lemma days_before_month_less:
  assumes "1 \<le> m" "m < m'" "m' \<le> 12"
  shows "days_before_month y m + month_length y m \<le> days_before_month y m'"
proof -
  let ?l = "month_lengths y" and ?i = "nat (m - 1)" and ?j = "nat (m' - 1)"
  have ij: "Suc ?i \<le> ?j" "?i < 12" using assms by auto
  then have "take ?j ?l = take (Suc ?i) ?l @ take (?j - Suc ?i) (drop (Suc ?i) ?l)"
    using take_add [of "Suc ?i" "?j - Suc ?i" ?l] by simp
  moreover have "take (Suc ?i) ?l = take ?i ?l @ [?l ! ?i]" using ij by (simp add: take_Suc_conv_app_nth)
  moreover have "0 \<le> sum_list (take (?j - Suc ?i) (drop (Suc ?i) ?l))"
    by (intro sum_list_nonneg) (fastforce dest: in_set_takeD in_set_dropD month_lengths_between)
  ultimately show ?thesis by (simp add: days_before_month_def month_length_def)
qed

lemma day_in_year:
  assumes "date_ok y m d"
  shows "days_before_year y \<le> days_of_date y m d \<and> days_of_date y m d < days_before_year (y + 1)"
proof -
  have "nat (m - 1) < 12" using assms by (auto simp: date_ok_def)
  from month_end_in_year(1) [OF this, of y] show ?thesis
    using month_end_in_year(2) [of "nat (m - 1)" y] assms
    by (auto simp: days_of_date_def days_before_month_def month_length_def date_ok_def days_before_next_year)
qed

text \<open>Months counted through the years.\<close>

definition month_index :: "(instant \<Rightarrow> int) \<Rightarrow> instant \<Rightarrow> int" where
  "month_index zone t = 12 * year_of zone t + month_of zone t"

lemma date_of_fields:
  "date_of zone t = (year_of zone t, month_of zone t, snd (snd (date_of zone t)))"
  by (simp add: year_of_def month_of_def)

lemma date_of_ok:
  "date_ok (year_of zone t) (month_of zone t) (snd (snd (date_of zone t)))"
  "days_of_date (year_of zone t) (month_of zone t) (snd (snd (date_of zone t))) = (t + zone t) div nanos_per_day"
  using date_of_fields [of zone t] unfolding date_of_def by (auto dest: date_of_days_ok)

lemma month_of_range: "1 \<le> month_of zone t" "month_of zone t \<le> 12"
  using date_of_ok(1) [of zone t] by (auto simp: date_ok_def)

lemma later_month:
  "month_index zone t < month_index zone t' \<longleftrightarrow>
     year_of zone t' > year_of zone t \<or> year_of zone t' = year_of zone t \<and> month_of zone t' > month_of zone t"
  using month_of_range [of zone t] month_of_range [of zone t'] unfolding month_index_def by linarith

lemma month_index_mono:
  assumes "t + zone t \<le> t' + zone t'"
  shows "month_index zone t \<le> month_index zone t'"
proof (rule ccontr)
  let ?y = "year_of zone t" and ?m = "month_of zone t" and ?d = "snd (snd (date_of zone t))"
  let ?y' = "year_of zone t'" and ?m' = "month_of zone t'" and ?d' = "snd (snd (date_of zone t'))"
  assume "\<not> ?thesis"
  then consider "?y' < ?y" | "?y' = ?y" "?m' < ?m" using later_month [of zone t' t] by linarith
  then have "days_of_date ?y' ?m' ?d' < days_of_date ?y ?m ?d"
  proof cases
    case 1
    then have "days_before_year (?y' + 1) \<le> days_before_year ?y"
      using days_before_year_less [of ?y' ?y] by (simp add: days_before_next_year)
    then show ?thesis using day_in_year [OF date_of_ok(1), of zone t] day_in_year [OF date_of_ok(1), of zone t'] by linarith
  next
    case 2
    then show ?thesis
      using days_before_month_less [of ?m' ?m ?y] month_of_range [of zone t] month_of_range [of zone t']
        date_of_ok(1) [of zone t] date_of_ok(1) [of zone t']
      by (auto simp: days_of_date_def date_ok_def)
  qed
  then show False using zdiv_mono1 [OF assms nanos_per_day_pos] by (simp add: date_of_ok(2))
qed

end
