(* ===== verification/Os_World.thy ===== *)
theory Os_World
  imports Calendar
begin

text \<open>
  What the GeoIP updater uses of the packages \<open>os\<close>, \<open>io\<close>, \<open>net/http\<close>, \<open>time\<close>, \<open>path/filepath\<close> and
  \<open>fmt\<close>.  The world outside the process decides what the clock shows, what a web server answers, which
  system call fails and how many bytes a failing copy has moved; each is a function of the number of the
  operation, counted in \<open>wd_n\<close>.
\<close>

record http_response =
  hr_status :: int
  hr_status_text :: string
  hr_body :: string
  hr_broken :: "string option"

text \<open>\<open>hr_broken\<close>: the error after the bytes of the body, when the connection breaks.\<close>

record outside =
  ou_clock :: "nat \<Rightarrow> instant"
  ou_zone :: "instant \<Rightarrow> int"
  ou_http :: "nat \<Rightarrow> string \<Rightarrow> (string, http_response) result"
  ou_fault :: "nat \<Rightarrow> string option"
  ou_part :: "nat \<Rightarrow> nat"
  ou_rand :: "nat \<Rightarrow> string"

record os_file =
  fl_bytes :: string
  fl_mtime :: instant

text \<open>Files by their path; the requests sent; directories are not kept.\<close>

record world =
  wd_out :: outside
  wd_n :: nat
  wd_files :: "string \<Rightarrow> os_file option"
  wd_asked :: "string list"

definition os_next :: "world \<Rightarrow> world" where
  "os_next w = w\<lparr>wd_n := Suc (wd_n w)\<rparr>"

definition time_Now :: "world \<Rightarrow> instant \<times> world" where
  "time_Now w = (ou_clock (wd_out w) (wd_n w), os_next w)"

definition http_Get :: "string \<Rightarrow> world \<Rightarrow> (string, http_response) result \<times> world" where
  "http_Get url w = (ou_http (wd_out w) (wd_n w) url, (os_next w)\<lparr>wd_asked := wd_asked w @ [url]\<rparr>)"

text \<open>A system call that fails for reasons of its own changes no file.\<close>

definition os_call :: "(world \<Rightarrow> (string, 'a) result \<times> world) \<Rightarrow> world \<Rightarrow> (string, 'a) result \<times> world" where
  "os_call f w = (case ou_fault (wd_out w) (wd_n w) of Some e \<Rightarrow> (Inl e, os_next w) | None \<Rightarrow> f (os_next w))"

text \<open>A write sets the time of modification.\<close>

definition put_file :: "string \<Rightarrow> string \<Rightarrow> world \<Rightarrow> world" where
  "put_file p bs w =
     w\<lparr>wd_files := (wd_files w)(p \<mapsto> \<lparr>fl_bytes = bs, fl_mtime = ou_clock (wd_out w) (wd_n w)\<rparr>)\<rparr>"

definition no_such_file :: string where
  "no_such_file = ''no such file or directory''"

definition os_Stat :: "string \<Rightarrow> world \<Rightarrow> (string, instant) result \<times> world" where
  "os_Stat p = os_call (\<lambda>w. (case wd_files w p of None \<Rightarrow> Inl no_such_file | Some f \<Rightarrow> Inr (fl_mtime f), w))"

definition os_MkdirAll :: "string \<Rightarrow> world \<Rightarrow> (string, unit) result \<times> world" where
  "os_MkdirAll dir = os_call (\<lambda>w. (Inr (), w))"

text \<open>\<open>CreateTemp\<close> puts a random text for the \<open>*\<close> of the pattern and makes a file that was not there.\<close>

definition temp_path :: "string \<Rightarrow> string \<Rightarrow> string \<Rightarrow> string \<Rightarrow> string" where
  "temp_path dir pre suf r = (if has_suffix dir ''/'' then dir else dir @ ''/'') @ pre @ r @ suf"

definition os_CreateTemp :: "string \<Rightarrow> string \<Rightarrow> string \<Rightarrow> world \<Rightarrow> (string, string) result \<times> world" where
  "os_CreateTemp dir pre suf =
     os_call (\<lambda>w. let p = temp_path dir pre suf (ou_rand (wd_out w) (wd_n w))
                  in if wd_files w p = None then (Inr p, put_file p [] w) else (Inl ''file exists'', w))"

text \<open>\<open>Create\<close> empties a file that is there.\<close>

definition os_Create :: "string \<Rightarrow> world \<Rightarrow> (string, unit) result \<times> world" where
  "os_Create p = os_call (\<lambda>w. (Inr (), put_file p [] w))"

definition os_Open :: "string \<Rightarrow> world \<Rightarrow> (string, string) result \<times> world" where
  "os_Open p = os_call (\<lambda>w. (case wd_files w p of None \<Rightarrow> Inl no_such_file | Some f \<Rightarrow> Inr (fl_bytes f), w))"

definition os_Remove :: "string \<Rightarrow> world \<Rightarrow> (string, unit) result \<times> world" where
  "os_Remove p =
     os_call (\<lambda>w. if wd_files w p = None then (Inl no_such_file, w) else (Inr (), w\<lparr>wd_files := (wd_files w)(p := None)\<rparr>))"

text \<open>
  \<open>io.Copy\<close> into a file that has just been opened empty, from a source that yields the bytes \<open>bs\<close> and
  then the error \<open>err\<close> or its end.  A fault of the file leaves a part of the bytes.
\<close>

definition write_file :: "string \<Rightarrow> string \<Rightarrow> world \<Rightarrow> world" where
  "write_file p bs w = (if bs = [] then w else put_file p bs w)"

definition io_Copy :: "string \<Rightarrow> string \<times> string option \<Rightarrow> world \<Rightarrow> (string, unit) result \<times> world" where
  "io_Copy p src w =
     (case ou_fault (wd_out w) (wd_n w) of
        Some e \<Rightarrow> (Inl e, write_file p (take (ou_part (wd_out w) (wd_n w)) (fst src)) (os_next w))
      | None \<Rightarrow> (case snd src of Some e \<Rightarrow> Inl e | None \<Rightarrow> Inr (), write_file p (fst src) (os_next w)))"

subsection \<open>What the operations leave alone\<close>

text \<open>\<open>touches P w w'\<close>: at most the files of \<open>P\<close> have changed, and only operations of the process have taken time.\<close>

definition touches :: "string set \<Rightarrow> world \<Rightarrow> world \<Rightarrow> bool" where
  "touches P w w' \<longleftrightarrow> wd_out w' = wd_out w \<and> wd_n w \<le> wd_n w' \<and> (\<forall>p. p \<notin> P \<longrightarrow> wd_files w' p = wd_files w p)"

lemma touches_trans: "touches P w w1 \<Longrightarrow> touches Q w1 w2 \<Longrightarrow> P \<subseteq> R \<Longrightarrow> Q \<subseteq> R \<Longrightarrow> touches R w w2"
  unfolding touches_def subset_iff by (metis order_trans)

lemma touches_refl [simp]: "touches P w w"
  by (simp add: touches_def)

lemmas os_defs = os_next_def time_Now_def http_Get_def os_call_def put_file_def os_Stat_def os_MkdirAll_def
  os_CreateTemp_def os_Create_def os_Open_def os_Remove_def write_file_def io_Copy_def

lemma touches_ops:
  "time_Now w = (t, w') \<Longrightarrow> touches {} w w' \<and> wd_asked w' = wd_asked w"
  "http_Get url w = (g, w') \<Longrightarrow> touches {} w w' \<and> wd_asked w' = wd_asked w @ [url]"
  "os_Stat p w = (i, w') \<Longrightarrow> touches {} w w' \<and> wd_asked w' = wd_asked w"
  "os_MkdirAll p w = (r, w') \<Longrightarrow> touches {} w w' \<and> wd_asked w' = wd_asked w"
  "os_Create p w = (r, w') \<Longrightarrow> touches {p} w w' \<and> wd_asked w' = wd_asked w"
  "os_Open p w = (b, w') \<Longrightarrow> touches {} w w' \<and> wd_asked w' = wd_asked w"
  "os_Remove p w = (r, w') \<Longrightarrow> touches {p} w w' \<and> wd_asked w' = wd_asked w"
  "io_Copy p src w = (r, w') \<Longrightarrow> touches {p} w w' \<and> wd_asked w' = wd_asked w"
  by (auto simp: os_defs touches_def split: option.splits if_splits)

lemma touches_CreateTemp:
  "os_CreateTemp dir pre suf w = (Inl e, w') \<Longrightarrow> touches {} w w' \<and> wd_asked w' = wd_asked w"
  "os_CreateTemp dir pre suf w = (Inr p, w') \<Longrightarrow>
     touches {p} w w' \<and> wd_asked w' = wd_asked w \<and> wd_files w p = None \<and> (\<exists>r. p = temp_path dir pre suf r)"
  by (auto simp: os_defs touches_def Let_def split: option.splits if_splits)

subsection \<open>Names of directories\<close>

text \<open>\<open>filepath.Clean\<close> and \<open>filepath.Dir\<close> on Unix.\<close>

fun clean_step :: "bool \<Rightarrow> string list \<Rightarrow> string \<Rightarrow> string list" where
  "clean_step rooted acc seg =
     (if seg = '''' \<or> seg = ''.'' then acc
      else if seg = ''..'' then
        (if acc = [] then (if rooted then [] else [seg]) else if last acc = ''..'' then acc @ [seg] else butlast acc)
      else acc @ [seg])"

definition filepath_Clean :: "string \<Rightarrow> string" where
  "filepath_Clean p =
     (let rooted = has_prefix p ''/'';
          out = (if rooted then ''/'' else '''') @ join_with (CHR ''/'') (foldl (clean_step rooted) [] (split_on (CHR ''/'') p))
      in if out = '''' then ''.'' else out)"

definition filepath_Dir :: "string \<Rightarrow> string" where
  "filepath_Dir p = filepath_Clean (rev (dropWhile (\<lambda>c. c \<noteq> CHR ''/'') (rev p)))"

lemma filepath_Dir_samples:
  "filepath_Dir ''./data/dbip-city-lite.mmdb'' = ''data''" "filepath_Dir ''db.mmdb'' = ''.''"
  "filepath_Dir ''/var/../lib//x/db.mmdb'' = ''/lib/x''" "filepath_Dir ''../a/../../db'' = ''../..''" "filepath_Dir ''/db'' = ''/''"
  by code_simp+

subsection \<open>Numbers in decimal\<close>

fun decimal :: "nat \<Rightarrow> string" where
  "decimal n = (if n < 10 then [char_of (48 + n)] else decimal (n div 10) @ [char_of (48 + n mod 10)])"

declare decimal.simps [simp del]

text \<open>The verbs \<open>%d\<close> and \<open>%02d\<close>.\<close>

definition fmt_d :: "int \<Rightarrow> string" where
  "fmt_d i = (if i < 0 then ''-'' @ decimal (nat (- i)) else decimal (nat i))"

definition fmt_02d :: "int \<Rightarrow> string" where
  "fmt_02d i =
     (if 0 \<le> i \<and> i < 10 then ''0'' @ decimal (nat i) else fmt_d i)"

lemma byte_digit: "n < 10 \<Longrightarrow> byte (char_of (48 + n)) = 48 + n"
  by (simp add: byte_def)

lemma dec_value_snoc: "dec_value (ds @ [c]) = dec_value ds * 10 + (int (byte c) - 48)"
  by (simp add: dec_value_def)

lemma dec_value_decimal: "dec_value (decimal n) = int n"
proof (induction n rule: decimal.induct)
  case (1 n)
  show ?case
  proof (cases "n < 10")
    case True
    then show ?thesis by (simp add: decimal.simps [of n] dec_value_def byte_digit)
  next
    case False
    moreover have "int (n div 10) * 10 + int (n mod 10) = int n"
      by (metis div_mult_mod_eq of_nat_add of_nat_mult of_nat_numeral)
    ultimately show ?thesis using 1 by (simp add: decimal.simps [of n] dec_value_snoc byte_digit)
  qed
qed

lemma decimal_digits: "list_all is_digit (decimal n)"
proof (induction n rule: decimal.induct)
  case (1 n)
  then show ?case by (cases "n < 10") (simp_all add: decimal.simps [of n] is_digit_def byte_digit)
qed

lemma fmt_d_digits: "0 \<le> i \<Longrightarrow> list_all is_digit (fmt_d i) \<and> dec_value (fmt_d i) = i"
  by (simp add: fmt_d_def decimal_digits dec_value_decimal)

lemma fmt_02d_digits: "0 \<le> i \<Longrightarrow> list_all is_digit (fmt_02d i) \<and> dec_value (fmt_02d i) = i"
proof -
  assume i: "0 \<le> i"
  have "dec_value (CHR ''0'' # ds) = dec_value ds" for ds by (simp add: dec_value_def byte_def)
  moreover have "is_digit (CHR ''0'')" by code_simp
  ultimately show ?thesis using i fmt_d_digits [OF i] by (simp add: fmt_02d_def decimal_digits dec_value_decimal)
qed

lemma takeWhile_digits: "list_all is_digit ds \<Longrightarrow> \<not> is_digit c \<Longrightarrow> takeWhile is_digit (ds @ c # rest) = ds"
  by (induction ds) auto

end
