(* ===== verification/Geoip_Updater.thy ===== *)
theory Geoip_Updater
  imports Os_World
begin

text \<open>
  \<open>internal/geoip/updater.go\<close>: the monthly download of the GeoIP database.  The decompressor is a
  parameter \<open>gz\<close>: of a file it gives the error of \<open>gzip.NewReader\<close>, or the bytes the reader yields and the
  error after them (\<open>None\<close> at the end of an intact archive).  Log lines are not modelled; errors of closing
  a file are ignored by the code and have no effect here.
\<close>

type_synonym decompressor = "string \<Rightarrow> (string, string \<times> string option) result"

definition dbipDownloadURL :: "int \<Rightarrow> int \<Rightarrow> string" where
  "dbipDownloadURL y m = ''https://download.db-ip.com/free/dbip-city-lite-'' @ fmt_d y @ ''-'' @ fmt_02d m @ ''.mmdb.gz''"

record Updater =
  up_dbPath :: string

definition NewUpdater :: "string \<Rightarrow> Updater" where
  "NewUpdater path = \<lparr>up_dbPath = path\<rparr>"

definition DatabaseExists :: "Updater \<Rightarrow> world \<Rightarrow> bool \<times> world" where
  "DatabaseExists u w = (case os_Stat (up_dbPath u) w of (i, w1) \<Rightarrow> (is_ok i, w1))"

definition NeedsUpdate :: "Updater \<Rightarrow> world \<Rightarrow> bool \<times> world" where
  "NeedsUpdate u w =
     (case DatabaseExists u w of (ex, w1) \<Rightarrow>
        if \<not> ex then (True, w1)
        else (case os_Stat (up_dbPath u) w1 of
            (Inl _, w2) \<Rightarrow> (True, w2)
          | (Inr modTime, w2) \<Rightarrow>
              (case time_Now w2 of (now, w3) \<Rightarrow>
                 (let zone = ou_zone (wd_out w3) in
                    (year_of zone now > year_of zone modTime \<or>
                       year_of zone now = year_of zone modTime \<and> month_of zone now > month_of zone modTime, w3)))))"

text \<open>\<open>Update\<close> from the temporary file on, without the deferred removal.\<close>

definition unpack :: "decompressor \<Rightarrow> Updater \<Rightarrow> http_response \<Rightarrow> string \<Rightarrow> world \<Rightarrow> (string, unit) result \<times> world" where
  "unpack gz u resp tmp w =
     (case io_Copy tmp (hr_body resp, hr_broken resp) w of
        (Inl e, w1) \<Rightarrow> (Inl (''save download: '' @ e), w1)
      | (Inr _, w1) \<Rightarrow>
          (case os_Open tmp w1 of
             (Inl e, w2) \<Rightarrow> (Inl e, w2)
           | (Inr bytes, w2) \<Rightarrow>
               (case os_call (\<lambda>w. (gz bytes, w)) w2 of
                  (Inl e, w3) \<Rightarrow> (Inl e, w3)
                | (Inr gzr, w3) \<Rightarrow>
                    (case os_Create (up_dbPath u) w3 of
                       (Inl e, w4) \<Rightarrow> (Inl e, w4)
                     | (Inr _, w4) \<Rightarrow> io_Copy (up_dbPath u) gzr w4))))"

text \<open>\<open>Update\<close> from the status of the response on.\<close>

definition install :: "decompressor \<Rightarrow> Updater \<Rightarrow> http_response \<Rightarrow> world \<Rightarrow> (string, unit) result \<times> world" where
  "install gz u resp w =
     (if hr_status resp \<noteq> 200 then (Inl (''download failed: '' @ hr_status_text resp), w)
      else
        let dir = filepath_Dir (up_dbPath u) in
        (case os_MkdirAll dir w of
           (Inl e, w1) \<Rightarrow> (Inl (''create dir: '' @ e), w1)
         | (Inr _, w1) \<Rightarrow>
             (case os_CreateTemp dir ''geoip-'' ''.mmdb.gz'' w1 of
                (Inl e, w2) \<Rightarrow> (Inl (''create temp: '' @ e), w2)
              | (Inr tmp, w2) \<Rightarrow>
                  (case unpack gz u resp tmp w2 of (r, w3) \<Rightarrow> (r, snd (os_Remove tmp w3))))))"

definition Update :: "decompressor \<Rightarrow> Updater \<Rightarrow> world \<Rightarrow> (string, unit) result \<times> world" where
  "Update gz u w =
     (case time_Now w of (now, w1) \<Rightarrow>
      let zone = ou_zone (wd_out w1); url = dbipDownloadURL (year_of zone now) (month_of zone now) in
      (case http_Get url w1 of
         (Inl e, w2) \<Rightarrow> (Inl (''download: '' @ e), w2)
       | (Inr resp, w2) \<Rightarrow>
           if hr_status resp = 404 then
             (let prev = add_months zone (-1) now;
                  url = dbipDownloadURL (year_of zone prev) (month_of zone prev)
              in case http_Get url w2 of
                   (Inl e, w3) \<Rightarrow> (Inl (''download fallback: '' @ e), w3)
                 | (Inr resp, w3) \<Rightarrow> install gz u resp w3)
           else install gz u resp w2))"

text \<open>\<open>geoipUpdateLoop\<close> of \<open>main.go\<close>: what it does at a tick.\<close>

definition geo_tick :: "decompressor \<Rightarrow> Updater \<Rightarrow> world \<Rightarrow> world" where
  "geo_tick gz u w = (case NeedsUpdate u w of (b, w1) \<Rightarrow> if b then snd (Update gz u w1) else w1)"


subsection \<open>What a download does to the files\<close>

text \<open>A file that holds the unpacked body of a complete answer, or a beginning of it.\<close>

definition unpacked_from :: "decompressor \<Rightarrow> http_response \<Rightarrow> bool \<Rightarrow> os_file \<Rightarrow> bool" where
  "unpacked_from gz resp whole f \<longleftrightarrow>
     hr_status resp = 200 \<and> hr_broken resp = None \<and>
     (\<exists>data err k. gz (hr_body resp) = Inr (data, err) \<and> fl_bytes f = take k data \<and>
        (whole \<longrightarrow> err = None \<and> fl_bytes f = data))"

definition written_between :: "world \<Rightarrow> world \<Rightarrow> os_file \<Rightarrow> bool" where
  "written_between w w' f \<longleftrightarrow> (\<exists>j. wd_n w \<le> j \<and> j \<le> wd_n w' \<and> fl_mtime f = ou_clock (wd_out w) j)"

definition db_outcome :: "decompressor \<Rightarrow> string \<Rightarrow> http_response \<Rightarrow> (string, unit) result \<Rightarrow> world \<Rightarrow> world \<Rightarrow> bool" where
  "db_outcome gz db resp r w w' \<longleftrightarrow>
     (\<not> is_ok r \<and> wd_files w' db = wd_files w db) \<or>
     (\<exists>f. wd_files w' db = Some f \<and> unpacked_from gz resp (is_ok r) f \<and> written_between w w' f)"

lemma os_Create_file: "os_Create p w = (Inr x, w') \<Longrightarrow> wd_files w' p = Some \<lparr>fl_bytes = [], fl_mtime = ou_clock (wd_out w) (wd_n w')\<rparr>"
  by (auto simp: os_defs split: option.splits)

lemma io_Copy_file:
  assumes "io_Copy p src w = (r, w')" and "wd_files w p = Some f" and "fl_bytes f = []"
  obtains f' k where "wd_files w' p = Some f'" "fl_bytes f' = take k (fst src)"
    "fl_mtime f' = fl_mtime f \<or> fl_mtime f' = ou_clock (wd_out w) (wd_n w')"
    "is_ok r \<Longrightarrow> snd src = None \<and> fl_bytes f' = fst src"
proof -
  have "\<exists>f' k. wd_files w' p = Some f' \<and> fl_bytes f' = take k (fst src) \<and>
      (fl_mtime f' = fl_mtime f \<or> fl_mtime f' = ou_clock (wd_out w) (wd_n w')) \<and>
      (is_ok r \<longrightarrow> snd src = None \<and> fl_bytes f' = fst src)"
  proof (cases "ou_fault (wd_out w) (wd_n w)")
    case (Some e)
    then show ?thesis using assms
      by (intro exI [of _ "the (wd_files w' p)"] exI [of _ "ou_part (wd_out w) (wd_n w)"])
        (auto simp: io_Copy_def write_file_def put_file_def os_next_def)
  next
    case None
    then show ?thesis using assms
      by (intro exI [of _ "the (wd_files w' p)"] exI [of _ "length (fst src)"])
        (auto simp: io_Copy_def write_file_def put_file_def os_next_def split: option.splits)
  qed
  then show ?thesis using that by blast
qed

text \<open>The second half of \<open>unpack\<close>, from the opened archive on.\<close>

lemma extract_outcome:
  assumes "(case os_call (\<lambda>w. (gz bytes, w)) w of
        (Inl e, w1) \<Rightarrow> (Inl e, w1)
      | (Inr gzr, w1) \<Rightarrow> (case os_Create db w1 of (Inl e, w2) \<Rightarrow> (Inl e, w2) | (Inr _, w2) \<Rightarrow> io_Copy db gzr w2)) = (r, w')"
    and "hr_status resp = 200" "hr_broken resp = None" "bytes = hr_body resp"
  shows "touches {db} w w' \<and> wd_asked w' = wd_asked w \<and> db_outcome gz db resp r w w'"
proof -
  obtain g w1 where g: "os_call (\<lambda>w. (gz bytes, w)) w = (g, w1)" by fastforce
  obtain c w2 where c: "os_Create db w1 = (c, w2)" by fastforce
  have t1: "touches {} w w1" "wd_asked w1 = wd_asked w" "wd_files w1 = wd_files w"
    using g by (auto simp: os_call_def os_next_def touches_def split: option.splits)
  note t2 = touches_ops(5) [OF c]
  have t: "touches {db} w w2" using touches_trans [of "{}" w w1 "{db}" w2 "{db}"] t1 t2 by auto
  consider e where "g = Inl e" | x e where "g = Inr x" "c = Inl e" | x where "g = Inr x" "c = Inr ()"
    by (cases g; cases c) auto
  then show ?thesis
  proof cases
    case 1
    then show ?thesis using assms(1) g t1 by (auto simp: db_outcome_def touches_def)
  next
    case 2
    then have "wd_files w2 = wd_files w1" using c by (auto simp: os_defs split: option.splits)
    then show ?thesis using 2 assms(1) g c t t1 t2 by (auto simp: db_outcome_def)
  next
    case (3 x)
    then have res: "io_Copy db x w2 = (r, w')" using assms(1) g c by simp
    note t3 = touches_ops(8) [OF res]
    obtain f k where f: "wd_files w' db = Some f" "fl_bytes f = take k (fst x)"
        "fl_mtime f = ou_clock (wd_out w) (wd_n w2) \<or> fl_mtime f = ou_clock (wd_out w) (wd_n w')"
        "is_ok r \<Longrightarrow> snd x = None \<and> fl_bytes f = fst x"
      using io_Copy_file [OF res os_Create_file [OF c [unfolded 3(2)]]] t t1 by (auto simp: touches_def)
    have "wd_n w \<le> wd_n w2" "wd_n w2 \<le> wd_n w'" using t t3 by (auto simp: touches_def)
    then have "written_between w w' f" unfolding written_between_def using f(3) by (metis order_trans order_refl)
    moreover have "gz (hr_body resp) = Inr x" using g 3(1) assms(4) by (auto simp: os_call_def split: option.splits)
    then have "unpacked_from gz resp (is_ok r) f" using assms(2,3) f by (cases x) (auto simp: unpacked_from_def)
    ultimately show ?thesis
      using f(1) t t1 t2 t3 touches_trans [of "{db}" w w2 "{db}" w' "{db}"] by (auto simp: db_outcome_def)
  qed
qed

lemma unpack_outcome:
  assumes "unpack gz u resp tmp w = (r, w')" and "tmp \<noteq> up_dbPath u" and "hr_status resp = 200"
    and "wd_files w tmp = Some f" and "fl_bytes f = []"
  shows "touches {tmp, up_dbPath u} w w' \<and> wd_asked w' = wd_asked w \<and> db_outcome gz (up_dbPath u) resp r w w'"
proof -
  let ?db = "up_dbPath u"
  obtain c w1 where c: "io_Copy tmp (hr_body resp, hr_broken resp) w = (c, w1)" by fastforce
  obtain b w2 where b: "os_Open tmp w1 = (b, w2)" by fastforce
  note t1 = touches_ops(8) [OF c] and t2 = touches_ops(6) [OF b]
  have t: "touches {tmp} w w2" using touches_trans [of "{tmp}" w w1 "{}" w2 "{tmp}"] t1 t2 by auto
  have early: "touches {tmp, ?db} w w' \<and> db_outcome gz ?db resp r w w'" if "touches {tmp} w w'" "\<not> is_ok r"
    using that assms(2) by (auto simp: db_outcome_def touches_def)
  consider e where "c = Inl e" | e where "c = Inr ()" "b = Inl e" | bytes where "c = Inr ()" "b = Inr bytes"
    by (cases c; cases b) auto
  then show ?thesis
  proof cases
    case 1
    then show ?thesis using assms(1) c t1 early by (auto simp: unpack_def)
  next
    case 2
    then show ?thesis using assms(1) c b t t1 t2 early by (auto simp: unpack_def)
  next
    case (3 bytes)
    obtain f1 k where "wd_files w1 tmp = Some f1" "fl_bytes f1 = hr_body resp" and intact: "hr_broken resp = None"
      using io_Copy_file [OF c assms(4,5)] 3 by auto
    then have bytes: "bytes = hr_body resp" using b 3 by (auto simp: os_defs split: option.splits)
    have "touches {?db} w2 w' \<and> wd_asked w' = wd_asked w2 \<and> db_outcome gz ?db resp r w2 w'"
      by (rule extract_outcome [OF _ assms(3) intact bytes]) (use assms(1) c b 3 in \<open>simp add: unpack_def\<close>)
    moreover have "written_between w2 w' f \<Longrightarrow> written_between w w' f" for f
      using t unfolding written_between_def touches_def by (metis order_trans)
    moreover have "wd_files w2 ?db = wd_files w ?db" using t assms(2) by (simp add: touches_def)
    ultimately show ?thesis
      using t t1 t2 touches_trans [of "{tmp}" w w2 "{?db}" w' "{tmp, ?db}"] by (auto simp: db_outcome_def)
  qed
qed

lemma temp_is_not_the_database:
  assumes "\<not> has_suffix db ''.mmdb.gz''" shows "temp_path dir pre ''.mmdb.gz'' r \<noteq> db"
proof
  assume "temp_path dir pre ''.mmdb.gz'' r = db"
  then have "rev db = rev ''.mmdb.gz'' @ rev r @ rev pre @ rev (if has_suffix dir ''/'' then dir else dir @ ''/'')"
    by (auto simp: temp_path_def)
  then show False using assms by (simp add: has_suffix_def has_prefix_def)
qed

text \<open>Other files than the database: at most the new temporary file stays, when its removal fails.\<close>

definition others_kept :: "string \<Rightarrow> world \<Rightarrow> world \<Rightarrow> bool" where
  "others_kept db w w' \<longleftrightarrow>
     (\<forall>p. p \<noteq> db \<and> wd_files w' p \<noteq> wd_files w p \<longrightarrow>
        wd_files w p = None \<and> ou_fault (wd_out w) (wd_n w' - 1) \<noteq> None)"

lemma os_CreateTemp_file:
  "os_CreateTemp dir pre suf w = (Inr p, w') \<Longrightarrow> \<exists>f. wd_files w' p = Some f \<and> fl_bytes f = []"
  by (auto simp: os_defs Let_def split: option.splits if_splits)

lemma os_Remove_gone:
  "os_Remove p w = (r, w') \<Longrightarrow> ou_fault (wd_out w) (wd_n w' - 1) = None \<Longrightarrow> wd_files w' p = None"
  by (auto simp: os_defs split: option.splits if_splits)

lemma install_outcome:
  assumes "install gz u resp w = (r, w')" and "\<not> has_suffix (up_dbPath u) ''.mmdb.gz''"
  shows "touches UNIV w w' \<and> wd_asked w' = wd_asked w \<and> others_kept (up_dbPath u) w w' \<and>
    db_outcome gz (up_dbPath u) resp r w w'"
proof -
  let ?db = "up_dbPath u" and ?dir = "filepath_Dir (up_dbPath u)"
  have early: ?thesis if "touches {} w w'" "wd_asked w' = wd_asked w" "\<not> is_ok r"
    using that by (auto simp: db_outcome_def touches_def others_kept_def)
  obtain a w1 where a: "os_MkdirAll ?dir w = (a, w1)" by fastforce
  obtain c w2 where c: "os_CreateTemp ?dir ''geoip-'' ''.mmdb.gz'' w1 = (c, w2)" by fastforce
  have t1: "touches {} w w1" "wd_asked w1 = wd_asked w" using touches_ops(4) [OF a] by auto
  consider "hr_status resp \<noteq> 200" | e where "hr_status resp = 200" "a = Inl e"
    | e where "hr_status resp = 200" "a = Inr ()" "c = Inl e" | tmp where "hr_status resp = 200" "a = Inr ()" "c = Inr tmp"
    by (cases a; cases c) auto
  then show ?thesis
  proof cases
    case 1
    then show ?thesis using assms(1) early by (auto simp: install_def)
  next
    case 2
    then show ?thesis using assms(1) a t1 early by (auto simp: install_def)
  next
    case 3
    then show ?thesis
      using assms(1) a c t1 early touches_CreateTemp(1) [OF c [unfolded 3(3)]] touches_trans [of "{}" w w1 "{}" w2 "{}"]
      by (auto simp: install_def)
  next
    case 4
    obtain q w3 where q: "unpack gz u resp tmp w2 = (q, w3)" by fastforce
    obtain x where rm: "os_Remove tmp w3 = (x, w')" and r: "q = r"
      using assms(1) 4 a c q by (cases "os_Remove tmp w3") (auto simp: install_def)
    note tmp = touches_CreateTemp(2) [OF c [unfolded 4(3)]]
    have ne: "tmp \<noteq> ?db" using tmp temp_is_not_the_database [OF assms(2), of ?dir "''geoip-''"] by auto
    obtain f where f: "wd_files w2 tmp = Some f" "fl_bytes f = []"
      using os_CreateTemp_file [OF c [unfolded 4(3)]] by blast
    have u: "touches {tmp, ?db} w2 w3" "wd_asked w3 = wd_asked w2" "db_outcome gz ?db resp r w2 w3"
      using unpack_outcome [OF q ne 4(1) f] r by auto
    note d = touches_ops(7) [OF rm]
    have t2: "touches {tmp} w w2" using touches_trans [of "{}" w w1 "{tmp}" w2 "{tmp}"] t1 tmp by auto
    have db: "wd_files w2 ?db = wd_files w ?db" "wd_files w' ?db = wd_files w3 ?db" "wd_n w \<le> wd_n w2" "wd_n w3 \<le> wd_n w'"
      "wd_out w2 = wd_out w"
      using t2 d ne by (auto simp: touches_def)
    have "written_between w2 w3 f \<Longrightarrow> written_between w w' f" for f
      unfolding written_between_def db(5) using db(3,4) by (meson order_trans)
    then have "db_outcome gz ?db resp r w w'" using u(3) by (auto simp: db_outcome_def db)
    moreover have t: "touches {tmp, ?db} w w'"
      using touches_trans [of "{tmp, ?db}" w w3 "{tmp}" w' "{tmp, ?db}"]
        touches_trans [of "{tmp}" w w2 "{tmp, ?db}" w3 "{tmp, ?db}"] t2 u d by auto
    moreover have "others_kept ?db w w'"
      unfolding others_kept_def
    proof (intro allI impI)
      fix p assume p: "p \<noteq> ?db \<and> wd_files w' p \<noteq> wd_files w p"
      then have "p = tmp" using t unfolding touches_def by blast
      moreover have "wd_files w tmp = None" using tmp t1(1) by (simp add: touches_def)
      moreover have "wd_out w3 = wd_out w" using t2 u(1) by (simp add: touches_def)
      ultimately show "wd_files w p = None \<and> ou_fault (wd_out w) (wd_n w' - 1) \<noteq> None"
        using os_Remove_gone [OF rm] p by metis
    qed
    ultimately show ?thesis using t1 tmp u(2) d by (auto simp: touches_def)
  qed
qed

text \<open>The requests of a download: the archive of this month and, after a 404, that of one month before.\<close>

definition url_at :: "outside \<Rightarrow> instant \<Rightarrow> string" where
  "url_at out t = dbipDownloadURL (year_of (ou_zone out) t) (month_of (ou_zone out) t)"

lemma Update_step:
  assumes "u1 = url_at (wd_out w) (ou_clock (wd_out w) (wd_n w))"
    and "u2 = url_at (wd_out w) (add_months (ou_zone (wd_out w)) (-1) (ou_clock (wd_out w) (wd_n w)))"
    and "w1 = w\<lparr>wd_n := wd_n w + 2, wd_asked := wd_asked w @ [u1]\<rparr>"
    and "w2 = w\<lparr>wd_n := wd_n w + 3, wd_asked := wd_asked w @ [u1, u2]\<rparr>"
  shows "Update gz u w =
      (case ou_http (wd_out w) (wd_n w + 1) u1 of
         Inl e \<Rightarrow> (Inl (''download: '' @ e), w1)
       | Inr resp \<Rightarrow>
           if hr_status resp = 404 then
             (case ou_http (wd_out w) (wd_n w + 2) u2 of
                Inl e \<Rightarrow> (Inl (''download fallback: '' @ e), w2) | Inr resp \<Rightarrow> install gz u resp w2)
           else install gz u resp w1)"
proof -
  have "http_Get u1 (w\<lparr>wd_n := wd_n w + 1\<rparr>) = (ou_http (wd_out w) (wd_n w + 1) u1, w1)"
    and "http_Get u2 w1 = (ou_http (wd_out w) (wd_n w + 2) u2, w2)"
    by (simp_all add: http_Get_def os_next_def assms(3,4))
  then show ?thesis
    unfolding assms(1,2) url_at_def
    by (simp add: Update_def time_Now_def os_next_def Let_def split: sum.split)
qed

lemma Update_cases:
  assumes up: "Update gz u w = (r, w')"
    and u1: "u1 = url_at (wd_out w) (ou_clock (wd_out w) (wd_n w))"
    and u2: "u2 = url_at (wd_out w) (add_months (ou_zone (wd_out w)) (-1) (ou_clock (wd_out w) (wd_n w)))"
  obtains
    (unanswered) e where "touches {} w w'" "\<not> is_ok r" "wd_asked w' = wd_asked w @ [u1]"
      "ou_http (wd_out w) (wd_n w + 1) u1 = Inl e"
  | (first) resp w1 where "touches {} w w1" "install gz u resp w1 = (r, w')" "hr_status resp \<noteq> 404"
      "wd_asked w1 = wd_asked w @ [u1]" "ou_http (wd_out w) (wd_n w + 1) u1 = Inr resp"
  | (fallback_unanswered) old e where "touches {} w w'" "\<not> is_ok r" "wd_asked w' = wd_asked w @ [u1, u2]"
      "ou_http (wd_out w) (wd_n w + 1) u1 = Inr old" "hr_status old = 404" "ou_http (wd_out w) (wd_n w + 2) u2 = Inl e"
  | (second) old resp w1 where "touches {} w w1" "install gz u resp w1 = (r, w')"
      "ou_http (wd_out w) (wd_n w + 1) u1 = Inr old" "hr_status old = 404"
      "wd_asked w1 = wd_asked w @ [u1, u2]" "ou_http (wd_out w) (wd_n w + 2) u2 = Inr resp"
proof -
  let ?w1 = "w\<lparr>wd_n := wd_n w + 2, wd_asked := wd_asked w @ [u1]\<rparr>"
  let ?w2 = "w\<lparr>wd_n := wd_n w + 3, wd_asked := wd_asked w @ [u1, u2]\<rparr>"
  note step = Update_step [OF u1 u2 refl refl, of gz u]
  have t: "touches {} w ?w1" "touches {} w ?w2" by (simp_all add: touches_def)
  consider e where "ou_http (wd_out w) (wd_n w + 1) u1 = Inl e"
    | resp where "ou_http (wd_out w) (wd_n w + 1) u1 = Inr resp" "hr_status resp \<noteq> 404"
    | old e where "ou_http (wd_out w) (wd_n w + 1) u1 = Inr old" "hr_status old = 404" "ou_http (wd_out w) (wd_n w + 2) u2 = Inl e"
    | old resp where "ou_http (wd_out w) (wd_n w + 1) u1 = Inr old" "hr_status old = 404"
        "ou_http (wd_out w) (wd_n w + 2) u2 = Inr resp"
    by (metis sum.exhaust)
  then show ?thesis
  proof cases
    case 1
    then show ?thesis using up t by (intro unanswered) (auto simp: step)
  next
    case (2 resp)
    then show ?thesis using up t by (intro first [of ?w1 resp]) (auto simp: step)
  next
    case (3 old e)
    then show ?thesis using up t by (intro fallback_unanswered [of old e]) (auto simp: step)
  next
    case (4 old resp)
    then show ?thesis using up t by (intro second [of ?w2 resp old]) (auto simp: step)
  qed
qed

lemma install_after:
  assumes "touches {} w w1" and "install gz u resp w1 = (r, w')" and "\<not> has_suffix (up_dbPath u) ''.mmdb.gz''"
  shows "wd_asked w' = wd_asked w1 \<and> touches UNIV w w' \<and> others_kept (up_dbPath u) w w' \<and>
    db_outcome gz (up_dbPath u) resp r w w'"
proof -
  note i = install_outcome [OF assms(2,3)]
  have le: "wd_n w \<le> wd_n w1" and same: "wd_files w1 = wd_files w" "wd_out w1 = wd_out w"
    using assms(1) by (auto simp: touches_def)
  have "written_between w1 w' f \<Longrightarrow> written_between w w' f" for f
    unfolding written_between_def same using le by (meson order_trans)
  then show ?thesis using i assms(1) by (auto simp: db_outcome_def others_kept_def touches_def)
qed


lemma Update_outcome:
  assumes "Update gz u w = (r, w')" and "\<not> has_suffix (up_dbPath u) ''.mmdb.gz''"
  shows "touches UNIV w w' \<and> others_kept (up_dbPath u) w w' \<and>
    (\<not> is_ok r \<and> wd_files w' (up_dbPath u) = wd_files w (up_dbPath u) \<or>
     (\<exists>i resp. ou_http (wd_out w) i (last (wd_asked w')) = Inr resp \<and> db_outcome gz (up_dbPath u) resp r w w'))"
  using assms(1) refl refl
proof (cases rule: Update_cases)
  case (first resp w1)
  from install_after [OF first(1,2) assms(2)] first(4,5) show ?thesis by fastforce
next
  case (second old resp w1)
  from install_after [OF second(1,2) assms(2)] second(5,6) show ?thesis by fastforce
qed (auto simp: touches_def others_kept_def)

text \<open>
  C20. \<open>Update\<close> touches no file but the database, except that a temporary file that was not there before stays when
  its removal, the last operation, fails.  When it returns without error, the database is the whole unpacked
  body of a complete answer with status 200 to the last request it sent.  When it returns an error, the
  database is as it was or the beginning of such a body, because it is unpacked in place.
\<close>

theorem Update_effect:
  assumes "Update gz u w = (r, w')" and "\<not> has_suffix (up_dbPath u) ''.mmdb.gz''"
  shows "others_kept (up_dbPath u) w w' \<and>
    (\<not> is_ok r \<and> wd_files w' (up_dbPath u) = wd_files w (up_dbPath u) \<or>
     (\<exists>i resp f. ou_http (wd_out w) i (last (wd_asked w')) = Inr resp \<and> wd_files w' (up_dbPath u) = Some f \<and>
        unpacked_from gz resp (is_ok r) f \<and> written_between w w' f))"
  using Update_outcome [OF assms] unfolding db_outcome_def by blast

text \<open>A world for examples: it is noon on the 31st of March 2024, every request gets the same answer.\<close>

definition sample_noon :: instant where
  "sample_noon = days_of_date 2024 3 31 * nanos_per_day + nanos_per_day div 2"

definition sample_answer :: "int \<Rightarrow> http_response" where
  "sample_answer code = \<lparr>hr_status = code, hr_status_text = '''', hr_body = ''ABCD'', hr_broken = None\<rparr>"

definition sample_world :: "int \<Rightarrow> world" where
  "sample_world code =
     \<lparr>wd_out = \<lparr>ou_clock = \<lambda>_. sample_noon, ou_zone = \<lambda>_. 0, ou_http = \<lambda>_ _. Inr (sample_answer code),
                ou_fault = \<lambda>_. None, ou_part = \<lambda>_. 0, ou_rand = \<lambda>_. ''7''\<rparr>,
      wd_n = 0, wd_files = \<lambda>_. None, wd_asked = []\<rparr>"

definition sample_updater :: Updater where
  "sample_updater = NewUpdater ''data/geo.mmdb''"

definition intact :: decompressor where
  "intact bytes = Inr (bytes, None)"

definition cut_off :: decompressor where
  "cut_off bytes = Inr (take 2 bytes, Some ''unexpected EOF'')"

lemma sample_date: "date_of (\<lambda>_. 0) sample_noon = (2024, 3, 31)"
proof -
  have "sample_noon div nanos_per_day = days_of_date 2024 3 31"
    unfolding sample_noon_def by (rule day_of_wall) (simp_all add: nanos_per_day_def)
  moreover have "date_ok 2024 3 31" by code_simp
  ultimately show ?thesis by (simp add: date_of_def date_of_days_of_date)
qed

lemmas sample_defs = sample_world_def sample_answer_def sample_updater_def NewUpdater_def intact_def cut_off_def

lemma sample_runs:
  "fst (Update intact sample_updater (sample_world 200)) = Inr ()"
  "map_option fl_bytes (wd_files (snd (Update intact sample_updater (sample_world 200))) ''data/geo.mmdb'') = Some ''ABCD''"
  "fst (Update cut_off sample_updater (sample_world 200)) = Inl ''unexpected EOF''"
  "map_option fl_bytes (wd_files (snd (Update cut_off sample_updater (sample_world 200))) ''data/geo.mmdb'') = Some ''AB''"
  "length (wd_asked (snd (Update intact sample_updater (sample_world 404)))) = 2"
proof -
  have "temp_path (filepath_Dir ''data/geo.mmdb'') ''geoip-'' ''.mmdb.gz'' ''7'' \<noteq> ''data/geo.mmdb''" by code_simp
  note sample = this sample_defs install_def unpack_def os_defs Let_def numeral_eq_Suc
  show "fst (Update intact sample_updater (sample_world 200)) = Inr ()"
    "map_option fl_bytes (wd_files (snd (Update intact sample_updater (sample_world 200))) ''data/geo.mmdb'') = Some ''ABCD''"
    "fst (Update cut_off sample_updater (sample_world 200)) = Inl ''unexpected EOF''"
    "map_option fl_bytes (wd_files (snd (Update cut_off sample_updater (sample_world 200))) ''data/geo.mmdb'') = Some ''AB''"
    "length (wd_asked (snd (Update intact sample_updater (sample_world 404)))) = 2"
    unfolding Update_step [OF refl refl refl refl] by (simp_all add: sample)
qed

lemma sample_path: "\<not> has_suffix (up_dbPath sample_updater) ''.mmdb.gz''" "up_dbPath sample_updater = ''data/geo.mmdb''"
  by code_simp+

lemma Update_effect_witness:
  "let w = sample_world 200; w' = snd (Update intact sample_updater w)
   in others_kept ''data/geo.mmdb'' w w' \<and>
     (\<exists>i resp f. ou_http (wd_out w) i (last (wd_asked w')) = Inr resp \<and> wd_files w' ''data/geo.mmdb'' = Some f \<and>
        unpacked_from intact resp True f \<and> fl_bytes f = ''ABCD'')"
  using Update_effect [OF ok_pair [OF sample_runs(1)] sample_path(1)] sample_runs(2)
  by (fastforce simp: sample_path(2) Let_def)

subsection \<open>When the database is due\<close>

text \<open>
  \<open>NeedsUpdate\<close> asks for an update exactly when one of its two looks at the database fails, there is none, or
  it was last written in a month before the current one; it sends nothing and changes no file.
\<close>

theorem NeedsUpdate_iff:
  assumes "NeedsUpdate u w = (b, w')"
  shows "touches {} w w' \<and> wd_asked w' = wd_asked w \<and>
    (b \<longleftrightarrow> ou_fault (wd_out w) (wd_n w) \<noteq> None \<or> ou_fault (wd_out w) (wd_n w + 1) \<noteq> None \<or>
       (case wd_files w (up_dbPath u) of
          None \<Rightarrow> True
        | Some f \<Rightarrow> month_index (ou_zone (wd_out w)) (fl_mtime f) <
            month_index (ou_zone (wd_out w)) (ou_clock (wd_out w) (wd_n w + 2))))"
  using assms
  by (cases "ou_fault (wd_out w) (wd_n w)"; cases "ou_fault (wd_out w) (Suc (wd_n w))"; cases "wd_files w (up_dbPath u)")
    (auto simp: NeedsUpdate_def DatabaseExists_def os_Stat_def os_call_def os_next_def time_Now_def touches_def Let_def later_month)


subsection \<open>Which months are asked for\<close>

lemma dbipDownloadURL_inj:
  assumes "dbipDownloadURL y m = dbipDownloadURL y' m'" and "0 \<le> y" "0 \<le> m" "0 \<le> y'" "0 \<le> m'"
  shows "y = y' \<and> m = m'"
proof -
  have "fmt_d y @ CHR ''-'' # fmt_02d m @ ''.mmdb.gz'' = fmt_d y' @ CHR ''-'' # fmt_02d m' @ ''.mmdb.gz''"
    using assms(1) by (simp add: dbipDownloadURL_def)
  moreover have nd: "\<not> is_digit (CHR ''-'')" "\<not> is_digit (CHR ''.'')" by code_simp+
  ultimately have y: "fmt_d y = fmt_d y'" and m: "fmt_02d m @ ''.mmdb.gz'' = fmt_02d m' @ ''.mmdb.gz''"
    using takeWhile_digits [of "fmt_d y"] takeWhile_digits [of "fmt_d y'"] fmt_d_digits assms(2,4)
    by (metis, metis append_same_eq list.inject same_append_eq)
  then show ?thesis using fmt_d_digits [of y] fmt_d_digits [of y'] fmt_02d_digits [of m] fmt_02d_digits [of m'] assms
    by (metis append_same_eq)
qed

text \<open>
  C22. After a 404 for the archive of this month, in a zone whose offset does not change, \<open>Update\<close> asks for the
  archive of the month before only when that month has a day with the number of today.  Otherwise (on the
  31st of a month after a short one, and on the 29th to 31st of March) \<open>AddDate(0, -1, 0)\<close> stays in this month,
  and it asks for the missing archive again.
\<close>

theorem fallback_month:
  assumes "Update gz u w = (r, w')" and "wd_asked w' = wd_asked w @ [u1, u2]" and "\<not> has_suffix (up_dbPath u) ''.mmdb.gz''"
    and "\<And>t. ou_zone (wd_out w) t = z" and "date_of (ou_zone (wd_out w)) (ou_clock (wd_out w) (wd_n w)) = (y, m, d)"
    and "month_before y m = (y', m')" and "1 \<le> y"
  shows "u1 = dbipDownloadURL y m \<and> u2 = (if d \<le> month_length y' m' then dbipDownloadURL y' m' else u1) \<and>
    dbipDownloadURL y' m' \<noteq> u1"
proof -
  let ?out = "wd_out w" and ?now = "ou_clock (wd_out w) (wd_n w)"
  have asked: "u1 = url_at ?out ?now \<and> u2 = url_at ?out (add_months (ou_zone ?out) (-1) ?now)"
    using assms(1) refl refl
  proof (cases rule: Update_cases)
    case (first resp w1)
    then show ?thesis using install_after [OF first(1,2) assms(3)] assms(2) by simp
  next
    case (second old resp w1)
    then show ?thesis using install_after [OF second(1,2) assms(3)] assms(2) by simp
  qed (use assms(2) in simp_all)
  have m: "1 \<le> m" "m \<le> 12" using month_of_range [of "ou_zone ?out" ?now] assms(5) by (simp_all add: month_of_def)
  have u1: "u1 = dbipDownloadURL y m" using asked assms(5) by (simp add: url_at_def year_of_def month_of_def)
  moreover have "u2 = (if d \<le> month_length y' m' then dbipDownloadURL y' m' else u1)"
    using asked month_before_date [OF assms(4,5,6)] u1 by (simp add: url_at_def year_of_def month_of_def)
  moreover have "dbipDownloadURL y' m' \<noteq> dbipDownloadURL y m"
    using dbipDownloadURL_inj [of y' m' y m] assms(6,7) m by (auto simp: month_before_def split: if_splits)
  ultimately show ?thesis by simp
qed


subsection \<open>A month with a new database\<close>

lemma geo_tick_settled:
  assumes "\<And>n. ou_fault (wd_out w) n = None" and "wd_files w (up_dbPath u) = Some f"
    and "month_index (ou_zone (wd_out w)) (ou_clock (wd_out w) (wd_n w + 2)) \<le> month_index (ou_zone (wd_out w)) (fl_mtime f)"
  shows "geo_tick gz u w = w\<lparr>wd_n := wd_n w + 3\<rparr>"
  using assms
  by (simp add: geo_tick_def NeedsUpdate_def DatabaseExists_def os_Stat_def os_call_def os_next_def time_Now_def Let_def
      flip: later_month)

text \<open>
  C21. Whenever \<open>Update\<close> has changed the database, whether it succeeded or gave up halfway, the update loop neither
  asks the server nor touches a file at any later tick in the same month: what the download left, even a
  database that ends in the middle, stays until the next month.
\<close>

theorem download_settles_month:
  assumes "Update gz u w = (r, w')" and "\<not> has_suffix (up_dbPath u) ''.mmdb.gz''"
    and "wd_files w' (up_dbPath u) \<noteq> wd_files w (up_dbPath u)"
    and "\<And>n. ou_fault (wd_out w) n = None"
    and month: "\<And>j. wd_n w \<le> j \<Longrightarrow> j < wd_n w' + 3 * k \<Longrightarrow> month_index (ou_zone (wd_out w)) (ou_clock (wd_out w) j) = M"
  shows "(geo_tick gz u ^^ k) w' = w'\<lparr>wd_n := wd_n w' + 3 * k\<rparr>"
proof (cases "k = 0")
  case False
  obtain f where f: "wd_files w' (up_dbPath u) = Some f" "written_between w w' f"
    using Update_outcome [OF assms(1,2)] assms(3) unfolding db_outcome_def by blast
  have out: "wd_out w' = wd_out w" "wd_n w \<le> wd_n w'" using Update_outcome [OF assms(1,2)] by (simp_all add: touches_def)
  have mtime: "month_index (ou_zone (wd_out w)) (fl_mtime f) = M"
    using f(2) month False by (auto simp: written_between_def)
  have "i \<le> k \<Longrightarrow> (geo_tick gz u ^^ i) w' = w'\<lparr>wd_n := wd_n w' + 3 * i\<rparr>" for i
  proof (induction i)
    case (Suc i)
    let ?w = "w'\<lparr>wd_n := wd_n w' + 3 * i\<rparr>"
    have "geo_tick gz u ?w = ?w\<lparr>wd_n := wd_n ?w + 3\<rparr>"
      using f(1) mtime out month [of "wd_n w' + 3 * i + 2"] Suc.prems assms(4) by (intro geo_tick_settled) auto
    then show ?case using Suc by simp
  qed simp
  then show ?thesis by blast
qed simp

lemma download_settles_month_witness:
  "let w' = snd (Update cut_off sample_updater (sample_world 200))
   in map_option fl_bytes (wd_files w' ''data/geo.mmdb'') = Some ''AB'' \<and>
     (geo_tick cut_off sample_updater ^^ 30) w' = w'\<lparr>wd_n := wd_n w' + 90\<rparr>"
proof -
  let ?w' = "snd (Update cut_off sample_updater (sample_world 200))"
  have "wd_files ?w' (up_dbPath sample_updater) \<noteq> wd_files (sample_world 200) (up_dbPath sample_updater)"
    using sample_runs(4) by (auto simp: sample_path sample_world_def)
  from download_settles_month [OF surjective_pairing sample_path(1) this, where k = 30 and M = "month_index (\<lambda>_. 0) sample_noon"]
  show ?thesis using sample_runs(4) by (simp add: sample_world_def)
qed

lemma fallback_month_witness:
  "\<exists>u1. wd_asked (snd (Update intact sample_updater (sample_world 404))) = [u1, u1] \<and> dbipDownloadURL 2024 2 \<noteq> u1"
proof -
  let ?w' = "snd (Update intact sample_updater (sample_world 404))"
  obtain u1 u2 where "wd_asked ?w' = [u1, u2]"
    using sample_runs(5) by (auto simp: length_Suc_conv numeral_2_eq_2)
  moreover have "wd_asked ?w' = wd_asked (sample_world 404) @ [u1, u2]"
    using calculation by (simp add: sample_world_def)
  moreover have "u1 = dbipDownloadURL 2024 3 \<and> u2 = (if 31 \<le> month_length 2024 2 then dbipDownloadURL 2024 2 else u1) \<and>
      dbipDownloadURL 2024 2 \<noteq> u1"
    by (rule fallback_month [OF surjective_pairing calculation(2) sample_path(1), where z = 0])
      (simp_all add: sample_world_def sample_date month_before_def)
  moreover have "month_length 2024 2 = 29" by code_simp
  ultimately show ?thesis by auto
qed

end
