(* ===== verification/Open_Store.thy ===== *)
theory Open_Store
  imports Postgres_Store
begin

text \<open>
  Opening a database: \<open>NewSQLite\<close> and \<open>NewPostgres\<close> with their \<open>migrate\<close> (\<open>internal/storage/sqlite.go\<close>,
  \<open>internal/storage/postgres.go\<close>).  The drivers of \<open>database/sql\<close> and the embedded files are parameters.
  \<open>dv_found\<close> is the state of the database at a data source; a table that is not there yet is one without
  rows, so the migration, which creates the missing tables and nothing else, leaves that state as it is.  The
  cascades of \<open>Sqlite_Store\<close> rely on the driver to honour the pragma \<open>foreign_keys\<close> in the data source.
\<close>

record 's sql_driver =
  dv_open :: "string \<Rightarrow> string \<Rightarrow> (string, unit) result"
  dv_ping :: "string \<Rightarrow> (string, unit) result"
  dv_exec :: "string \<Rightarrow> string \<Rightarrow> (string, unit) result"
  dv_embedded :: "string \<Rightarrow> (string, string) result"
  dv_found :: "string \<Rightarrow> 's"

type_synonym 's opener = "string \<Rightarrow> (string, 's Store \<times> 's) result"

definition sqlite_migrate :: "db sql_driver \<Rightarrow> string \<Rightarrow> (string, unit) result" where
  "sqlite_migrate drv source =
     (case dv_embedded drv ''migrations/sqlite/001_initial.sql'' of
        Inl e \<Rightarrow> Inl (''read migration: '' @ e)
      | Inr data \<Rightarrow> dv_exec drv source data)"

definition NewSQLite :: "db sql_driver \<Rightarrow> db opener" where
  "NewSQLite drv dsn =
     (let source = dsn @ ''?_pragma=foreign_keys(1)&_pragma=journal_mode(wal)'' in
      case dv_open drv ''sqlite'' source of
        Inl e \<Rightarrow> Inl (''open sqlite: '' @ e)
      | Inr _ \<Rightarrow>
          (case dv_ping drv source of
             Inl e \<Rightarrow> Inl (''ping sqlite: '' @ e)
           | Inr _ \<Rightarrow>
               (case sqlite_migrate drv source of
                  Inl e \<Rightarrow> Inl (''migrate sqlite: '' @ e)
                | Inr _ \<Rightarrow> Inr (SQLiteStore, dv_found drv source))))"

definition pg_migrate :: "pg sql_driver \<Rightarrow> string \<Rightarrow> (string, unit) result" where
  "pg_migrate drv source =
     (case dv_embedded drv ''migrations/postgres/001_initial.sql'' of
        Inl e \<Rightarrow> Inl (''read migration: '' @ e)
      | Inr data \<Rightarrow> dv_exec drv source data)"

definition NewPostgres :: "pg sql_driver \<Rightarrow> pg opener" where
  "NewPostgres drv dsn =
     (case dv_open drv ''postgres'' dsn of
        Inl e \<Rightarrow> Inl (''open postgres: '' @ e)
      | Inr _ \<Rightarrow>
          (case dv_ping drv dsn of
             Inl e \<Rightarrow> Inl (''ping postgres: '' @ e)
           | Inr _ \<Rightarrow>
               (case pg_migrate drv dsn of
                  Inl e \<Rightarrow> Inl (''migrate postgres: '' @ e)
                | Inr _ \<Rightarrow> Inr (PostgresStore, dv_found drv dsn))))"

text \<open>An opener of one kind gives the store of that kind, on the database of the data source.\<close>

lemma NewSQLite_store: "NewSQLite drv dsn = Inr (st, s) \<Longrightarrow> st = SQLiteStore \<and> (\<exists>source. s = dv_found drv source)"
  by (auto simp: NewSQLite_def Let_def split: sum.splits)

lemma NewPostgres_store: "NewPostgres drv dsn = Inr (st, s) \<Longrightarrow> st = PostgresStore \<and> s = dv_found drv dsn"
  by (auto simp: NewPostgres_def split: sum.splits)

end
