(* ===== verification/Program.thy ===== *)
theory Program
  imports System Geoip_Updater Open_Store
begin

text \<open>
  \<open>cmd/oximetric/main.go\<close>: the start of the process, its two background loops, and the process as a whole,
  which refines the running system of \<open>System\<close>.  Log lines, the port, the signal and the thirty seconds of
  grace for open requests are not modelled.
\<close>

subsection \<open>What the process is given\<close>

text \<open>
  \<open>ma_sqlite\<close> and \<open>ma_postgres\<close> open a database and give the store, with its methods, and its state, or an
  error: \<open>NewSQLite\<close> and \<open>NewPostgres\<close>, each on its own type of states (a process uses one of them).  \<open>ma_mmdb\<close> is
  the MaxMind reader on the bytes of a file, \<open>ma_parse_ip\<close> is \<open>net.ParseIP\<close>, \<open>ma_console\<close> what
  \<open>NewConsoleHandler\<close> gives for the domain name.
\<close>

record ('s, 'ip) machine =
  ma_lower :: "string \<Rightarrow> string"
  ma_sqlite :: "'s opener"
  ma_postgres :: "'s opener"
  ma_lib :: auth_lib
  ma_gz :: decompressor
  ma_mmdb :: "string \<Rightarrow> (string, 'ip \<Rightarrow> unit + mm_value option) result"
  ma_parse_ip :: "string \<Rightarrow> 'ip option"
  ma_console :: "string \<Rightarrow> (start_error, ConsoleHandler) result"
  ma_version :: string

record 's process =
  pr_app :: "'s app"
  pr_updater :: Updater
  pr_server :: "'s server"
  pr_addr :: string
  pr_world :: world

text \<open>\<open>Crashed\<close>: a call through the nil interface, when no store was opened.\<close>

datatype 's start = Exited | Crashed | Running "'s process"

subsection \<open>The start\<close>

text \<open>\<open>NewResolver\<close> reads the file there is now.\<close>

definition NewResolver ::
  "('s, 'ip) machine \<Rightarrow> string \<Rightarrow> world \<Rightarrow> (string, string \<Rightarrow> Location) result \<times> world" where
  "NewResolver m dbPath w =
     (case os_Open dbPath w of
        (Inl e, w1) \<Rightarrow> (Inl e, w1)
      | (Inr bytes, w1) \<Rightarrow> (map_sum id (geo_lookup (ma_parse_ip m)) (ma_mmdb m bytes), w1))"

definition open_store :: "('s, 'ip) machine \<Rightarrow> Config \<Rightarrow> (string, 's Store \<times> 's) result option" where
  "open_store m cfg =
     (if DBDriver cfg = ''sqlite'' then Some (ma_sqlite m (DBDSN cfg))
      else if DBDriver cfg = ''postgres'' then Some (ma_postgres m (DBDSN cfg))
      else None)"

definition init_geoip ::
  "('s, 'ip) machine \<Rightarrow> Config \<Rightarrow> Updater \<Rightarrow> world \<Rightarrow> (string \<Rightarrow> Location) option \<times> world" where
  "init_geoip m cfg u w =
     (case DatabaseExists u w of (ex, w1) \<Rightarrow>
        let w2 = (if \<not> ex then snd (Update (ma_gz m) u w1) else w1)
        in (case DatabaseExists u w2 of (ex2, w3) \<Rightarrow>
              if ex2 then
                (case NewResolver m (GeoIPDBPath cfg) w3 of (Inl _, w4) \<Rightarrow> (None, w4) | (Inr geo, w4) \<Rightarrow> (Some geo, w4))
              else (None, w3)))"

definition JoinHostPort :: "string \<Rightarrow> string \<Rightarrow> string" where
  "JoinHostPort host port =
     (if CHR '':'' \<in> set host then ''['' @ host @ '']:'' @ port else host @ '':'' @ port)"

definition main_start :: "('s, 'ip) machine \<Rightarrow> environment \<Rightarrow> world \<Rightarrow> 's start" where
  "main_start m env w =
     (case load (ma_lower m) env of
        Inl _ \<Rightarrow> Exited
      | Inr cfg \<Rightarrow>
          (case open_store m cfg of
             None \<Rightarrow> Crashed
           | Some (Inl _) \<Rightarrow> Exited
           | Some (Inr (store, s)) \<Rightarrow>
               (case bootstrapAdmin store (ma_lib m) cfg s of
                  (Inl _, _) \<Rightarrow> Exited
                | (Inr _, s1) \<Rightarrow>
                    (let updater = NewUpdater (GeoIPDBPath cfg)
                     in case init_geoip m cfg updater w of (geo, w1) \<Rightarrow>
                       Running
                         \<lparr>pr_app = \<lparr>ap_store = store, ap_svc = NewService (JWTSecret cfg), ap_lib = ma_lib m, ap_geo = geo,
                            ap_cfg = cfg, ap_version = ma_version m, ap_console = ma_console m (DomainName cfg)\<rparr>,
                          pr_updater = updater, pr_server = boot s1, pr_addr = JoinHostPort '''' (Port cfg),
                          pr_world = w1\<rparr>))))"

subsection \<open>The background loops\<close>

text \<open>
  What a loop hears from its \<open>select\<close>: ticks, and the cancelled context.  When both are ready either may be
  picked, so the list is any list; at its end the loop waits.
\<close>

datatype 'a wake = Tick 'a | Done

fun wakes :: "('a \<Rightarrow> 's \<Rightarrow> 's) \<Rightarrow> 'a wake list \<Rightarrow> 's \<Rightarrow> 's" where
  "wakes f [] s = s"
| "wakes f (Done # _) s = s"
| "wakes f (Tick x # ws) s = wakes f ws (f x s)"

text \<open>A pass of the retention job reads the clock for each project: the readings come with the tick.\<close>

definition retentionCleanupLoop ::
  "'s Store \<Rightarrow> runtime \<Rightarrow> (nat \<Rightarrow> instant) \<Rightarrow> (nat \<Rightarrow> instant) wake list \<Rightarrow> 's \<Rightarrow> 's" where
  "retentionCleanupLoop st rt first ws s =
     wakes (runRetentionCleanup st rt) ws (runRetentionCleanup st rt first s)"

definition geoipUpdateLoop :: "decompressor \<Rightarrow> Updater \<Rightarrow> unit wake list \<Rightarrow> world \<Rightarrow> world" where
  "geoipUpdateLoop gz u = wakes (\<lambda>_. geo_tick gz u)"

lemma wakes_Done: "wakes f (ws @ Done # vs) s = wakes f ws s"
proof (induction ws arbitrary: s)
  case (Cons w ws)
  then show ?case by (cases w) simp_all
qed simp

lemma geoipUpdateLoop_ticks: "geoipUpdateLoop gz u (replicate k (Tick ())) w = (geo_tick gz u ^^ k) w"
  by (induction k arbitrary: w) (simp_all add: geoipUpdateLoop_def funpow_swap1)

subsection \<open>When a process starts\<close>

lemma open_store_valid: "load lw env = Inr cfg \<Longrightarrow> open_store m cfg \<noteq> None"
  using load_Inr(1) [of lw env cfg] by (auto simp: open_store_def validate_None_iff)

lemma main_start_Running:
  "main_start m env w = Running P \<longleftrightarrow>
     (\<exists>cfg store s s1 geo w1. load (ma_lower m) env = Inr cfg \<and> open_store m cfg = Some (Inr (store, s)) \<and>
        bootstrapAdmin store (ma_lib m) cfg s = (Inr (), s1) \<and>
        init_geoip m cfg (NewUpdater (GeoIPDBPath cfg)) w = (geo, w1) \<and>
        P = \<lparr>pr_app = \<lparr>ap_store = store, ap_svc = NewService (JWTSecret cfg), ap_lib = ma_lib m, ap_geo = geo,
               ap_cfg = cfg, ap_version = ma_version m, ap_console = ma_console m (DomainName cfg)\<rparr>,
             pr_updater = NewUpdater (GeoIPDBPath cfg), pr_server = boot s1, pr_addr = JoinHostPort '''' (Port cfg),
             pr_world = w1\<rparr>)"
  by (auto simp: main_start_def Let_def split: sum.split option.split prod.split)



subsection \<open>The process refines the running system\<close>

text \<open>
  What a process does, and how one follows another: a process starts on a new database, or on the one an
  earlier process left, in any world: files, servers and clock may have changed meanwhile.
\<close>

inductive process_step :: "('s, 'ip) machine \<Rightarrow> 's process \<Rightarrow> 's process \<Rightarrow> bool" for m where
  request: "New (pr_app P) rt r new_writer (pr_server P) = (w', S') \<Longrightarrow> process_step m P (P\<lparr>pr_server := S'\<rparr>)"
| retention_wakes: "S' = (pr_server P)\<lparr>sv_store := retentionCleanupLoop (ap_store (pr_app P)) rt first ws (sv_store (pr_server P))\<rparr> \<Longrightarrow>
     process_step m P (P\<lparr>pr_server := S'\<rparr>)"
| geoip_wakes: "process_step m P (P\<lparr>pr_world := geoipUpdateLoop (ma_gz m) (pr_updater P) ws (pr_world P)\<rparr>)"
| elsewhere: "process_step m P (P\<lparr>pr_world := w\<rparr>)"

inductive process_reachable :: "'s Store \<Rightarrow> ('s \<Rightarrow> bool) \<Rightarrow> ('s, 'ip) machine \<Rightarrow> 's process \<Rightarrow> bool" for st created where
  process_first: "main_start m env w = Running P \<Longrightarrow> open_store m (ap_cfg (pr_app P)) = Some (Inr (st, s)) \<Longrightarrow> created s \<Longrightarrow>
     process_reachable st created m P"
| process_again: "process_reachable st created m P \<Longrightarrow> main_start m' env w = Running P' \<Longrightarrow>
     open_store m' (ap_cfg (pr_app P')) = Some (Inr (st, sv_store (pr_server P))) \<Longrightarrow> process_reachable st created m' P'"
| process_next: "process_reachable st created m P \<Longrightarrow> process_step m P P' \<Longrightarrow> process_reachable st created m P'"

lemma wakes_system_steps:
  "(system_step a)\<^sup>*\<^sup>* S (S\<lparr>sv_store := wakes (runRetentionCleanup (ap_store a) rt) ws (sv_store S)\<rparr>)"
proof (induction ws arbitrary: S)
  case (Cons w ws)
  show ?case
  proof (cases w)
    case (Tick clock)
    let ?S = "S\<lparr>sv_store := runRetentionCleanup (ap_store a) rt clock (sv_store S)\<rparr>"
    have "system_step a S ?S" by (rule system_step.retention)
    then show ?thesis using Cons.IH [of ?S] Tick by (simp add: converse_rtranclp_into_rtranclp)
  qed simp
qed simp

lemma retention_loop_system_steps:
  "(system_step a)\<^sup>*\<^sup>* S (S\<lparr>sv_store := retentionCleanupLoop (ap_store a) rt first ws (sv_store S)\<rparr>)"
  using wakes_system_steps [of a S rt "Tick first # ws"] by (simp add: retentionCleanupLoop_def)

lemma process_step_app: "process_step m P P' \<Longrightarrow> pr_app P' = pr_app P"
  by (erule process_step.cases) simp_all

lemma process_step_system:
  assumes "process_step m P P'"
  shows "(system_step (pr_app P))\<^sup>*\<^sup>* (pr_server P) (pr_server P')"
  using assms
proof (cases rule: process_step.cases)
  case (request rt r w' S')
  then show ?thesis using system_step.serve [OF request(2)] by auto
next
  case (retention_wakes S' rt first ws)
  then show ?thesis using retention_loop_system_steps by auto
qed auto

lemma system_reachable_steps:
  "(system_step a)\<^sup>*\<^sup>* S S' \<Longrightarrow> system_reachable st created a S \<Longrightarrow> system_reachable st created a S'"
  by (induction rule: rtranclp_induct) (auto intro: system_reachable.step)

text \<open>
  C6. Every state of every process, over starts with any environment, requests, wakes of both loops and
  whatever else happens to files and servers, is a state of the running system of \<open>System\<close> with the configuration
  it started with, which is valid; so what is proved of that system holds for the process.
\<close>

theorem process_refines_system:
  assumes "process_reachable st created m P"
  shows "system_reachable st created (pr_app P) (pr_server P) \<and> validate (ap_cfg (pr_app P)) = None"
  using assms
proof (induction rule: process_reachable.induct)
  case (process_first m env w P s)
  then show ?case unfolding main_start_Running
    by (auto intro!: system_reachable.first_start dest: load_Inr(1))
next
  case (process_again m P m' env w P')
  then show ?case unfolding main_start_Running
    by (auto intro!: system_reachable.restart dest: load_Inr(1))
next
  case (process_next m P P')
  then show ?case using system_reachable_steps process_step_system process_step_app by metis
qed

definition sample_driver :: "db sql_driver" where
  "sample_driver =
     \<lparr>dv_open = \<lambda>_ _. Inr (), dv_ping = \<lambda>_. Inr (), dv_exec = \<lambda>_ _. Inr (), dv_embedded = \<lambda>_. Inr '''',
      dv_found = \<lambda>_. empty_db (\<lambda>_. False) (\<lambda>_. 0) (\<lambda>_. rowid_plan) (\<lambda>f t. f)\<rparr>"

definition sample_machine :: "(db, string) machine" where
  "sample_machine =
     \<lparr>ma_lower = id, ma_sqlite = NewSQLite sample_driver, ma_postgres = (\<lambda>_. Inl ''no server''),
      ma_lib = sample_lib, ma_gz = cut_off, ma_mmdb = (\<lambda>_. Inl ''invalid MaxMind DB file''), ma_parse_ip = Some,
      ma_console = (\<lambda>_. Inr sample_console), ma_version = ''dev''\<rparr>"

lemma sample_start:
  "\<exists>P s. main_start sample_machine sample_env w = Running P \<and>
     open_store sample_machine (ap_cfg (pr_app P)) = Some (Inr (SQLiteStore, s)) \<and> new_sqlite s \<and>
     map cu_username (console_users (sv_store (pr_server P))) = [''admin'']"
proof -
  let ?s = "empty_db (\<lambda>_. False) (\<lambda>_. 0) (\<lambda>_. rowid_plan) (\<lambda>f t. f)"
  obtain cfg where cfg: "load id sample_env = Inr cfg" "AdminUsername cfg = ''admin''" "AdminPassword cfg = ''x''" "DBDriver cfg = ''sqlite''"
    using load_sample by auto
  have start: "open_store sample_machine cfg = Some (Inr (SQLiteStore, ?s))" "ma_lower sample_machine = id" "ma_lib sample_machine = sample_lib"
    using cfg by (simp_all add: open_store_def sample_machine_def NewSQLite_def sqlite_migrate_def sample_driver_def)
  obtain s1 where s1: "bootstrapAdmin SQLiteStore sample_lib cfg ?s = (Inr (), s1)" "map cu_username (console_users s1) = [''admin'']"
  proof -
    have "(case load id sample_env of
        Inl _ \<Rightarrow> False
      | Inr cfg \<Rightarrow> (case bootstrapAdmin SQLiteStore sample_lib cfg ?s of
          (res, d) \<Rightarrow> res = Inr () \<and> map cu_username (console_users d) = [''admin'']))"
      by code_simp
    then show ?thesis using that cfg(1) by (auto split: prod.splits)
  qed
  obtain geo w1 where g: "init_geoip sample_machine cfg (NewUpdater (GeoIPDBPath cfg)) w = (geo, w1)" by fastforce
  have "new_sqlite ?s" unfolding new_sqlite_def by blast
  then show ?thesis unfolding main_start_Running start(2,3) using cfg(1) start(1) s1 g by auto
qed

lemma process_refines_system_witness:
  "\<exists>P. main_start sample_machine sample_env (sample_world 200) = Running P \<and>
     map cu_username (console_users (sv_store (pr_server P))) = [''admin''] \<and>
     system_reachable SQLiteStore new_sqlite (pr_app P) (pr_server P)"
proof -
  obtain P s where P: "main_start sample_machine sample_env (sample_world 200) = Running P"
      "open_store sample_machine (ap_cfg (pr_app P)) = Some (Inr (SQLiteStore, s))" "new_sqlite s"
      "map cu_username (console_users (sv_store (pr_server P))) = [''admin'']"
    using sample_start [of "sample_world 200"] by (elim exE conjE) (rule that)
  from process_reachable.process_first [where created = new_sqlite, OF P(1,2,3)]
  have "system_reachable SQLiteStore new_sqlite (pr_app P) (pr_server P)" using process_refines_system by blast
  then show ?thesis using P(1,4) by (intro exI [of _ P] conjI)
qed

end
