(* ===== verification/Totp_Race.thy ===== *)
theory Totp_Race
  imports Auth_Handler
begin

text \<open>
  The limiter of one-time codes under concurrent logins (\<open>internal/handler/auth.go\<close>).  \<open>Login\<close> asks
  \<open>checkTOTPLimit\<close>, checks the code, and tells \<open>recordTOTPFailure\<close>; each of the two takes the mutex for
  itself.  The requests that have passed the password are threads, the steps of the threads interleave.
\<close>

datatype phase = Arrived | Admitted | Refused | Told_wrong | Let_in

text \<open>Each thread has the login name it was given; \<open>ra_now\<close> is the last reading of the clock.\<close>

record race =
  ra_att :: trackers
  ra_now :: instant
  ra_threads :: "(string \<times> phase) list"

inductive race_step :: "race \<Rightarrow> race \<Rightarrow> bool" where
  arrive: "race_step S (S\<lparr>ra_threads := ra_threads S @ [(k, Arrived)]\<rparr>)"
| admit: "i < length (ra_threads S) \<Longrightarrow> ra_threads S ! i = (k, Arrived) \<Longrightarrow> ra_now S \<le> t \<Longrightarrow>
     checkTOTPLimit (ra_att S) t k \<Longrightarrow>
     race_step S (S\<lparr>ra_now := t, ra_threads := (ra_threads S)[i := (k, Admitted)]\<rparr>)"
| refuse: "i < length (ra_threads S) \<Longrightarrow> ra_threads S ! i = (k, Arrived) \<Longrightarrow> ra_now S \<le> t \<Longrightarrow>
     \<not> checkTOTPLimit (ra_att S) t k \<Longrightarrow>
     race_step S (S\<lparr>ra_now := t, ra_threads := (ra_threads S)[i := (k, Refused)]\<rparr>)"
| wrong_code: "i < length (ra_threads S) \<Longrightarrow> ra_threads S ! i = (k, Admitted) \<Longrightarrow> ra_now S \<le> t \<Longrightarrow> t \<le> t' \<Longrightarrow>
     race_step S (S\<lparr>ra_now := t', ra_att := recordTOTPFailure (ra_att S) t t' k,
       ra_threads := (ra_threads S)[i := (k, Told_wrong)]\<rparr>)"
| right_code: "i < length (ra_threads S) \<Longrightarrow> ra_threads S ! i = (k, Admitted) \<Longrightarrow>
     race_step S (S\<lparr>ra_threads := (ra_threads S)[i := (k, Let_in)]\<rparr>)"

definition threads_in :: "phase \<Rightarrow> string \<Rightarrow> race \<Rightarrow> nat" where
  "threads_in p k S = length (filter ((=) (k, p)) (ra_threads S))"

text \<open>Runs from an empty map in which at most \<open>m\<close> threads for the name \<open>k\<close> are ever between the two calls.\<close>

inductive race_run :: "string \<Rightarrow> nat \<Rightarrow> instant \<Rightarrow> race \<Rightarrow> bool" for k m t0 where
  race_start: "race_run k m t0 \<lparr>ra_att = (\<lambda>_. None), ra_now = t0, ra_threads = []\<rparr>"
| race_next: "race_run k m t0 S \<Longrightarrow> race_step S S' \<Longrightarrow> threads_in Admitted k S' \<le> m \<Longrightarrow> race_run k m t0 S'"

subsection \<open>Counting threads\<close>

lemma filter_update_length:
  "i < length xs \<Longrightarrow> length (filter P (xs[i := y])) + of_bool (P (xs ! i)) = length (filter P xs) + of_bool (P y)"
proof (induction xs arbitrary: i)
  case (Cons x xs)
  then show ?case by (cases i) auto
qed simp

lemma threads_in_move:
  assumes "i < length (ra_threads S)" and "ra_threads S ! i = (k', q)" and "ra_threads S' = (ra_threads S)[i := (k', r)]"
  shows "threads_in p k S' + of_bool (k = k' \<and> p = q) = threads_in p k S + of_bool (k = k' \<and> p = r)"
  using filter_update_length [OF assms(1), of "(=) (k, p)" "(k', r)"] assms(2,3)
  by (simp add: threads_in_def)

lemma threads_in_simps [simp]:
  "threads_in p k (S\<lparr>ra_now := t\<rparr>) = threads_in p k S" "threads_in p k (S\<lparr>ra_att := a\<rparr>) = threads_in p k S"
  by (simp_all add: threads_in_def)

lemma race_step_time: "race_step S S' \<Longrightarrow> ra_now S \<le> ra_now S'"
  by (induction rule: race_step.induct) auto

subsection \<open>How many codes can be tried\<close>

text \<open>
  As \<open>guesses_left\<close> for requests in sequence, with \<open>c\<close> guesses per window.
\<close>

definition budget :: "int \<Rightarrow> instant \<Rightarrow> totpTracker option \<Rightarrow> instant \<Rightarrow> int" where
  "budget c T tr now =
     (case tr of
        None \<Rightarrow> c * windows_left T now
      | Some t \<Rightarrow>
          if now > tt_resetAt t then c * windows_left T now
          else max 0 (c - tt_failures t) + (if T > tt_resetAt t then c * windows_left T (tt_resetAt t) else 0))"

lemma budget_mono:
  assumes "0 \<le> c" and "now \<le> now'" and "now' \<le> T"
  shows "budget c T tr now' \<le> budget c T tr now"
proof -
  have w: "c * windows_left T b \<le> c * windows_left T a" if "a \<le> b" for a b
    using windows_left_mono [OF that] assms(1) by (simp add: mult_left_mono)
  show ?thesis
  proof (cases tr)
    case None
    then show ?thesis using w [OF assms(2)] by (simp add: budget_def)
  next
    case (Some t)
    show ?thesis
      using w [OF assms(2)] w [of "tt_resetAt t" now'] assms(2,3) Some by (simp add: budget_def) linarith
  qed
qed

lemma budget_nonneg:
  assumes "0 \<le> c" and "now \<le> T"
  shows "0 \<le> budget c T tr now"
proof -
  have w: "0 \<le> c * windows_left T a" if "a \<le> T" for a
    using windows_left_pos [OF that] assms(1) by simp
  show ?thesis
    using w [OF assms(2)] w by (auto simp: budget_def split: option.split)
qed

lemma budget_opens:
  assumes "1 \<le> c" and "now \<le> now'" and "now' \<le> T" and "budget c T tr now = c * windows_left T now"
  shows "budget c T (Some \<lparr>tt_failures = 1, tt_resetAt = now' + totp_window\<rparr>) now' + 1 \<le> budget c T tr now"
proof -
  have "1 \<le> windows_left T now'" "windows_left T now' \<le> windows_left T now"
    using windows_left_pos [OF assms(3)] windows_left_mono [OF assms(2)] by simp_all
  then have "c * (windows_left T now' - 1) + c \<le> c * windows_left T now" "0 \<le> c * (windows_left T now' - 1)"
    using assms(1) by (simp_all add: algebra_simps mult_left_mono)
  moreover have "budget c T (Some \<lparr>tt_failures = 1, tt_resetAt = now' + totp_window\<rparr>) now' \<le>
      c - 1 + c * (windows_left T now' - 1)"
    using assms(1) totp_window_pos calculation(2) by (simp add: budget_def windows_left_next)
  ultimately show ?thesis unfolding assms(4) by linarith
qed

lemma record_cases:
  obtains (opens) "recordTOTPFailure att c1 c2 k k = Some \<lparr>tt_failures = 1, tt_resetAt = c2 + totp_window\<rparr>"
      "\<And>c T. budget c T (att k) c1 = c * windows_left T c1"
  | (counts) t where "att k = Some t" "c1 \<le> tt_resetAt t"
      "recordTOTPFailure att c1 c2 k k = Some (t\<lparr>tt_failures := tt_failures t + 1\<rparr>)"
proof (cases "\<exists>t. att k = Some t \<and> c1 \<le> tt_resetAt t")
  case True
  then show ?thesis using counts by (auto simp: recordTOTPFailure_def)
next
  case False
  then show ?thesis
    by (intro opens) (auto simp: recordTOTPFailure_def totp_window_def budget_def split: option.split)
qed

subsection \<open>The bound\<close>

text \<open>In a running window, past four failures every thread still in flight is one the limit has admitted before.\<close>

definition race_ok :: "string \<Rightarrow> nat \<Rightarrow> race \<Rightarrow> bool" where
  "race_ok k m S \<longleftrightarrow> threads_in Admitted k S \<le> m \<and>
     (\<forall>t. ra_att S k = Some t \<longrightarrow> ra_now S \<le> tt_resetAt t \<longrightarrow>
        tt_failures t \<le> 4 \<or> tt_failures t + int (threads_in Admitted k S) \<le> 4 + int m)"

lemma race_ok_less:
  assumes "race_ok k m S" and "ra_att S' k = ra_att S k" and "ra_now S \<le> ra_now S'"
    and "threads_in Admitted k S' \<le> threads_in Admitted k S"
  shows "race_ok k m S'"
  using assms unfolding race_ok_def by (smt (verit) of_nat_mono order.trans)

lemma race_wrong_code:
  assumes ok: "race_ok k m S" and g: "0 < threads_in Admitted k S" and t: "ra_now S \<le> c1" "c1 \<le> c2" "c2 \<le> T"
    and S': "ra_att S' = recordTOTPFailure (ra_att S) c1 c2 k" "ra_now S' = c2"
      "threads_in Admitted k S' = threads_in Admitted k S - 1"
  shows "race_ok k m S' \<and>
    budget (4 + int m) T (ra_att S' k) (ra_now S') + 1 \<le> budget (4 + int m) T (ra_att S k) (ra_now S)"
proof -
  let ?c = "4 + int m"
  have m: "1 \<le> m" using ok g by (simp add: race_ok_def)
  have c: "1 \<le> ?c" "0 \<le> ?c" by simp_all
  have b1: "budget ?c T (ra_att S k) c1 \<le> budget ?c T (ra_att S k) (ra_now S)"
    using budget_mono [OF c(2) t(1)] t(2,3) by simp
  show ?thesis
  proof (cases rule: record_cases [of "ra_att S" c1 c2 k])
    case opens
    have "threads_in Admitted k S' \<le> m" using ok S'(3) by (auto simp: race_ok_def)
    then have "race_ok k m S'" using S' opens(1) by (simp add: race_ok_def)
    then show ?thesis using budget_opens [OF c(1) t(2,3) opens(2)] b1 S' opens(1) by simp
  next
    case (counts u)
    have f: "tt_failures u \<le> 4 \<or> tt_failures u + int (threads_in Admitted k S) \<le> 4 + int m"
      using ok counts(1,2) t(1) by (simp add: race_ok_def)
    then have less: "tt_failures u < ?c" using g m by linarith
    have "race_ok k m S'"
      using ok S' counts(1,3) f g by (auto simp: race_ok_def of_nat_diff)
    moreover have "budget ?c T (Some (u\<lparr>tt_failures := tt_failures u + 1\<rparr>)) c1 + 1 = budget ?c T (Some u) c1"
      using counts(2) less by (simp add: budget_def)
    ultimately show ?thesis
      using budget_mono [OF c(2) t(2,3), of "Some (u\<lparr>tt_failures := tt_failures u + 1\<rparr>)"] b1 S' counts(1,3) by simp
  qed
qed

lemma race_invariant:
  assumes "race_run k m t0 S" and "1 \<le> m" and "ra_now S \<le> T"
  shows "race_ok k m S \<and> t0 \<le> ra_now S \<and>
    int (threads_in Told_wrong k S) + budget (4 + int m) T (ra_att S k) (ra_now S) \<le> (4 + int m) * windows_left T t0"
  using assms(1,3)
proof (induction rule: race_run.induct)
  case race_start
  then show ?case by (simp add: race_ok_def threads_in_def budget_def)
next
  case (race_next S S')
  have now: "ra_now S \<le> ra_now S'" by (rule race_step_time [OF race_next.hyps(2)])
  then have ih: "race_ok k m S" "t0 \<le> ra_now S"
    "int (threads_in Told_wrong k S) + budget (4 + int m) T (ra_att S k) (ra_now S) \<le> (4 + int m) * windows_left T t0"
    using race_next.IH race_next.prems by simp_all
  have keeps: "race_ok k m S' \<and> budget (4 + int m) T (ra_att S' k) (ra_now S') \<le> budget (4 + int m) T (ra_att S k) (ra_now S)"
    if "ra_att S' k = ra_att S k" "threads_in Admitted k S' \<le> threads_in Admitted k S"
    using race_ok_less [OF ih(1) that(1) now that(2)] budget_mono [OF _ now race_next.prems] that(1) by simp
  have "race_ok k m S' \<and> int (threads_in Told_wrong k S') + budget (4 + int m) T (ra_att S' k) (ra_now S') \<le>
      int (threads_in Told_wrong k S) + budget (4 + int m) T (ra_att S k) (ra_now S)"
    using race_next.hyps(2)
  proof (cases rule: race_step.cases)
    case (arrive k')
    have "threads_in p k S' = threads_in p k S" if "p \<noteq> Arrived" for p
      using that by (simp add: arrive threads_in_def)
    then show ?thesis using keeps arrive by simp
  next
    case (admit i k' t)
    have told: "threads_in Told_wrong k S' = threads_in Told_wrong k S"
      using threads_in_move [OF admit(2,3), of S' Admitted Told_wrong k] by (simp add: admit(1))
    have b: "budget (4 + int m) T (ra_att S' k) (ra_now S') \<le> budget (4 + int m) T (ra_att S k) (ra_now S)"
      using budget_mono [OF _ now race_next.prems] by (simp add: admit(1))
    have "race_ok k m S'"
    proof (cases "k' = k")
      case True
      have "\<forall>u. ra_att S' k = Some u \<longrightarrow> ra_now S' \<le> tt_resetAt u \<longrightarrow> tt_failures u \<le> 4"
        using admit(5) True by (auto simp: admit(1) checkTOTPLimit_def split: if_splits)
      then show ?thesis using race_next.hyps(3) by (auto simp: race_ok_def)
    next
      case False
      have "threads_in Admitted k S' = threads_in Admitted k S"
        using threads_in_move [OF admit(2,3), of S' Admitted Admitted k] False by (simp add: admit(1))
      then show ?thesis using keeps by (simp add: admit(1))
    qed
    then show ?thesis using told b by simp
  next
    case (refuse i k' t)
    have "threads_in p k S' = threads_in p k S" if "p \<in> {Admitted, Told_wrong}" for p
      using threads_in_move [OF refuse(2,3), of S' Refused p k] that by (auto simp: refuse(1))
    then show ?thesis using keeps by (simp add: refuse(1))
  next
    case (wrong_code i k' t t')
    show ?thesis
    proof (cases "k' = k")
      case True
      have "threads_in Admitted k S' + 1 = threads_in Admitted k S" "threads_in Told_wrong k S' = threads_in Told_wrong k S + 1"
        using threads_in_move [OF wrong_code(2,3), of S' Told_wrong Admitted k]
          threads_in_move [OF wrong_code(2,3), of S' Told_wrong Told_wrong k] True by (simp_all add: wrong_code(1))
      moreover from this have "race_ok k m S' \<and>
          budget (4 + int m) T (ra_att S' k) (ra_now S') + 1 \<le> budget (4 + int m) T (ra_att S k) (ra_now S)"
        using True race_next.prems by (intro race_wrong_code [OF ih(1) _ wrong_code(4,5)]) (simp_all add: wrong_code(1))
      ultimately show ?thesis by simp
    next
      case False
      have "threads_in p k S' = threads_in p k S" for p
        using threads_in_move [OF wrong_code(2,3), of S' Told_wrong p k] False by (simp add: wrong_code(1))
      moreover have "ra_att S' k = ra_att S k" using False by (simp add: wrong_code(1) record_other)
      ultimately show ?thesis using keeps by simp
    qed
  next
    case (right_code i k')
    have "threads_in Told_wrong k S' = threads_in Told_wrong k S" "threads_in Admitted k S' \<le> threads_in Admitted k S"
      using threads_in_move [OF right_code(2,3), of S' Let_in Told_wrong k]
        threads_in_move [OF right_code(2,3), of S' Let_in Admitted k] by (simp_all add: right_code(1))
    then show ?thesis using keeps by (simp add: right_code(1))
  qed
  then show ?case using ih(2,3) now by linarith
qed

text \<open>
  C23. With at most \<open>m\<close> requests for a login name between the check of the limiter and the record of the
  failure, however their steps interleave, at most \<open>4 + m\<close> wrong codes are tried for each started window
  of five minutes: five for requests one after the other, one more for each further one in flight.
\<close>

theorem totp_race_bound:
  assumes "race_run k m t0 S" and "1 \<le> m" and "ra_now S \<le> T"
  shows "int (threads_in Told_wrong k S) \<le> (4 + int m) * ((T - t0) div (5 * 60 * second) + 1)"
  using race_invariant [OF assms] budget_nonneg [OF _ assms(3), of "4 + int m" "ra_att S k"]
  by (simp add: windows_left_def totp_window_def)

lemma totp_race_bound_witness:
  "\<exists>S. race_run ''ann'' 1 0 S \<and> threads_in Told_wrong ''ann'' S = 1 \<and>
     int (threads_in Told_wrong ''ann'' S) \<le> (4 + int 1) * ((0 - 0) div (5 * 60 * second) + 1)"
proof -
  let ?S0 = "\<lparr>ra_att = (\<lambda>_. None), ra_now = 0, ra_threads = []\<rparr>"
  let ?S1 = "?S0\<lparr>ra_threads := [(''ann'', Arrived)]\<rparr>" and ?S2 = "?S0\<lparr>ra_threads := [(''ann'', Admitted)]\<rparr>"
  let ?S3 = "?S0\<lparr>ra_att := recordTOTPFailure (\<lambda>_. None) 0 0 ''ann'', ra_threads := [(''ann'', Told_wrong)]\<rparr>"
  have "race_run ''ann'' 1 0 ?S1"
    using race_next [OF race_start arrive, of "''ann''" 0 "''ann''" 1] by (simp add: threads_in_def)
  moreover have "race_step ?S1 ?S2" using admit [of 0 ?S1 "''ann''" 0] by (simp add: checkTOTPLimit_def)
  ultimately have "race_run ''ann'' 1 0 ?S2" by (rule race_next) (simp add: threads_in_def)
  moreover have "race_step ?S2 ?S3" using wrong_code [of 0 ?S2 "''ann''" 0 0] by simp
  ultimately have "race_run ''ann'' 1 0 ?S3" by (rule race_next) (simp add: threads_in_def)
  with totp_race_bound [OF this, of 0] show ?thesis by (intro exI [of _ ?S3]) (simp add: threads_in_def)
qed

subsection \<open>The bound is attained\<close>

definition guessing :: "string \<Rightarrow> instant \<Rightarrow> nat \<Rightarrow> nat \<Rightarrow> race" where
  "guessing k t0 j g =
     \<lparr>ra_att = (if j = 0 then (\<lambda>_. None) else [k \<mapsto> \<lparr>tt_failures = int j, tt_resetAt = t0 + totp_window\<rparr>]),
      ra_now = t0, ra_threads = replicate j (k, Told_wrong) @ replicate g (k, Admitted)\<rparr>"

lemma guessing_threads [simp]:
  "threads_in Admitted k (guessing k t0 j g) = g" "threads_in Told_wrong k (guessing k t0 j g) = j"
  by (simp_all add: threads_in_def guessing_def)

lemma race_run_flight: "race_run k m t0 S \<Longrightarrow> threads_in Admitted k S \<le> m"
  by (induction rule: race_run.induct) (simp_all add: threads_in_def)

lemma guessing_admit:
  assumes "race_run k m t0 (guessing k t0 j g)" and "j \<le> 4" and "g < m"
  shows "race_run k m t0 (guessing k t0 j (Suc g))"
proof -
  let ?S = "guessing k t0 j g"
  let ?A = "?S\<lparr>ra_threads := ra_threads ?S @ [(k, Arrived)]\<rparr>"
  have "threads_in Admitted k ?A = g" by (simp add: threads_in_def guessing_def)
  then have A: "race_run k m t0 ?A" using race_next [OF assms(1) arrive] assms(3) by simp
  have i: "j + g < length (ra_threads ?A)" "ra_threads ?A ! (j + g) = (k, Arrived)"
    by (simp_all add: guessing_def nth_append)
  have "checkTOTPLimit (ra_att ?A) t0 k" using assms(2) by (simp add: guessing_def checkTOTPLimit_def totp_window_def)
  from admit [OF i _ this] have
    "race_step ?A (?A\<lparr>ra_now := t0, ra_threads := (ra_threads ?A)[j + g := (k, Admitted)]\<rparr>)"
    by (simp add: guessing_def)
  moreover have "?A\<lparr>ra_now := t0, ra_threads := (ra_threads ?A)[j + g := (k, Admitted)]\<rparr> = guessing k t0 j (Suc g)"
    by (simp add: guessing_def list_update_append replicate_append_same)
  ultimately show ?thesis using race_next [OF A] assms(3) by simp
qed

lemma guessing_wrong:
  assumes "race_run k m t0 (guessing k t0 j (Suc g))"
  shows "race_run k m t0 (guessing k t0 (Suc j) g)"
proof -
  let ?S = "guessing k t0 j (Suc g)"
  have i: "j < length (ra_threads ?S)" "ra_threads ?S ! j = (k, Admitted)"
    by (simp_all add: guessing_def nth_append)
  have now: "ra_now ?S \<le> t0" by (simp add: guessing_def)
  have w: "0 \<le> totp_window" using totp_window_pos by simp
  have th: "(ra_threads ?S)[j := (k, Told_wrong)] = replicate (Suc j) (k, Told_wrong) @ replicate g (k, Admitted)"
    by (simp add: guessing_def list_update_append replicate_app_Cons_same)
  have "?S\<lparr>ra_now := t0, ra_att := recordTOTPFailure (ra_att ?S) t0 t0 k,
       ra_threads := (ra_threads ?S)[j := (k, Told_wrong)]\<rparr> = guessing k t0 (Suc j) g"
    unfolding th using w by (auto simp: guessing_def recordTOTPFailure_def totp_window_def)
  then have "race_step ?S (guessing k t0 (Suc j) g)" using wrong_code [OF i now order.refl] by metis
  moreover have "g \<le> m" using race_run_flight [OF assms] by simp
  ultimately show ?thesis using race_next [OF assms] by simp
qed

text \<open>
  C24. The mutex is not held over the check of the code, and the bound is attained: for every \<open>m\<close>, \<open>m\<close>
  concurrent requests after four failed ones have \<open>4 + m\<close> codes tried in an instant, where the limiter is
  meant to stop at five.
\<close>

theorem totp_race_attained:
  assumes "1 \<le> m"
  shows "\<exists>S. race_run k m t0 S \<and> ra_now S = t0 \<and> threads_in Told_wrong k S = 4 + m"
proof -
  have four: "j \<le> 4 \<Longrightarrow> race_run k m t0 (guessing k t0 j 0)" for j
  proof (induction j)
    case 0
    then show ?case using race_start [of k m t0] by (simp add: guessing_def)
  next
    case (Suc j)
    then have "race_run k m t0 (guessing k t0 j (Suc 0))" by (intro guessing_admit) (use assms in simp_all)
    then show ?case by (rule guessing_wrong)
  qed
  have admitted: "g \<le> m \<Longrightarrow> race_run k m t0 (guessing k t0 4 g)" for g
    by (induction g) (use four [of 4] in \<open>auto intro: guessing_admit\<close>)
  have told: "i \<le> m \<Longrightarrow> race_run k m t0 (guessing k t0 (4 + i) (m - i))" for i
  proof (induction i)
    case 0
    then show ?case using admitted [of m] by simp
  next
    case (Suc i)
    then have "race_run k m t0 (guessing k t0 (4 + i) (Suc (m - Suc i)))" by (simp add: Suc_diff_Suc)
    from guessing_wrong [OF this] show ?case by simp
  qed
  have "race_run k m t0 (guessing k t0 (4 + m) 0)" using told [of m] by simp
  then show ?thesis
    by (intro exI [of _ "guessing k t0 (4 + m) 0"]) (simp add: guessing_def threads_in_def)
qed

lemma totp_race_attained_witness:
  "\<exists>S. race_run ''ann'' 100 0 S \<and> ra_now S = 0 \<and> threads_in Told_wrong ''ann'' S = 104"
  using totp_race_attained [of 100 "''ann''" 0] by simp

end
