(* ===== verification/Interleaving.thy ===== *)
theory Interleaving
  imports Users_Handler
begin

text \<open>
  Two requests on one account at once.  The handlers that change an account read its row, change the record
  and write every column back, as two statements.  The methods of a store are arguments of the handlers, so the
  handler itself can run with other requests served in between: \<open>served_between f st\<close> is the store \<open>st\<close> whose
  lookup of an account by id is followed, before the handler goes on, by what \<open>f\<close> does to the state.
\<close>

definition served_between :: "('s \<Rightarrow> 's) \<Rightarrow> 's Store \<Rightarrow> 's Store" where
  "served_between f st =
     st\<lparr>GetConsoleUserByID := \<lambda>i s. case GetConsoleUserByID st i s of (r, s1) \<Rightarrow> (r, f s1)\<rparr>"

lemma served_between_ops [simp]:
  "GetConsoleUserByID (served_between f st) i s = (case GetConsoleUserByID st i s of (r, s1) \<Rightarrow> (r, f s1))"
  "UpdateConsoleUser (served_between f st) = UpdateConsoleUser st"
  by (simp_all add: served_between_def)

lemma served_between_nothing: "served_between id st = st"
  by (simp add: served_between_def)

context console_store
begin

lemma interleaved_password_change:
  assumes "ChangePassword h rt r w s = (w', s')" and "ah_store h = served_between f st" and "wf s" and "fresh w"
    and "succeeded w'" and f: "\<And>s. wf s \<Longrightarrow> wf (f s)"
  obtains cl req u s1 hash where "rq_claims r = Some cl" "decodeJSON rt decode_password_change r = Some req"
    "GetConsoleUserByID st (cl_user_id cl) s = (Inr u, s1)" "users_of s (cl_user_id cl) = Some u"
    "HashPassword (ah_lib h) (pcr_new_password req) = Some hash"
    "users_of s' = (case users_of (f s1) (cl_user_id cl) of
        None \<Rightarrow> users_of (f s1)
      | Some v \<Rightarrow> (users_of (f s1))(cl_user_id cl \<mapsto> u\<lparr>cu_password_hash := hash, cu_created_at := cu_created_at v\<rparr>))"
proof -
  obtain req where req: "decodeJSON rt decode_password_change r = Some req"
    using assms(1,4,5) by (cases "decodeJSON rt decode_password_change r") (auto simp: ChangePassword_def fresh_replies)
  obtain cl where cl: "rq_claims r = Some cl"
    using assms(1,4,5) req by (cases "rq_claims r") (auto simp: ChangePassword_def GetClaims_def fresh_replies split: if_splits)
  obtain q s1 where g: "GetConsoleUserByID st (cl_user_id cl) s = (q, s1)" by fastforce
  obtain u where u: "q = Inr u"
    using assms(1,2,4,5) req cl g by (cases q) (auto simp: ChangePassword_def GetClaims_def fresh_replies split: if_splits)
  obtain hash where hash: "HashPassword (ah_lib h) (pcr_new_password req) = Some hash"
    using assms(1,2,4,5) req cl g u
    by (cases "HashPassword (ah_lib h) (pcr_new_password req)")
      (auto simp: ChangePassword_def GetClaims_def fresh_replies split: if_splits)
  have wf1: "wf (f s1)" using f get_user_wf [OF g assms(3)] by blast
  have found: "users_of s (cl_user_id cl) = Some u" using get_user_found [OF g [unfolded u] assms(3)] .
  have up: "UpdateConsoleUser st (u\<lparr>cu_password_hash := hash\<rparr>) (f s1) = (Inr (), s')"
    using assms(1,2,4,5) req cl g u hash
    by (auto simp: ChangePassword_def GetClaims_def fresh_replies split: if_splits prod.splits sum.splits)
  show thesis
    using update_user_ok [OF up wf1] users_of_id [OF assms(3) found]
    by (intro that [OF cl req g [unfolded u] found hash]) (simp split: option.split)
qed

end

text \<open>
  C25. While \<open>ChangePassword\<close> runs, whatever other requests do to the account between its read and its write is
  lost: when it answers 200, the account has the role, the second factor and the names it had when it was read,
  with the new password, and every other account is as those requests left it.  If the account
  was deleted meanwhile, it answers 200 all the same and changes nothing.
\<close>

theorem password_change_overwrites:
  assumes "ChangePassword h rt r w d = (w', d')" and "ah_store h = served_between f SQLiteStore" and "db_ok d" and "fresh w"
    and "succeeded w'" and "\<And>d. db_ok d \<Longrightarrow> db_ok (f d)" and "rq_claims r = Some cl"
    and "d1 = snd (GetConsoleUserByID SQLiteStore (cl_user_id cl) d)"
  shows "\<exists>u. users_of d (cl_user_id cl) = Some u \<and> users_of d1 = users_of d \<and>
    (case users_of (f d1) (cl_user_id cl) of
       None \<Rightarrow> users_of d' = users_of (f d1)
     | Some v \<Rightarrow> \<exists>hash. users_of d' = (users_of (f d1))(cl_user_id cl \<mapsto>
         u\<lparr>cu_password_hash := hash, cu_created_at := cu_created_at v\<rparr>))"
proof -
  obtain u s1 hash where g: "GetConsoleUserByID SQLiteStore (cl_user_id cl) d = (Inr u, s1)"
      and u: "users_of d (cl_user_id cl) = Some u"
      and d': "users_of d' = (case users_of (f s1) (cl_user_id cl) of
        None \<Rightarrow> users_of (f s1)
      | Some v \<Rightarrow> (users_of (f s1))(cl_user_id cl \<mapsto> u\<lparr>cu_password_hash := hash, cu_created_at := cu_created_at v\<rparr>))"
    using assms(1-6) by (rule sqlite_console.interleaved_password_change) (use assms(7) in auto)
  then show ?thesis using sqlite_console.get_user_view [OF g] assms(8) by (auto split: option.split)
qed

text \<open>Account 2 is an administrator; account 1 makes it a viewer while account 2 changes its password.\<close>

definition two_admins :: db where
  "two_admins = sample_db\<lparr>console_users := map (\<lambda>u. u\<lparr>cu_role := ''admin''\<rparr>) (console_users sample_db)\<rparr>"

definition demote_two :: "db \<Rightarrow> writer \<times> db" where
  "demote_two d = Users_Update \<lparr>uh_store = SQLiteStore, uh_lib = sample_lib\<rparr>
     (sample_runtime (TObject [(''role'', TString ''viewer'')]))
     ((sample_request '''' '''')\<lparr>rq_path_values := [(''id'', ''2'')],
        rq_claims := Some \<lparr>cl_user_id = 1, cl_username = ''ann'', cl_role = ''admin''\<rparr>\<rparr>) new_writer d"

definition change_of_two :: "(db \<Rightarrow> db) \<Rightarrow> writer \<times> db" where
  "change_of_two f = ChangePassword \<lparr>ah_store = served_between f SQLiteStore, ah_svc = NewService ''k'', ah_lib = sample_lib\<rparr>
     (sample_runtime (TObject [(''current_password'', TString ''2''), (''new_password'', TString ''12345678'')]))
     ((sample_request '''' '''')\<lparr>rq_claims := Some \<lparr>cl_user_id = 2, cl_username = ''bob'', cl_role = ''admin''\<rparr>\<rparr>)
     new_writer two_admins"

lemma demotion_samples:
  "status (fst (demote_two two_admins)) = 200" "map cu_role (console_users (snd (demote_two two_admins))) = [''admin'', ''viewer'']"
  "status (fst (change_of_two (\<lambda>d. snd (demote_two d)))) = 200" "\<not> w_aborted (fst (change_of_two (\<lambda>d. snd (demote_two d))))"
  by code_simp+

lemma password_change_overwrites_witness:
  "let d = two_admins; (w', d') = change_of_two (\<lambda>d. snd (demote_two d))
   in status (fst (demote_two d)) = 200 \<and> status w' = 200 \<and>
     map_option cu_role (users_of (snd (demote_two d)) 2) = Some ''viewer'' \<and> map_option cu_role (users_of d' 2) = Some ''admin''"
proof -
  let ?f = "\<lambda>d. snd (demote_two d)" and ?d1 = "snd (GetConsoleUserByID SQLiteStore 2 two_admins)"
    and ?cl = "\<lparr>cl_user_id = 2, cl_username = ''bob'', cl_role = ''admin''\<rparr>" and ?run = "change_of_two (\<lambda>d. snd (demote_two d))"
  have ok: "db_ok two_admins" by code_simp
  have f: "db_ok (?f d)" if "db_ok d" for d
    using sqlite_console.Users_Update_effect [where w = new_writer, OF surjective_pairing _ that] by (simp add: demote_two_def)
  have run: "ChangePassword \<lparr>ah_store = served_between ?f SQLiteStore, ah_svc = NewService ''k'', ah_lib = sample_lib\<rparr>
     (sample_runtime (TObject [(''current_password'', TString ''2''), (''new_password'', TString ''12345678'')]))
     ((sample_request '''' '''')\<lparr>rq_claims := Some \<lparr>cl_user_id = 2, cl_username = ''bob'', cl_role = ''admin''\<rparr>\<rparr>)
     new_writer two_admins = (fst ?run, snd ?run)"
    by (simp add: change_of_two_def)
  have "succeeded (fst ?run)" using demotion_samples(3,4) by (simp add: succeeded_def)
  then obtain u where u: "users_of two_admins 2 = Some u"
    "case users_of (?f ?d1) 2 of None \<Rightarrow> users_of (snd ?run) = users_of (?f ?d1)
     | Some v \<Rightarrow> \<exists>hash. users_of (snd ?run) = (users_of (?f ?d1))(cl_user_id ?cl \<mapsto> u\<lparr>cu_password_hash := hash, cu_created_at := cu_created_at v\<rparr>)"
    using password_change_overwrites [OF run, where f = ?f and cl = ?cl and ?d1.0 = ?d1] ok f by auto
  have "map_option cu_role (users_of two_admins 2) = Some ''admin''"
    "map_option cu_role (users_of (?f two_admins) 2) = Some ''viewer''"
    "map_option cu_role (users_of (?f ?d1) 2) = Some ''viewer''" by code_simp+
  then show ?thesis using u demotion_samples(1,3) by (auto simp: Let_def split: prod.split)
qed

end
