(* ===== verification/Spec2Isabelle.thy ===== *)
theory Spec2Isabelle
  imports Postgres_System Program Totp_Race Interleaving Token_Admin Sqlite_Props
begin

text \<open>
  A verification development for Oximetric, a self-hosted analytics server written in Go
  (\<open>src/cmd/oximetric\<close>, \<open>src/internal\<close>).  Clients send events to a tracking API authenticated by project
  tokens; a console shows analytics to users with roles; data lives in SQLite or Postgres behind the
  interface \<open>storage.Store\<close>.

  \<^bold>\<open>Parts and theories.\<close>
  \<^item> \<open>Prelude\<close>, \<open>Go_Strings\<close>, \<open>Float64\<close>, \<open>Json\<close>, \<open>Go_Url\<close>, \<open>Http\<close>: the vocabulary.  Results of fallible
    functions are sums; strings are byte lists; \<open>float64\<close> is rational arithmetic with rounding to nearest
    even; \<open>Json\<close> is the decoding of a JSON tree into the request structs; \<open>Go_Url\<close> is \<open>net/url.Parse\<close> as
    far as origins need it; \<open>Http\<close> has requests, the response writer and the type of handlers.
  \<^item> \<open>Model\<close>: the structs of \<open>internal/model/model.go\<close>, one record each.
  \<^item> \<open>Config\<close>: \<open>Load\<close> and \<open>validate\<close> of \<open>internal/config/config.go\<close>.
  \<^item> \<open>Origins\<close>: allowed origins of a token, from the request (\<open>normalizeOrigins\<close> of
    \<open>internal/handler/handler.go\<close>) over their encoding in a row (\<open>internal/storage/sqlite.go\<close>) to the
    match of a request (\<open>matchOrigin\<close> of \<open>internal/middleware/middleware.go\<close>).
  \<^item> \<open>Database\<close>, \<open>Store\<close>, \<open>Sqlite_Store\<close>: the tables with the constraints of the migration, the interface
    as a record of methods, and every method of \<open>SQLiteStore\<close>, one function per SQL statement.
    \<open>Sqlite_Ok\<close>, \<open>Sqlite_Events\<close>, \<open>Sqlite_Reach\<close>, \<open>Sqlite_Props\<close>: the schema invariant \<open>db_ok\<close> and its
    preservation, the contracts of the interface, reachable databases, and what the methods do.
  \<^item> \<open>Middleware\<close>, \<open>Rate_Limit\<close>: token authentication, CORS, JWT and role checks, security headers, body
    limit and logging of \<open>internal/middleware\<close>, and the token bucket.
  \<^item> \<open>Geoip\<close>: \<open>Lookup\<close> of \<open>internal/geoip/resolver.go\<close>.
  \<^item> \<open>Calendar\<close>, \<open>Os_World\<close>, \<open>Geoip_Updater\<close>: years, months and \<open>AddDate\<close> of the package \<open>time\<close>; files, requests,
    clock and faults outside the process; and the monthly download of \<open>internal/geoip/updater.go\<close>.
  \<^item> \<open>Tracking\<close>: the endpoints of \<open>internal/handler/tracking.go\<close>.
  \<^item> \<open>Auth_Service\<close>, \<open>Auth_Handler\<close>: session tokens, passwords and one-time codes of \<open>internal/auth/auth.go\<close>;
    login with its limiter, password change and two-factor set-up of \<open>internal/handler/auth.go\<close>.
    \<open>Totp_Race\<close>: the limiter under concurrent logins, each of its two critical sections one step.
    \<open>Interleaving\<close>: a password change with other requests served between its read and its write.
    \<open>Sqlite_Users\<close>: the store's methods on accounts fulfil their contract.
  \<^item> \<open>Users_Handler\<close>, \<open>Projects_Handler\<close>, \<open>Analytics_Handler\<close>: the other handlers of the console API.
    \<open>Token_Admin\<close>: what the administration of tokens does to them, and that \<open>TokenAuth\<close> heeds it.
  \<^item> \<open>Mux\<close>, \<open>Console_Handler\<close>, \<open>Server\<close>: patterns and precedence of \<open>http.ServeMux\<close>, the pages of the console,
    and \<open>server.New\<close>: every route with its middlewares over the state of the whole server.
  \<^item> \<open>Jobs\<close>: the administrator's bootstrap and a pass of the retention job of \<open>cmd/oximetric/main.go\<close>.
  \<^item> \<open>Frames\<close>, \<open>Accounts\<close>, \<open>Access\<close>, \<open>Server_Frame\<close>, \<open>System\<close>: the composition.  Which tables a handler can touch;
    the abstract machine of the accounts and the handlers' refinement of it; what a request can change
    through the server; that the server uses its store only through the store's methods; and the invariant
    over start, requests, retention passes and restarts.
  \<^item> \<open>Open_Store\<close>: \<open>NewSQLite\<close> and \<open>NewPostgres\<close> with their \<open>migrate\<close>, over a driver.
  \<^item> \<open>Program\<close>: the start of the process in \<open>main\<close> of \<open>cmd/oximetric/main.go\<close> (configuration, store, administrator,
    GeoIP, server), \<open>retentionCleanupLoop\<close> and \<open>geoipUpdateLoop\<close> over what their \<open>select\<close> hears, and the process
    as a machine that refines that of \<open>System\<close>.
  \<^item> \<open>Postgres_Store\<close>: every method of \<open>PostgresStore\<close> (\<open>internal/storage/postgres.go\<close>), on the same tables with
    the checks of bound parameters and the sequences behind \<open>SERIAL\<close> ids.  \<open>Postgres_Ok\<close>, \<open>Postgres_Reach\<close>,
    \<open>Postgres_Access\<close>, \<open>Postgres_System\<close>: its contracts, its reachable states, and the server and the system on it.

  \<^bold>\<open>Interfaces.\<close>  \<open>Store\<close> states what the clients of a store rely on as locales over abstract views of its
  state: \<open>event_store\<close> (events and properties), \<open>token_store\<close> (tokens), \<open>identity_store\<close> (users and device
  links), \<open>console_store\<close> (accounts); \<open>Token_Admin\<close> adds \<open>token_admin_store\<close> and their union \<open>token_control\<close>,
  \<open>Frames\<close> the locales of methods that keep a predicate.  The handlers' lemmas are proved inside these
  locales.  \<open>Access\<close> collects what the server needs of a store in \<open>backend\<close>, \<open>System\<close> adds the jobs
  (\<open>program_backend\<close>); \<open>closed_store\<close> and \<open>closed_program\<close> of \<open>Server_Frame\<close> say that every method keeps a
  predicate.  Each is interpreted on \<open>SQLiteStore\<close> and on \<open>PostgresStore\<close>.

  \<^bold>\<open>Parameters.\<close>  Code outside the repository is an argument: bcrypt, the JWT signature, the random source
  and the TOTP library (\<open>auth_lib\<close>); the lexical JSON reader, RFC 3339 parsing, the local time zone, the
  order in which a map is visited (\<open>runtime\<close>); row order, clock, driver failures and \<open>strftime\<close> of the
  database (\<open>db\<close>); which texts Postgres takes for text or a timestamp, and its collation (\<open>pg\<close>);
  \<open>html/template\<close>, the embedded files and the file server; the MaxMind reader and the decompressor; what the
  clock shows, servers answer and system calls do, operation by operation (\<open>outside\<close>); what a
  database driver does (\<open>sql_driver\<close>).  Nothing is assumed of them except by named hypotheses of single theorems.

  \<^bold>\<open>What the lemmas show.\<close>  Access: the tables change only as an admitting token or the role in a valid
  session token permits, and the accounts only as their abstract machine does; a disabled token is refused.
  State: the schema's constraints hold in every reachable database, stored events are immutable.
  Function: a batch of events is ingested once per id and reported truthfully, with properties all or
  none; login needs password and code; the retention job deletes exactly the expired events; origins
  round-trip and match what they should; a process starts exactly when configuration, database and
  administrator are in order; a GeoIP download touches only its database.  Bounds: the rate limit, the
  limiter of one-time codes, and what concurrent logins add to it.  The findings are theorems too: the
  change of role that a concurrent password change undoes, the truncated GeoIP database that stays for a
  month, the fallback that asks for the same month again, the limiter's key and its lost fractions,
  properties lost to an unknown type, the city that is never resolved, origins turned into wildcards by their query, the second factor
  replaced without a password, the role that outlives its account's, the token deleted under another
  project, the bootstrap that takes over a viewer, the session that SQLite passes on with the id of a
  deleted account, the events Postgres drops for their timestamps.

  \<^bold>\<open>Bounds.\<close>  No fuel is used: every loop is structural recursion or has a termination proof.  Go's \<open>int\<close> is
  an unbounded integer where the program only stores or compares it; its width is written out where it
  matters (\<open>atoi\<close>, \<open>go_int64\<close>, the rounding of \<open>float64\<close>).

  \<^bold>\<open>Not modelled:\<close> what drivers do with a data source and the embedded SQL (the tables carry its
  constraints), listening, signals and the graceful shutdown, the
  text of log lines, the target of redirects, and time as a side channel (the comparison with a dummy
  hash in \<open>Login\<close>).  A GeoIP resolver looks up in the bytes it was opened with: that the reader maps the
  file, which a later download rewrites, is outside the model.  Requests are served one after another: the
  interleaving of requests inside a handler is modelled for the limiter of one-time codes (\<open>Totp_Race\<close>)
  and for the read and the write of a password change (\<open>Interleaving\<close>), and the rate limiter's critical section is one
  step.  Times bound
  to Postgres parameters are compared as instants: that a \<open>TIMESTAMP\<close> column drops the offset of the text
  it is given is not modelled.
\<close>

end
